(* ===== verification/Prelude.thy ===== *)
theory Prelude
  imports Main "HOL-Library.Word"
begin

text \<open>
  What the components share: the machine integers of the C++ code, the computations of
  code that updates a state and may throw (an \<open>act\<close>), the Hoare-style rules that carry
  an invariant through such a computation, and a few facts on lists.
\<close>

unbundle bit_operations_syntax

section \<open>Machine integers\<close>

type_synonym u8 = "8 word"

type_synonym u32 = "32 word"

type_synonym u64 = "64 word"

text \<open>The bytes of a \<open>std::string\<close>, one per character.\<close>

definition bytes_of_string :: "string \<Rightarrow> u8 list" where
  "bytes_of_string s = map of_char s"

section \<open>Computations with a state and exceptions\<close>

text \<open>
  A member function of a stateful C++ class is a function from the state before the call
  to the outcome and the state after it. The outcome is \<open>Inl e\<close> when the call ends with
  the exception \<open>e\<close>: what was done to the state before the throw stays done.
\<close>

type_synonym ('s, 'e, 'a) act = "'s \<Rightarrow> ('e + 'a) \<times> 's"

named_theorems act_defs "definitions of the state and exception combinators"

named_theorems keeps_intros "rules that carry an invariant through a computation"

definition ret :: "'a \<Rightarrow> ('s, 'e, 'a) act" where [act_defs]:
  "ret x = (\<lambda>s. (Inr x, s))"

definition throw :: "'e \<Rightarrow> ('s, 'e, 'a) act" where [act_defs]:
  "throw e = (\<lambda>s. (Inl e, s))"

definition bnd :: "('s, 'e, 'a) act \<Rightarrow> ('a \<Rightarrow> ('s, 'e, 'b) act) \<Rightarrow> ('s, 'e, 'b) act" where [act_defs]:
  "bnd f g = (\<lambda>s. case f s of (Inl e, s') \<Rightarrow> (Inl e, s') | (Inr x, s') \<Rightarrow> g x s')"

definition try_catch :: "('s, 'e, 'a) act \<Rightarrow> ('e \<Rightarrow> ('s, 'e, 'a) act) \<Rightarrow> ('s, 'e, 'a) act" where [act_defs]:
  "try_catch f h = (\<lambda>s. case f s of (Inl e, s') \<Rightarrow> h e s' | (Inr x, s') \<Rightarrow> (Inr x, s'))"

definition get_st :: "('s \<Rightarrow> 'a) \<Rightarrow> ('s, 'e, 'a) act" where [act_defs]:
  "get_st f = (\<lambda>s. (Inr (f s), s))"

definition mod_st :: "('s \<Rightarrow> 's) \<Rightarrow> ('s, 'e, unit) act" where [act_defs]:
  "mod_st f = (\<lambda>s. (Inr (), f s))"

text \<open>A statement executed for its effect, and a loop over the elements of a list.\<close>

definition seq :: "('s, 'e, 'a) act \<Rightarrow> ('s, 'e, 'b) act \<Rightarrow> ('s, 'e, 'b) act" where [act_defs]:
  "seq f g = bnd f (\<lambda>_. g)"

fun for_each :: "'a list \<Rightarrow> ('a \<Rightarrow> ('s, 'e, unit) act) \<Rightarrow> ('s, 'e, unit) act" where
  "for_each [] f = ret ()"
| "for_each (x # xs) f = seq (f x) (for_each xs f)"

lemma bnd_ret [simp]: "bnd (ret x) g = g x"
  by (simp add: act_defs)

lemma ret_bnd [simp]: "bnd f ret = f"
  by (rule ext) (simp add: act_defs split: prod.split sum.split)

lemma bnd_throw [simp]: "bnd (throw e) g = throw e"
  by (simp add: act_defs)

lemma bnd_assoc: "bnd (bnd f g) h = bnd f (\<lambda>x. bnd (g x) h)"
  by (rule ext) (simp add: act_defs split: prod.split sum.split)

text \<open>The combinators at a state: these unfold only where a computation runs.\<close>

named_theorems act_at "the combinators applied to a state"

lemma ret_at [act_at]: "ret x s = (Inr x, s)"
  by (simp add: ret_def)

lemma throw_at [act_at]: "throw e s = (Inl e, s)"
  by (simp add: throw_def)

lemma bnd_at [act_at]: "bnd f g s = (case f s of (Inl e, t) \<Rightarrow> (Inl e, t) | (Inr x, t) \<Rightarrow> g x t)"
  by (simp add: bnd_def)

lemma seq_at [act_at]: "seq f g s = (case f s of (Inl e, t) \<Rightarrow> (Inl e, t) | (Inr x, t) \<Rightarrow> g t)"
  by (simp add: seq_def bnd_def)

lemma try_catch_at [act_at]:
  "try_catch f h s = (case f s of (Inl e, t) \<Rightarrow> h e t | (Inr x, t) \<Rightarrow> (Inr x, t))"
  by (simp add: try_catch_def)

lemma get_st_at [act_at]: "get_st f s = (Inr (f s), s)"
  by (simp add: get_st_def)

lemma mod_st_at [act_at]: "mod_st f s = (Inr (), f s)"
  by (simp add: mod_st_def)

text \<open>The same for code without a state of its own: a call that may throw, then the rest.\<close>

definition sum_bind :: "'e + 'a \<Rightarrow> ('a \<Rightarrow> 'e + 'b) \<Rightarrow> 'e + 'b" where
  "sum_bind r f = (case r of Inl e \<Rightarrow> Inl e | Inr x \<Rightarrow> f x)"

lemma sum_bind_simps [simp]:
  "sum_bind (Inl e) f = Inl e"
  "sum_bind (Inr x) f = f x"
  by (simp_all add: sum_bind_def)

section \<open>Invariants of computations\<close>

text \<open>\<open>keeps P f\<close>: \<open>f\<close> ends in a state with \<open>P\<close> if it starts in one, whether it throws or not.\<close>

definition keeps :: "('s \<Rightarrow> bool) \<Rightarrow> ('s, 'e, 'a) act \<Rightarrow> bool" where
  "keeps P f \<longleftrightarrow> (\<forall>s. P s \<longrightarrow> P (snd (f s)))"

lemma keepsI [intro?]: "(\<And>s. P s \<Longrightarrow> P (snd (f s))) \<Longrightarrow> keeps P f"
  by (simp add: keeps_def)

lemma keepsD: "keeps P f \<Longrightarrow> P s \<Longrightarrow> P (snd (f s))"
  by (simp add: keeps_def)

text \<open>A computation that keeps every value of an observation leaves the observation alone.\<close>

definition preserves :: "('s \<Rightarrow> 'o) \<Rightarrow> ('s, 'e, 'a) act \<Rightarrow> bool" where
  "preserves obs f \<longleftrightarrow> (\<forall>v. keeps (\<lambda>s. obs s = v) f)"

lemma preserves_snd: "preserves obs f \<Longrightarrow> obs (snd (f s)) = obs s"
  by (simp add: preserves_def keeps_def)

lemma preserves_run: "preserves obs f \<Longrightarrow> f s = (r, t) \<Longrightarrow> obs t = obs s"
  using preserves_snd [of obs f s] by simp

lemma keeps_ret [keeps_intros]: "keeps P (ret x)"
  by (simp add: keeps_def act_defs)

lemma keeps_throw [keeps_intros]: "keeps P (throw e)"
  by (simp add: keeps_def act_defs)

lemma keeps_get_st [keeps_intros]: "keeps P (get_st f)"
  by (simp add: keeps_def act_defs)

lemma keeps_mod_st: "(\<And>s. P s \<Longrightarrow> P (f s)) \<Longrightarrow> keeps P (mod_st f)"
  by (simp add: keeps_def act_defs)

lemma keeps_bnd [keeps_intros]:
  assumes "keeps P f" and "\<And>x. keeps P (g x)"
  shows "keeps P (bnd f g)"
  using assms by (auto simp: keeps_def bnd_def split: prod.split sum.split)

lemma keeps_seq [keeps_intros]: "keeps P f \<Longrightarrow> keeps P g \<Longrightarrow> keeps P (seq f g)"
  by (simp add: seq_def keeps_bnd)

lemma keeps_try_catch [keeps_intros]:
  assumes "keeps P f" and "\<And>e. keeps P (h e)"
  shows "keeps P (try_catch f h)"
  using assms by (auto simp: keeps_def try_catch_def split: prod.split sum.split)

lemma keeps_for_each [keeps_intros]: "(\<And>x. keeps P (f x)) \<Longrightarrow> keeps P (for_each xs f)"
  by (induction xs) (simp_all add: keeps_intros)

lemma keeps_if [keeps_intros]: "(b \<Longrightarrow> keeps P f) \<Longrightarrow> (\<not> b \<Longrightarrow> keeps P g) \<Longrightarrow> keeps P (if b then f else g)"
  by simp

lemma keeps_case_option [keeps_intros]:
  "(x = None \<Longrightarrow> keeps P f) \<Longrightarrow> (\<And>y. x = Some y \<Longrightarrow> keeps P (g y)) \<Longrightarrow>
    keeps P (case x of None \<Rightarrow> f | Some y \<Rightarrow> g y)"
  by (cases x) simp_all

lemma keeps_case_sum [keeps_intros]:
  "(\<And>y. x = Inl y \<Longrightarrow> keeps P (f y)) \<Longrightarrow> (\<And>y. x = Inr y \<Longrightarrow> keeps P (g y)) \<Longrightarrow>
    keeps P (case x of Inl y \<Rightarrow> f y | Inr y \<Rightarrow> g y)"
  by (cases x) simp_all

lemma keeps_case_prod [keeps_intros]:
  "(\<And>x y. p = (x, y) \<Longrightarrow> keeps P (f x y)) \<Longrightarrow> keeps P (case p of (x, y) \<Rightarrow> f x y)"
  by (cases p) simp_all

section \<open>Lists\<close>

lemma list8_cases:
  assumes "length xs = 8"
  obtains a b c d e f g h where "xs = [a, b, c, d, e, f, g, h]"
  using assms by (auto simp: numeral_eq_Suc length_Suc_conv)

lemma foldl_invariant:
  assumes "P s" and "\<And>s x. P s \<Longrightarrow> x \<in> set xs \<Longrightarrow> P (f s x)"
  shows "P (foldl f s xs)"
  using assms by (induction xs arbitrary: s) simp_all

lemma upt_split: "i \<le> k \<Longrightarrow> k \<le> n \<Longrightarrow> [i..<n] = [i..<k] @ [k..<n]"
  by (metis le_add_diff_inverse upt_add_eq_append)

lemma take_update_snoc: "i < length xs \<Longrightarrow> take (Suc i) (xs[i := x]) = take i xs @ [x]"
  by (simp add: take_Suc_conv_app_nth)

lemma foldl_snoc [simp]: "foldl (\<lambda>ys x. ys @ [x]) acc xs = acc @ xs"
  by (induction xs arbitrary: acc) simp_all

end
