(* ===== verification/Sha256.thy ===== *)
theory Sha256
  imports Prelude
begin

text \<open>
  The class \<open>SHA256\<close> of \<open>src/base/utils.hpp\<close> and \<open>src/base/utils.cpp\<close>: its four members
  as a record, one definition per member function, in the order of the source. Arrays are
  lists of their fixed length, and an index is the value of the C++ index variable. The
  reference definition and the theorems are in \<open>Sha256_Fips\<close>.
\<close>

section \<open>State and constants\<close>

record sha256 =
  m_data :: "u8 list"
  m_blocklen :: u32
  m_bitlen :: u64
  m_state :: "u32 list"

definition sha_K :: "u32 list" where
  "sha_K = concat [
    [0x428a2f98, 0x71374491, 0xb5c0fbcf, 0xe9b5dba5],
    [0x3956c25b, 0x59f111f1, 0x923f82a4, 0xab1c5ed5],
    [0xd807aa98, 0x12835b01, 0x243185be, 0x550c7dc3],
    [0x72be5d74, 0x80deb1fe, 0x9bdc06a7, 0xc19bf174],
    [0xe49b69c1, 0xefbe4786, 0x0fc19dc6, 0x240ca1cc],
    [0x2de92c6f, 0x4a7484aa, 0x5cb0a9dc, 0x76f988da],
    [0x983e5152, 0xa831c66d, 0xb00327c8, 0xbf597fc7],
    [0xc6e00bf3, 0xd5a79147, 0x06ca6351, 0x14292967],
    [0x27b70a85, 0x2e1b2138, 0x4d2c6dfc, 0x53380d13],
    [0x650a7354, 0x766a0abb, 0x81c2c92e, 0x92722c85],
    [0xa2bfe8a1, 0xa81a664b, 0xc24b8b70, 0xc76c51a3],
    [0xd192e819, 0xd6990624, 0xf40e3585, 0x106aa070],
    [0x19a4c116, 0x1e376c08, 0x2748774c, 0x34b0bcb5],
    [0x391c0cb3, 0x4ed8aa4a, 0x5b9cca4f, 0x682e6ff3],
    [0x748f82ee, 0x78a5636f, 0x84c87814, 0x8cc70208],
    [0x90befffa, 0xa4506ceb, 0xbef9a3f7, 0xc67178f2]]"

text \<open>
  The constructor leaves \<open>m_data\<close> uninitialised: \<open>junk\<close> is what the memory of the
  64 bytes held.
\<close>

definition sha_new :: "u8 list \<Rightarrow> sha256" where
  "sha_new junk = \<lparr> m_data = junk, m_blocklen = 0, m_bitlen = 0,
     m_state = [0x6a09e667, 0xbb67ae85, 0x3c6ef372, 0xa54ff53a,
                0x510e527f, 0x9b05688c, 0x1f83d9ab, 0x5be0cd19] \<rparr>"

section \<open>The word functions\<close>

definition rotr :: "u32 \<Rightarrow> u32 \<Rightarrow> u32" where
  "rotr x n = drop_bit (unat n) x OR push_bit (unat (32 - n)) x"

definition sha_choose :: "u32 \<Rightarrow> u32 \<Rightarrow> u32 \<Rightarrow> u32" where
  "sha_choose e f g = (e AND f) XOR (NOT e AND g)"

definition majority :: "u32 \<Rightarrow> u32 \<Rightarrow> u32 \<Rightarrow> u32" where
  "majority a b c = (a AND (b OR c)) OR (b AND c)"

definition sig0 :: "u32 \<Rightarrow> u32" where
  "sig0 x = rotr x 7 XOR rotr x 18 XOR drop_bit 3 x"

definition sig1 :: "u32 \<Rightarrow> u32" where
  "sig1 x = rotr x 17 XOR rotr x 19 XOR drop_bit 10 x"

section \<open>transform\<close>

text \<open>
  The three loops of \<open>transform\<close>: the 16 words of the block, the 48 computed words, the
  64 rounds on the local copy \<open>state\<close>.
\<close>

definition load_word :: "u8 list \<Rightarrow> nat \<Rightarrow> u32" where
  "load_word d j = push_bit 24 (ucast (d ! j)) OR push_bit 16 (ucast (d ! (j + 1)))
     OR push_bit 8 (ucast (d ! (j + 2))) OR ucast (d ! (j + 3))"

definition load_words :: "u8 list \<Rightarrow> u32 list" where
  "load_words d = map (\<lambda>i. load_word d (4 * i)) [0..<16]"

definition extend_step :: "u32 list \<Rightarrow> nat \<Rightarrow> u32 list" where
  "extend_step m k =
     m @ [sig1 (m ! (k - 2)) + m ! (k - 7) + sig0 (m ! (k - 15)) + m ! (k - 16)]"

definition schedule :: "u8 list \<Rightarrow> u32 list" where
  "schedule d = foldl extend_step (load_words d) [16..<64]"

definition round_step :: "u32 list \<Rightarrow> u32 list \<Rightarrow> nat \<Rightarrow> u32 list" where
  "round_step m st i =
     (let maj = majority (st ! 0) (st ! 1) (st ! 2);
          xorA = rotr (st ! 0) 2 XOR rotr (st ! 0) 13 XOR rotr (st ! 0) 22;
          ch = sha_choose (st ! 4) (st ! 5) (st ! 6);
          xorE = rotr (st ! 4) 6 XOR rotr (st ! 4) 11 XOR rotr (st ! 4) 25;
          sum = m ! i + sha_K ! i + st ! 7 + ch + xorE;
          newA = xorA + maj + sum;
          newE = st ! 3 + sum
      in [newA, st ! 0, st ! 1, st ! 2, newE, st ! 4, st ! 5, st ! 6])"

definition transform :: "sha256 \<Rightarrow> sha256" where
  "transform s =
     (let m = schedule (m_data s);
          state = foldl (round_step m) (m_state s) [0..<64]
      in s\<lparr>m_state := map2 (+) (m_state s) state\<rparr>)"

section \<open>update\<close>

definition update_byte :: "sha256 \<Rightarrow> u8 \<Rightarrow> sha256" where
  "update_byte s b =
     (let s1 = s\<lparr>m_data := (m_data s)[unat (m_blocklen s) := b],
                 m_blocklen := m_blocklen s + 1\<rparr>
      in if m_blocklen s1 = 64
         then (let s2 = transform s1 in s2\<lparr>m_bitlen := m_bitlen s2 + 512, m_blocklen := 0\<rparr>)
         else s1)"

definition sha_update :: "sha256 \<Rightarrow> u8 list \<Rightarrow> sha256" where
  "sha_update s data = foldl update_byte s data"

definition sha_update_string :: "sha256 \<Rightarrow> string \<Rightarrow> sha256" where
  "sha_update_string s data = sha_update s (bytes_of_string data)"

section \<open>pad, revert and digest\<close>

function zero_fill :: "nat \<Rightarrow> nat \<Rightarrow> u8 list \<Rightarrow> u8 list" where
  "zero_fill i e d = (if i < e then zero_fill (Suc i) e (d[i := 0]) else d)"
  by pat_completeness auto
termination
  by (relation "measure (\<lambda>(i, e, d). e - i)") auto

declare zero_fill.simps [simp del]

definition memset_zero :: "nat \<Rightarrow> u8 list \<Rightarrow> u8 list" where
  "memset_zero n d = replicate n 0 @ drop n d"

definition store_bitlen :: "u64 \<Rightarrow> u8 list \<Rightarrow> u8 list" where
  "store_bitlen n d = d[63 := ucast n, 62 := ucast (drop_bit 8 n), 61 := ucast (drop_bit 16 n),
     60 := ucast (drop_bit 24 n), 59 := ucast (drop_bit 32 n), 58 := ucast (drop_bit 40 n),
     57 := ucast (drop_bit 48 n), 56 := ucast (drop_bit 56 n)]"

definition pad :: "sha256 \<Rightarrow> sha256" where
  "pad s =
     (let i = unat (m_blocklen s);
          e = (if m_blocklen s < 56 then 56 else 64);
          s1 = s\<lparr>m_data := zero_fill (Suc i) e ((m_data s)[i := 0x80])\<rparr>;
          s2 = (if 56 \<le> m_blocklen s1
                then (let t = transform s1 in t\<lparr>m_data := memset_zero 56 (m_data t)\<rparr>)
                else s1);
          s3 = s2\<lparr>m_bitlen := m_bitlen s2 + ucast (m_blocklen s2 * 8)\<rparr>
      in transform (s3\<lparr>m_data := store_bitlen (m_bitlen s3) (m_data s3)\<rparr>))"

text \<open>\<open>hash\<close> is the caller's array, all of whose 32 cells are written.\<close>

definition revert :: "sha256 \<Rightarrow> u8 list \<Rightarrow> u8 list" where
  "revert s hash =
     foldl (\<lambda>h (i, j). h[i + j * 4 := ucast (drop_bit (24 - i * 8) (m_state s ! j) AND 0xff)])
       hash (List.product [0..<4] [0..<8])"

definition digest :: "u8 list \<Rightarrow> sha256 \<Rightarrow> u8 list \<times> sha256" where
  "digest hash s = (let s1 = pad s in (revert s1 hash, s1))"

section \<open>toString\<close>

definition hex_digit :: "nat \<Rightarrow> char" where
  "hex_digit n = ''0123456789abcdef'' ! n"

definition hex_byte :: "u8 \<Rightarrow> string" where
  "hex_byte b = [hex_digit (unat b div 16), hex_digit (unat b mod 16)]"

definition to_hex_string :: "u8 list \<Rightarrow> string" where
  "to_hex_string d = concat (map (\<lambda>i. hex_byte (d ! i)) [0..<32])"

section \<open>Random bytes and salts\<close>

text \<open>
  The generators draw from the standard library: \<open>dist i\<close> is the \<open>i\<close>-th value
  of the distribution the function sets up.
\<close>

definition generate_random_bytes :: "(nat \<Rightarrow> u32) \<Rightarrow> nat \<Rightarrow> u8 list" where
  "generate_random_bytes dist n = map (\<lambda>i. ucast (dist i)) [0..<n]"

definition salt_charset :: string where
  "salt_charset = ''0123456789ABCDEFGHIJKLMNOPQRSTUVWXYZabcdefghijklmnopqrstuvwxyz''"

definition generate_random_salt :: "(nat \<Rightarrow> nat) \<Rightarrow> nat \<Rightarrow> string" where
  "generate_random_salt dist len = foldl (\<lambda>salt i. salt @ [salt_charset ! dist i]) [] [0..<len]"

end
