(* ===== verification/Sha256_Fips.thy ===== *)
theory Sha256_Fips
  imports Sha256
begin

text \<open>
  SHA-256 as FIPS 180-4 defines it (section 4.1.2 for the functions, 5.1.1 for the padding,
  6.2.2 for the computation), on messages of whole bytes, and the proof that the class
  \<open>SHA256\<close> computes it: for any uninitialised memory, any message, and any way to cut the
  message into calls of \<open>update\<close>. The reference works on tuples, recursive schedules and
  whole padded messages; the class works in place on one 64-byte buffer.
\<close>

section \<open>The standard\<close>

type_synonym hash_value = "u32 \<times> u32 \<times> u32 \<times> u32 \<times> u32 \<times> u32 \<times> u32 \<times> u32"

definition Ch :: "u32 \<Rightarrow> u32 \<Rightarrow> u32 \<Rightarrow> u32" where
  "Ch x y z = (x AND y) XOR (NOT x AND z)"

definition Maj :: "u32 \<Rightarrow> u32 \<Rightarrow> u32 \<Rightarrow> u32" where
  "Maj x y z = (x AND y) XOR (x AND z) XOR (y AND z)"

definition Sigma_0 :: "u32 \<Rightarrow> u32" where
  "Sigma_0 x = word_rotr 2 x XOR word_rotr 13 x XOR word_rotr 22 x"

definition Sigma_1 :: "u32 \<Rightarrow> u32" where
  "Sigma_1 x = word_rotr 6 x XOR word_rotr 11 x XOR word_rotr 25 x"

definition sigma_0 :: "u32 \<Rightarrow> u32" where
  "sigma_0 x = word_rotr 7 x XOR word_rotr 18 x XOR drop_bit 3 x"

definition sigma_1 :: "u32 \<Rightarrow> u32" where
  "sigma_1 x = word_rotr 17 x XOR word_rotr 19 x XOR drop_bit 10 x"

definition block_word :: "u8 list \<Rightarrow> nat \<Rightarrow> u32" where
  "block_word B t = word_of_nat
     (((unat (B ! (4 * t)) * 256 + unat (B ! (4 * t + 1))) * 256 + unat (B ! (4 * t + 2))) * 256
      + unat (B ! (4 * t + 3)))"

fun W :: "u8 list \<Rightarrow> nat \<Rightarrow> u32" where
  "W B t = (if t < 16 then block_word B t
     else sigma_1 (W B (t - 2)) + W B (t - 7) + sigma_0 (W B (t - 15)) + W B (t - 16))"

declare W.simps [simp del]

fun fips_round :: "u8 list \<Rightarrow> hash_value \<Rightarrow> nat \<Rightarrow> hash_value" where
  "fips_round B (a, b, c, d, e, f, g, h) t =
     (let T1 = h + Sigma_1 e + Ch e f g + sha_K ! t + W B t;
          T2 = Sigma_0 a + Maj a b c
      in (T1 + T2, a, b, c, d + T1, e, f, g))"

fun add_hash :: "hash_value \<Rightarrow> hash_value \<Rightarrow> hash_value" where
  "add_hash (a, b, c, d, e, f, g, h) (a', b', c', d', e', f', g', h') =
     (a + a', b + b', c + c', d + d', e + e', f + f', g + g', h + h')"

definition fips_block :: "hash_value \<Rightarrow> u8 list \<Rightarrow> hash_value" where
  "fips_block H B = add_hash H (foldl (fips_round B) H [0..<64])"

definition be64 :: "u64 \<Rightarrow> u8 list" where
  "be64 n = map (\<lambda>i. ucast (drop_bit (56 - 8 * i) n)) [0..<8]"

definition be32 :: "u32 \<Rightarrow> u8 list" where
  "be32 w = map (\<lambda>i. ucast (drop_bit (24 - 8 * i) w)) [0..<4]"

definition fips_pad :: "u8 list \<Rightarrow> u8 list" where
  "fips_pad msg = msg @ [0x80] @ replicate ((119 - length msg mod 64) mod 64) 0
     @ be64 (word_of_nat (8 * length msg))"

fun blocks :: "u8 list \<Rightarrow> u8 list list" where
  "blocks xs = (if xs = [] then [] else take 64 xs # blocks (drop 64 xs))"

declare blocks.simps [simp del]

definition fips_H0 :: hash_value where
  "fips_H0 = (0x6a09e667, 0xbb67ae85, 0x3c6ef372, 0xa54ff53a,
              0x510e527f, 0x9b05688c, 0x1f83d9ab, 0x5be0cd19)"

fun words_of :: "hash_value \<Rightarrow> u32 list" where
  "words_of (a, b, c, d, e, f, g, h) = [a, b, c, d, e, f, g, h]"

definition fips_sha256 :: "u8 list \<Rightarrow> u8 list" where
  "fips_sha256 msg = concat (map be32 (words_of (foldl fips_block fips_H0 (blocks (fips_pad msg)))))"

section \<open>The word functions agree\<close>

lemma rotr_word_rotr:
  assumes "0 < unat n" "unat n < 32"
  shows "rotr x n = word_rotr (unat n) x"
proof (rule bit_word_eqI)
  fix k assume k: "k < LENGTH(32)"
  have u: "unat (32 - n) = 32 - unat n"
    using assms by (simp add: unat_sub word_le_nat_alt)
  show "bit (rotr x n) k = bit (word_rotr (unat n) x) k"
    using k assms
    by (auto simp: rotr_def u bit_or_iff bit_drop_bit_eq bit_push_bit_iff bit_word_rotr_iff
        mod_if not_less bit_imp_le_length le_diff_conv2 add.commute[of k] intro: arg_cong[where f = "bit x"]
        dest: bit_imp_le_length)
qed

lemma choose_Ch: "sha_choose e f g = Ch e f g"
  by (simp add: sha_choose_def Ch_def)

lemma majority_Maj: "majority a b c = Maj a b c"
  by (rule bit_word_eqI) (auto simp: majority_def Maj_def bit_simps)

lemma sig0_sigma: "sig0 x = sigma_0 x"
  by (simp add: sig0_def sigma_0_def rotr_word_rotr)

lemma sig1_sigma: "sig1 x = sigma_1 x"
  by (simp add: sig1_def sigma_1_def rotr_word_rotr)

lemma xorA_Sigma: "rotr x 2 XOR rotr x 13 XOR rotr x 22 = Sigma_0 x"
  by (simp add: Sigma_0_def rotr_word_rotr)

lemma xorE_Sigma: "rotr x 6 XOR rotr x 11 XOR rotr x 25 = Sigma_1 x"
  by (simp add: Sigma_1_def rotr_word_rotr)

section \<open>One block\<close>

lemma bit_ucast8: "bit (ucast (b::u8) :: u32) n \<longleftrightarrow> n < 8 \<and> bit b n"
  by (auto simp: bit_ucast_iff dest: bit_imp_le_length)

lemma bytes_or_add:
  fixes a b c d :: u8
  shows "push_bit 24 (ucast a) OR push_bit 16 (ucast b) OR push_bit 8 (ucast c) OR (ucast d :: u32)
    = push_bit 24 (ucast a) + (push_bit 16 (ucast b) + (push_bit 8 (ucast c) + ucast d))"
proof -
  have 1: "push_bit 8 (ucast c) + ucast d = push_bit 8 (ucast c) OR (ucast d :: u32)"
    by (rule disjunctive_add_eq_or) (auto simp: bit_eq_iff bit_simps bit_ucast8 dest: bit_imp_le_length)
  have 2: "push_bit 16 (ucast b) + (push_bit 8 (ucast c) OR ucast d)
      = push_bit 16 (ucast b) OR push_bit 8 (ucast c) OR (ucast d :: u32)"
    by (rule disjunctive_add_eq_or) (auto simp: bit_eq_iff bit_simps bit_ucast8 dest: bit_imp_le_length)
  have 3: "push_bit 24 (ucast a) + (push_bit 16 (ucast b) OR push_bit 8 (ucast c) OR ucast d)
      = push_bit 24 (ucast a) OR push_bit 16 (ucast b) OR push_bit 8 (ucast c) OR (ucast d :: u32)"
    by (rule disjunctive_add_eq_or) (auto simp: bit_eq_iff bit_simps bit_ucast8 dest: bit_imp_le_length)
  show ?thesis by (simp only: 1 2 3)
qed

lemma load_word_block_word: "load_word B (4 * t) = block_word B t"
  unfolding load_word_def bytes_or_add
  by (simp add: block_word_def push_bit_eq_mult algebra_simps)

lemma length_load_words [simp]: "length (load_words d) = 16"
  by (simp add: load_words_def)

text \<open>The schedule array holds, after the loop reached \<open>k\<close>, the first \<open>k\<close> words of the standard's.\<close>

lemma extend_steps:
  "foldl extend_step (load_words d) [16..<16 + n] = map (W d) [0..<16 + n]"
proof (induction n)
  case 0
  show ?case
    by (simp add: load_words_def W.simps load_word_block_word)
next
  case (Suc n)
  have "extend_step (map (W d) [0..<16 + n]) (16 + n) = map (W d) [0..<16 + n] @ [W d (16 + n)]"
    by (simp add: extend_step_def sig0_sigma sig1_sigma W.simps [of d "16 + n"])
  moreover have "[k..<16 + Suc n] = [k..<16 + n] @ [16 + n]" if "k \<le> 16" for k
    using that by (simp flip: upt_Suc_append)
  ultimately show ?case by (simp add: Suc del: upt_Suc)
qed

lemma schedule_W: "i < 64 \<Longrightarrow> schedule d ! i = W d i"
  using extend_steps [of d 48] by (simp add: schedule_def)

lemma hash_cases:
  obtains a b c d e f g h where "(H :: hash_value) = (a, b, c, d, e, f, g, h)"
  by (metis surj_pair)

lemma round_words_of:
  assumes "m ! i = W B i"
  shows "round_step m (words_of H) i = words_of (fips_round B H i)"
proof -
  obtain a b c d e f g h where "H = (a, b, c, d, e, f, g, h)" by (rule hash_cases)
  then show ?thesis
    by (simp add: round_step_def Let_def assms choose_Ch majority_Maj xorA_Sigma xorE_Sigma algebra_simps)
qed

lemma rounds_words_of:
  assumes "\<And>i. i \<in> set is \<Longrightarrow> m ! i = W B i"
  shows "foldl (round_step m) (words_of H) is = words_of (foldl (fips_round B) H is)"
  using assms by (induction "is" arbitrary: H) (simp_all add: round_words_of)

lemma map2_add_words_of: "map2 (+) (words_of H) (words_of H') = words_of (add_hash H H')"
  by (rule hash_cases [of H]; rule hash_cases [of H']) simp

text \<open>One call of \<open>transform\<close> is one block of the standard's computation.\<close>

lemma transform_block:
  assumes "m_state s = words_of H"
  shows "transform s = s\<lparr>m_state := words_of (fips_block H (m_data s))\<rparr>"
proof -
  have "foldl (round_step (schedule (m_data s))) (words_of H) [0..<64]
      = words_of (foldl (fips_round (m_data s)) H [0..<64])"
    by (rule rounds_words_of) (simp add: schedule_W)
  then show ?thesis
    by (simp add: transform_def assms fips_block_def map2_add_words_of)
qed


section \<open>The buffer and the padding\<close>

lemma blocks_Nil [simp]: "blocks [] = []"
  by (simp add: blocks.simps)

lemma blocks_one: "length xs = 64 \<Longrightarrow> blocks xs = [xs]"
  by (subst blocks.simps) auto

lemma blocks_append: "length xs mod 64 = 0 \<Longrightarrow> blocks (xs @ ys) = blocks xs @ blocks ys"
proof (induction xs rule: blocks.induct)
  case (1 xs)
  show ?case
  proof (cases "xs = []")
    case False
    with "1.prems" have "64 \<le> length xs"
      by (metis dvd_imp_le length_greater_0_conv mod_0_imp_dvd)
    with "1.prems" have "length (drop 64 xs) mod 64 = 0"
      by (simp add: le_mod_geq)
    with 1 False have "blocks (drop 64 xs @ ys) = blocks (drop 64 xs) @ blocks ys"
      by simp
    with False \<open>64 \<le> length xs\<close> show ?thesis
      by (subst (1 2) blocks.simps) simp
  qed simp
qed

lemma zero_fill_eq:
  "i \<le> e \<Longrightarrow> e \<le> length d \<Longrightarrow> zero_fill i e d = take i d @ replicate (e - i) 0 @ drop e d"
proof (induction i e d rule: zero_fill.induct)
  case (1 i e d)
  show ?case
  proof (cases "i < e")
    case True
    with 1 have "zero_fill i e d = take (Suc i) (d[i := 0]) @ replicate (e - Suc i) 0 @ drop e (d[i := 0])"
      by (subst zero_fill.simps) simp
    also have "\<dots> = take i d @ (0 # replicate (e - Suc i) 0) @ drop e d"
      using True "1.prems" by (simp add: take_update_snoc)
    finally show ?thesis
      using True by (simp add: Suc_diff_Suc flip: replicate_Suc)
  next
    case False
    with "1.prems" show ?thesis by (subst zero_fill.simps) simp
  qed
qed

lemma length_zero_fill [simp]: "length (zero_fill i e d) = length d"
  by (induction i e d rule: zero_fill.induct) (subst zero_fill.simps, simp)

lemma store_bitlen_eq:
  assumes "length d = 64"
  shows "store_bitlen n d = take 56 d @ be64 n"
proof -
  have "length (drop 56 d) = 8" using assms by simp
  then obtain a b c x e f g h where t: "drop 56 d = [a, b, c, x, e, f, g, h]"
    by (rule list8_cases)
  define p where "p = take 56 d"
  have p: "length p = 56" using assms by (simp add: p_def)
  have d: "d = p @ [a, b, c, x, e, f, g, h]"
    using append_take_drop_id [of 56 d] t by (simp add: p_def)
  have "store_bitlen n d = p @ be64 n"
    unfolding d store_bitlen_def
    by (simp add: be64_def list_update_append p upt_rec)
  then show ?thesis by (simp add: p_def)
qed

lemma revert_eq:
  assumes "length hash = 32" "length (m_state s) = 8"
  shows "revert s hash = concat (map be32 (m_state s))"
proof -
  obtain a b c d e f g h where st: "m_state s = [a, b, c, d, e, f, g, h]"
    using assms(2) by (rule list8_cases)
  have idx: "List.product [0..<4] [0..<8] = concat (map (\<lambda>i. map (\<lambda>j. (i, j)) [0,1,2,3,4,5,6,7]) [0,1,2,3::nat])"
    by (simp add: upt_rec)
  have be: "be32 w = [ucast (drop_bit 24 w), ucast (drop_bit 16 w), ucast (drop_bit 8 w), ucast w]" for w
    by (simp add: be32_def upt_rec)
  have m: "ucast (w AND 0xff) = (ucast w :: u8)" for w :: u32
  proof -
    have "ucast (w AND mask 8) = (ucast w :: u8)"
      by (rule bit_word_eqI) (auto simp: bit_simps)
    moreover have "mask 8 = (0xff :: u32)" by (simp add: mask_eq_exp_minus_1)
    ultimately show ?thesis by (simp only:)
  qed
  show ?thesis
  proof (rule nth_equalityI)
    show "length (revert s hash) = length (concat (map be32 (m_state s)))"
      using assms by (simp add: revert_def idx st be)
    fix k assume "k < length (revert s hash)"
    then have "k < 32" using assms by (simp add: revert_def idx)
    then show "revert s hash ! k = concat (map be32 (m_state s)) ! k"
      using assms(1) by (auto simp: revert_def idx st be m numeral_eq_Suc less_Suc_eq)
  qed
qed
section \<open>The class computes the standard\<close>

text \<open>
  \<open>absorbs s msg\<close>: the object has been given the bytes \<open>msg\<close>: the whole blocks are in
  \<open>m_state\<close>, the rest is at the start of the buffer, and the counters say how much of each.
\<close>

definition absorbs :: "sha256 \<Rightarrow> u8 list \<Rightarrow> bool" where
  "absorbs s msg \<longleftrightarrow>
     (let q = length msg div 64; r = length msg mod 64
      in length (m_data s) = 64 \<and> m_blocklen s = word_of_nat r \<and>
         m_bitlen s = word_of_nat (512 * q) \<and>
         take r (m_data s) = drop (64 * q) msg \<and>
         m_state s = words_of (foldl fips_block fips_H0 (blocks (take (64 * q) msg))))"

lemma absorbs_new: "length junk = 64 \<Longrightarrow> absorbs (sha_new junk) []"
  by (simp add: absorbs_def sha_new_def fips_H0_def)

lemma unat_word_of_nat32 [simp]: "n < 64 \<Longrightarrow> unat (word_of_nat n :: u32) = n"
  by (simp add: unat_of_nat)

lemma absorbs_update_byte:
  assumes "absorbs s msg"
  shows "absorbs (update_byte s b) (msg @ [b])"
proof -
  define q r where "q = length msg div 64" and "r = length msg mod 64"
  have len: "length msg = 64 * q + r" and r: "r < 64"
    by (simp_all add: q_def r_def)
  from assms have s: "length (m_data s) = 64" "m_blocklen s = word_of_nat r"
      "m_bitlen s = word_of_nat (512 * q)" "take r (m_data s) = drop (64 * q) msg"
      "m_state s = words_of (foldl fips_block fips_H0 (blocks (take (64 * q) msg)))"
    by (simp_all add: absorbs_def q_def r_def Let_def)
  have bl: "m_blocklen s + 1 = 64 \<longleftrightarrow> r = 63"
  proof -
    have "m_blocklen s + 1 = word_of_nat (Suc r)" by (simp add: s)
    moreover have "word_of_nat (Suc r) = (64 :: u32) \<longleftrightarrow> Suc r = 64"
      using r by (simp add: word_unat_eq_iff unat_of_nat del: of_nat_Suc)
    ultimately show ?thesis by simp
  qed
  let ?d = "(m_data s)[r := b]"
  have d: "take (Suc r) ?d = drop (64 * q) msg @ [b]"
    using r s by (simp add: take_update_snoc)
  show ?thesis
  proof (cases "r = 63")
    case False
    then have "Suc (length msg) div 64 = q" "Suc (length msg) mod 64 = Suc r"
      using len r by (simp_all add: div_mult_self3)
    then show ?thesis
      using False s bl d len r
      by (simp add: absorbs_def update_byte_def Let_def algebra_simps)
  next
    case True
    then have l: "Suc (length msg) div 64 = Suc q" "Suc (length msg) mod 64 = 0"
      using len by simp_all
    have d': "?d = drop (64 * q) msg @ [b]"
      using d s True by simp
    have "transform (s\<lparr>m_data := ?d, m_blocklen := m_blocklen s + 1\<rparr>) =
        s\<lparr>m_data := ?d, m_blocklen := m_blocklen s + 1,
          m_state := words_of (fips_block (foldl fips_block fips_H0 (blocks (take (64 * q) msg))) ?d)\<rparr>"
      by (subst transform_block) (simp_all add: s)
    moreover have "blocks (msg @ [b]) = blocks (take (64 * q) msg) @ [?d]"
    proof -
      have "msg @ [b] = take (64 * q) msg @ ?d" unfolding d' by simp
      then show ?thesis
        using s len by (simp add: blocks_append blocks_one del: append_take_drop_id)
    qed
    ultimately show ?thesis
      using True s bl len r l
      by (simp add: absorbs_def update_byte_def Let_def)
  qed
qed

lemma absorbs_update: "absorbs s msg \<Longrightarrow> absorbs (sha_update s data) (msg @ data)"
proof (induction data arbitrary: s msg)
  case Nil
  then show ?case by (simp add: sha_update_def)
next
  case (Cons b data)
  then have "absorbs (sha_update (update_byte s b) data) ((msg @ [b]) @ data)"
    using absorbs_update_byte by blast
  then show ?case by (simp add: sha_update_def)
qed

lemma bitlen_sum:
  "r < 64 \<Longrightarrow> word_of_nat (512 * q) + ucast (word_of_nat r * 8 :: u32) = (word_of_nat (8 * (64 * q + r)) :: u64)"
proof -
  assume r: "r < 64"
  have "ucast (word_of_nat r * 8 :: u32) = (word_of_nat (unat (word_of_nat r * 8 :: u32)) :: u64)"
    by simp
  also have "unat (word_of_nat r * 8 :: u32) = 8 * r"
    using r by (simp add: unat_word_ariths)
  finally show ?thesis by (simp add: algebra_simps)
qed

lemma blocklen_less: "r < 64 \<Longrightarrow> (word_of_nat r :: u32) < 56 \<longleftrightarrow> r < 56"
  by (simp add: word_less_nat_alt)

lemma fips_pad_blocks:
  assumes "length msg = 64 * q + r" "r < 64"
  shows "blocks (fips_pad msg) = blocks (take (64 * q) msg) @
    (if r < 56
     then [drop (64 * q) msg @ [0x80] @ replicate (55 - r) 0 @ be64 (word_of_nat (8 * length msg))]
     else [drop (64 * q) msg @ [0x80] @ replicate (63 - r) 0,
           replicate 56 0 @ be64 (word_of_nat (8 * length msg))])"
proof -
  let ?t = "be64 (word_of_nat (8 * length msg))"
  have t: "length ?t = 8" by (simp add: be64_def)
  have m: "length msg mod 64 = r" using assms by simp
  have pad: "fips_pad msg = take (64 * q) msg @ drop (64 * q) msg @ [0x80] @ replicate ((119 - r) mod 64) 0 @ ?t"
    by (simp add: fips_pad_def m)
  have "blocks (fips_pad msg) = blocks (take (64 * q) msg) @
      blocks (drop (64 * q) msg @ [0x80] @ replicate ((119 - r) mod 64) 0 @ ?t)"
    unfolding pad by (rule blocks_append) (simp add: assms)
  note tail = this
  show ?thesis
  proof (cases "r < 56")
    case True
    then have "119 - r = (55 - r) + 64" by simp
    then have "(119 - r) mod 64 = 55 - r" by (simp only: mod_add_self2) simp
    moreover have "blocks (drop (64 * q) msg @ [0x80] @ replicate (55 - r) 0 @ ?t) =
        [drop (64 * q) msg @ [0x80] @ replicate (55 - r) 0 @ ?t]"
      using True assms t by (intro blocks_one) simp
    ultimately show ?thesis
      using tail True by simp
  next
    case False
    then have "(119 - r) mod 64 = (63 - r) + 56"
      using assms(2) by simp
    then have split: "drop (64 * q) msg @ [0x80] @ replicate ((119 - r) mod 64) 0 @ ?t =
        (drop (64 * q) msg @ [0x80] @ replicate (63 - r) 0) @ (replicate 56 0 @ ?t)"
      by (simp only: replicate_add append_assoc)
    have one: "length (drop (64 * q) msg @ [0x80] @ replicate (63 - r) 0) = 64"
      using False assms by simp
    have "blocks ((drop (64 * q) msg @ [0x80] @ replicate (63 - r) 0) @ (replicate 56 0 @ ?t)) =
        blocks (drop (64 * q) msg @ [0x80] @ replicate (63 - r) 0) @ blocks (replicate 56 0 @ ?t)"
      by (rule blocks_append) (simp only: one, simp)
    also have "\<dots> = [drop (64 * q) msg @ [0x80] @ replicate (63 - r) 0, replicate 56 0 @ ?t]"
      using t by (simp only: blocks_one [OF one]) (simp add: blocks_one)
    finally show ?thesis
      using tail False unfolding split by (simp only: if_False)
  qed
qed

lemma blocklen_le: "r < 64 \<Longrightarrow> 56 \<le> (word_of_nat r :: u32) \<longleftrightarrow> 56 \<le> r"
  by (simp add: word_le_nat_alt)

lemma length_be64 [simp]: "length (be64 n) = 8"
  by (simp add: be64_def)

lemma store_bitlen_append:
  assumes "length p = 56" "length t = 8"
  shows "store_bitlen n (p @ t) = p @ be64 n"
  using assms by (simp add: store_bitlen_eq)

lemma pad_state:
  assumes "absorbs s msg"
  shows "m_state (pad s) = words_of (foldl fips_block fips_H0 (blocks (fips_pad msg)))"
proof -
  define q r where "q = length msg div 64" and "r = length msg mod 64"
  have len: "length msg = 64 * q + r" and r: "r < 64"
    by (simp_all add: q_def r_def)
  from assms have s: "length (m_data s) = 64" "m_blocklen s = word_of_nat r"
      "m_bitlen s = word_of_nat (512 * q)" "take r (m_data s) = drop (64 * q) msg"
      "m_state s = words_of (foldl fips_block fips_H0 (blocks (take (64 * q) msg)))"
    by (simp_all add: absorbs_def q_def r_def Let_def)
  have fill: "zero_fill (Suc r) e ((m_data s)[r := 0x80]) =
      drop (64 * q) msg @ [0x80] @ replicate (e - Suc r) 0 @ drop e ((m_data s)[r := 0x80])"
    if "Suc r \<le> e" "e \<le> 64" for e
    using that s r by (simp add: zero_fill_eq take_update_snoc)
  have bits: "m_bitlen s + ucast (m_blocklen s * 8) = word_of_nat (8 * length msg)"
    using bitlen_sum [OF r, of q] by (simp add: s len)
  have rem: "length (drop (64 * q) msg) = r" by (simp add: len)
  let ?H = "foldl fips_block fips_H0 (blocks (take (64 * q) msg))" and ?n = "word_of_nat (8 * length msg) :: u64"
  show ?thesis
  proof (cases "r < 56")
    case True
    have "store_bitlen ?n (zero_fill (Suc r) 56 ((m_data s)[r := 0x80])) =
        drop (64 * q) msg @ [0x80] @ replicate (55 - r) 0 @ be64 ?n"
      using True fill [of 56] store_bitlen_append [of "drop (64 * q) msg @ [0x80] @ replicate (55 - r) 0"
          "drop 56 ((m_data s)[r := 0x80])" ?n] s(1) rem by simp
    with True have "m_state (pad s) =
        words_of (fips_block ?H (drop (64 * q) msg @ [0x80] @ replicate (55 - r) 0 @ be64 ?n))"
      using s r bits by (simp add: pad_def Let_def blocklen_less blocklen_le transform_block)
    with True show ?thesis
      by (simp add: fips_pad_blocks [OF len r])
  next
    case False
    have z: "zero_fill (Suc r) 64 ((m_data s)[r := 0x80]) = drop (64 * q) msg @ [0x80] @ replicate (63 - r) 0"
      using False fill [of 64] s(1) r by simp
    have "store_bitlen ?n (memset_zero 56 (drop (64 * q) msg @ [0x80] @ replicate (63 - r) 0)) =
        replicate 56 0 @ be64 ?n"
      using False rem r by (simp add: memset_zero_def store_bitlen_append)
    with False have "m_state (pad s) =
        words_of (fips_block (fips_block ?H (drop (64 * q) msg @ [0x80] @ replicate (63 - r) 0))
          (replicate 56 0 @ be64 ?n))"
      using s r bits z by (simp add: pad_def Let_def blocklen_less blocklen_le transform_block)
    with False show ?thesis
      by (simp add: fips_pad_blocks [OF len r])
  qed
qed

lemma length_words_of [simp]: "length (words_of H) = 8"
  by (rule hash_cases [of H]) simp

lemma digest_fips:
  assumes "absorbs s msg" "length hash = 32"
  shows "fst (digest hash s) = fips_sha256 msg"
  using assms pad_state [OF assms(1)] 
  by (simp add: digest_def Let_def revert_eq fips_sha256_def)

section \<open>The interface of a streaming hash\<close>

text \<open>
  What the callers of the class rely on: a fresh object, calls of \<open>update\<close>, then one
  \<open>digest\<close>. \<open>rep s msg\<close> relates an object to the bytes it was given so far.
\<close>

locale streaming_hash =
  fixes fresh :: "'s \<Rightarrow> bool"
    and upd :: "'s \<Rightarrow> 'b list \<Rightarrow> 's"
    and fin :: "'s \<Rightarrow> 'd"
    and rep :: "'s \<Rightarrow> 'b list \<Rightarrow> bool"
    and hash_of :: "'b list \<Rightarrow> 'd"
  assumes rep_fresh: "fresh s \<Longrightarrow> rep s []"
    and rep_upd: "rep s msg \<Longrightarrow> rep (upd s data) (msg @ data)"
    and fin_rep: "rep s msg \<Longrightarrow> fin s = hash_of msg"
begin

lemma rep_chunks: "rep s msg \<Longrightarrow> rep (foldl upd s chunks) (msg @ concat chunks)"
proof (induction chunks arbitrary: s msg)
  case (Cons c chunks)
  then have "rep (foldl upd (upd s c) chunks) ((msg @ c) @ concat chunks)"
    by (blast intro: rep_upd)
  then show ?case by simp
qed simp

lemma fin_chunks: "fresh s \<Longrightarrow> fin (foldl upd s chunks) = hash_of (concat chunks)"
  using rep_chunks [OF rep_fresh, of s chunks] fin_rep by simp

lemma chunking_irrelevant:
  "fresh s \<Longrightarrow> fresh s' \<Longrightarrow> concat chunks = concat chunks' \<Longrightarrow>
    fin (foldl upd s chunks) = fin (foldl upd s' chunks')"
  by (simp add: fin_chunks)

end

definition sha_fresh :: "sha256 \<Rightarrow> bool" where
  "sha_fresh s \<longleftrightarrow> length (m_data s) = 64 \<and> s = sha_new (m_data s)"

lemma sha_fresh_new [simp]: "sha_fresh (sha_new junk) \<longleftrightarrow> length junk = 64"
  by (auto simp: sha_fresh_def sha_new_def)

interpretation sha: streaming_hash sha_fresh sha_update "\<lambda>s. fst (digest (replicate 32 0) s)"
  absorbs fips_sha256
  by unfold_locales (auto simp: sha_fresh_def digest_fips intro: absorbs_update dest: absorbs_new)

text \<open>
  The three statements of the callers (\<open>update\<close>, \<open>digest\<close>, \<open>toString\<close>) on a new
  object. The uninitialised arrays start as zeros: the result does not depend on them.
\<close>

definition hash_hex :: "string \<Rightarrow> string" where
  "hash_hex data = to_hex_string (fst (digest (replicate 32 0)
     (sha_update_string (sha_new (replicate 64 0)) data)))"

lemma hash_hex_fips: "hash_hex data = to_hex_string (fips_sha256 (bytes_of_string data))"
  using sha.fin_chunks [of "sha_new (replicate 64 0)" "[bytes_of_string data]"]
  by (simp add: hash_hex_def sha_update_string_def)

end
