(* ===== verification/Proto.thy ===== *)
theory Proto
  imports Prelude
begin

text \<open>
  The messages of \<open>proto/element.proto\<close>, \<open>proto/action.proto\<close> and
  \<open>proto/packet.proto\<close> as the C++ code sees them: a record per message, a datatype per
  \<open>oneof\<close>. A singular message field is an option (it may be unset), and reading an unset
  field gives the default instance, as the generated accessors do. A \<open>float\<close> is its 32
  bits: the code stores and copies floats and never calculates with them.
\<close>

type_synonym float32 = u32

section \<open>element.proto\<close>

record pb_point =
  pb_x :: float32
  pb_y :: float32

definition default_point :: pb_point where
  "default_point = \<lparr>pb_x = 0, pb_y = 0\<rparr>"

text \<open>The accessor of a field of type \<open>Point\<close>.\<close>

definition point_of :: "pb_point option \<Rightarrow> pb_point" where
  "point_of p = (case p of None \<Rightarrow> default_point | Some q \<Rightarrow> q)"

lemma point_of_simps [simp]: "point_of (Some q) = q" "point_of None = default_point"
  by (simp_all add: point_of_def)

record pb_common =
  cm_id :: string
  cm_stroke_color :: string
  cm_user_id :: string

record pb_path =
  path_common :: "pb_common option"
  path_points :: "pb_point list"

record pb_line =
  line_common :: "pb_common option"
  line_start :: "pb_point option"
  line_end :: "pb_point option"

record pb_circle =
  circle_common :: "pb_common option"
  circle_center :: "pb_point option"
  circle_radius :: float32

record pb_triangle =
  triangle_common :: "pb_common option"
  triangle_point1 :: "pb_point option"
  triangle_point2 :: "pb_point option"
  triangle_point3 :: "pb_point option"

record pb_square =
  square_common :: "pb_common option"
  square_topleft :: "pb_point option"
  square_side_length :: float32

record pb_text =
  text_common :: "pb_common option"
  text_center :: "pb_point option"
  text_content :: string

record pb_comment =
  comment_user_id :: string
  comment_content :: string

record pb_picture =
  picture_common :: "pb_common option"
  picture_file_name :: string
  picture_center :: "pb_point option"
  picture_top_side_length :: float32
  picture_data :: string
  picture_comments :: "pb_comment list"

record pb_stickynote =
  note_common :: "pb_common option"
  note_center :: "pb_point option"
  note_side_length :: float32
  note_content :: string

datatype pb_element =
    ElementNotSet
  | ElementPath pb_path
  | ElementLine pb_line
  | ElementCircle pb_circle
  | ElementTriangle pb_triangle
  | ElementSquare pb_square
  | ElementText pb_text
  | ElementPicture pb_picture
  | ElementStickyNote pb_stickynote

section \<open>action.proto\<close>

record pb_session_request =
  rq_user_id :: u32
  rq_whiteboard_id :: string

record pb_add_request =
  add_user_id :: u32
  add_whiteboard_id :: string
  add_element :: "pb_element option"

record pb_modify_request =
  mod_user_id :: u32
  mod_whiteboard_id :: string
  mod_orig_element :: "pb_element option"
  mod_modi_element :: "pb_element option"

record pb_delete_request =
  del_user_id :: u32
  del_whiteboard_id :: string
  del_orig_element :: "pb_element option"

record pb_save_request =
  save_session_id :: u32
  save_file_format :: string
  save_file_path :: string

record pb_account_request =
  acc_username :: string
  acc_password_hash :: string

record pb_action_response =
  resp_success :: bool
  resp_message :: string

record pb_temp_id_response =
  temp_success :: bool
  temp_user_id :: u32

text \<open>\<open>CreateSessionRequest\<close>, \<open>JoinSessionRequest\<close> and \<open>QuitSessionRequest\<close> have the same
  two fields, \<open>RegisterRequest\<close> and \<open>LoginRequest\<close> too.\<close>

datatype pb_action =
    ActionNotSet
  | ActCreateWhiteBoard u32
  | ActCreateSession pb_session_request
  | ActJoinSession pb_session_request
  | ActQuitSession pb_session_request
  | ActAddElement pb_add_request
  | ActModifyElement pb_modify_request
  | ActDeleteElement pb_delete_request
  | ActSaveWhiteboard pb_save_request
  | ActRegister pb_account_request
  | ActLogin pb_account_request
  | ActActionResponse pb_action_response
  | ActBroadcast "pb_element list"
  | ActTempIdResponse pb_temp_id_response

text \<open>
  The accessors of the cases of the \<open>oneof\<close>: the message if the case is set, its default
  instance if it is not.
\<close>

fun createwhiteboard :: "pb_action \<Rightarrow> u32" where
  "createwhiteboard (ActCreateWhiteBoard uid) = uid"
| "createwhiteboard _ = 0"

definition default_session_request :: pb_session_request where
  "default_session_request = \<lparr>rq_user_id = 0, rq_whiteboard_id = []\<rparr>"

fun createsession :: "pb_action \<Rightarrow> pb_session_request" where
  "createsession (ActCreateSession r) = r"
| "createsession _ = default_session_request"

fun joinsession :: "pb_action \<Rightarrow> pb_session_request" where
  "joinsession (ActJoinSession r) = r"
| "joinsession _ = default_session_request"

fun quitsession :: "pb_action \<Rightarrow> pb_session_request" where
  "quitsession (ActQuitSession r) = r"
| "quitsession _ = default_session_request"

fun addelement :: "pb_action \<Rightarrow> pb_add_request" where
  "addelement (ActAddElement r) = r"
| "addelement _ = \<lparr>add_user_id = 0, add_whiteboard_id = [], add_element = None\<rparr>"

fun modifyelement :: "pb_action \<Rightarrow> pb_modify_request" where
  "modifyelement (ActModifyElement r) = r"
| "modifyelement _ =
     \<lparr>mod_user_id = 0, mod_whiteboard_id = [], mod_orig_element = None, mod_modi_element = None\<rparr>"

definition default_account_request :: pb_account_request where
  "default_account_request = \<lparr>acc_username = [], acc_password_hash = []\<rparr>"

fun registerrequest :: "pb_action \<Rightarrow> pb_account_request" where
  "registerrequest (ActRegister r) = r"
| "registerrequest _ = default_account_request"

fun loginrequest :: "pb_action \<Rightarrow> pb_account_request" where
  "loginrequest (ActLogin r) = r"
| "loginrequest _ = default_account_request"

fun actionresponse :: "pb_action \<Rightarrow> pb_action_response" where
  "actionresponse (ActActionResponse r) = r"
| "actionresponse _ = \<lparr>resp_success = False, resp_message = []\<rparr>"

fun broadcast_elements :: "pb_action \<Rightarrow> pb_element list" where
  "broadcast_elements (ActBroadcast es) = es"
| "broadcast_elements _ = []"

fun tempidresponse :: "pb_action \<Rightarrow> pb_temp_id_response" where
  "tempidresponse (ActTempIdResponse r) = r"
| "tempidresponse _ = \<lparr>temp_success = False, temp_user_id = 0\<rparr>"

text \<open>The accessor of a field of type \<open>Element\<close>.\<close>

definition element_of :: "pb_element option \<Rightarrow> pb_element" where
  "element_of e = (case e of None \<Rightarrow> ElementNotSet | Some x \<Rightarrow> x)"

lemma element_of_simps [simp]: "element_of (Some x) = x" "element_of None = ElementNotSet"
  by (simp_all add: element_of_def)

section \<open>packet.proto\<close>

record pb_packet =
  pk_version :: u32
  pk_type :: u32
  pk_id :: u32
  pk_action :: "pb_action option"

definition default_packet :: pb_packet where
  "default_packet = \<lparr>pk_version = 0, pk_type = 0, pk_id = 0, pk_action = None\<rparr>"

definition action_of :: "pb_packet \<Rightarrow> pb_action" where
  "action_of p = (case pk_action p of None \<Rightarrow> ActionNotSet | Some a \<Rightarrow> a)"

end
