(* ===== verification/Element.thy ===== *)
theory Element
  imports Proto
begin

text \<open>
  The class \<open>WhiteboardElements\<close> of \<open>src/base/element.hpp\<close> and \<open>src/base/element.cpp\<close>:
  one object that holds any kind of element, with a type tag and fields shared between
  the kinds; constructors-by-method (\<open>new_line\<close> and its kin), checked getters, and the
  conversions to and from the protobuf message. \<open>shape\<close> is what such an object stands for,
  and the theorems relate the operations to it.
\<close>

section \<open>The class\<close>

datatype element_type =
  Path | Line | Circle | Triangle | Square | Text | Picture | StickyNote | Null

fun casttype :: "element_type \<Rightarrow> nat" where
  "casttype Path = 0"
| "casttype Line = 1"
| "casttype Circle = 2"
| "casttype Triangle = 3"
| "casttype Square = 4"
| "casttype Text = 5"
| "casttype Picture = 6"
| "casttype StickyNote = 7"
| "casttype Null = 16"

definition WhiteboardElementsTypeDict :: "string list" where
  "WhiteboardElementsTypeDict =
     [''Path'', ''Line'', ''Circle'', ''Triangle'', ''Square'', ''Text'', ''Picture'', ''StickyNote'']"

text \<open>
  The exception of the getters, and the read past the end of the array of names that
  building its message is when the type is \<open>Null\<close> (16).
\<close>

datatype element_error = ElementsTypeUnmatch string | OutOfBounds nat

record point =
  pt_x :: float32
  pt_y :: float32

record elements =
  etype :: element_type
  pos1 :: point
  pos2 :: point
  pos3 :: point
  side1 :: float32
  points :: "point list"
  content :: string
  filename :: string

text \<open>
  A new object: the type has an initialiser and the strings and the vector have
  constructors; the points and the side keep what the memory \<open>mem\<close> held.
\<close>

definition new_elements :: "elements \<Rightarrow> elements" where
  "new_elements mem = mem\<lparr>etype := Null, points := [], content := [], filename := []\<rparr>"

definition type_unmatch :: "string \<Rightarrow> elements \<Rightarrow> element_error" where
  "type_unmatch msg e =
     (let i = casttype (etype e)
      in if i < length WhiteboardElementsTypeDict
         then ElementsTypeUnmatch (msg @ WhiteboardElementsTypeDict ! i)
         else OutOfBounds i)"

section \<open>Construction and access\<close>

definition new_path :: "point list \<Rightarrow> elements \<Rightarrow> elements" where
  "new_path ps e = e\<lparr>etype := Path, points := ps\<rparr>"

definition get_path_points :: "elements \<Rightarrow> element_error + point list" where
  "get_path_points e =
     (if etype e \<noteq> Path then Inl (type_unmatch ''Cannot [path_points] from type'' e)
      else Inr (points e))"

definition new_line :: "point \<Rightarrow> point \<Rightarrow> elements \<Rightarrow> elements" where
  "new_line p q e = e\<lparr>etype := Line, pos1 := p, pos2 := q\<rparr>"

definition get_line_start :: "elements \<Rightarrow> element_error + point" where
  "get_line_start e =
     (if etype e \<noteq> Line then Inl (type_unmatch ''Cannot [line_start] from type'' e)
      else Inr (pos1 e))"

definition get_line_end :: "elements \<Rightarrow> element_error + point" where
  "get_line_end e =
     (if etype e \<noteq> Line then Inl (type_unmatch ''Cannot [line_end] from type'' e)
      else Inr (pos2 e))"

definition new_circle :: "point \<Rightarrow> float32 \<Rightarrow> elements \<Rightarrow> elements" where
  "new_circle c r e = e\<lparr>etype := Circle, pos1 := c, side1 := r\<rparr>"

definition get_circle_center :: "elements \<Rightarrow> element_error + point" where
  "get_circle_center e =
     (if etype e \<noteq> Circle then Inl (type_unmatch ''Cannot [circle_center] from type'' e)
      else Inr (pos1 e))"

definition get_circle_radius :: "elements \<Rightarrow> element_error + float32" where
  "get_circle_radius e =
     (if etype e \<noteq> Circle then Inl (type_unmatch ''Cannot [circle_radius] from type'' e)
      else Inr (side1 e))"

definition new_triangle :: "point \<Rightarrow> point \<Rightarrow> point \<Rightarrow> elements \<Rightarrow> elements" where
  "new_triangle p q r e = e\<lparr>etype := Triangle, pos1 := p, pos2 := q, pos3 := r\<rparr>"

definition get_triangle_points :: "elements \<Rightarrow> element_error + point list" where
  "get_triangle_points e =
     (if etype e \<noteq> Triangle then Inl (type_unmatch ''Cannot [triangle_points] from type'' e)
      else Inr [pos1 e, pos2 e, pos3 e])"

definition new_square :: "point \<Rightarrow> float32 \<Rightarrow> elements \<Rightarrow> elements" where
  "new_square p l e = e\<lparr>etype := Square, pos1 := p, side1 := l\<rparr>"

text \<open>
  The overload with integer coordinates converts them to \<open>float\<close>, rounding to nearest,
  ties to even: \<open>n = q * 2 ^ s + r\<close> with \<open>q\<close> of at most 24 bits.
\<close>

fun ilog2 :: "nat \<Rightarrow> nat" where
  "ilog2 n = (if n < 2 then 0 else Suc (ilog2 (n div 2)))"

declare ilog2.simps [simp del]

definition float_of_u32 :: "u32 \<Rightarrow> float32" where
  "float_of_u32 w =
     (let n = unat w; e = ilog2 n
      in if n = 0 then 0
         else if e \<le> 23 then word_of_nat ((e + 126) * 2 ^ 23 + n * 2 ^ (23 - e))
         else (let s = e - 23; q = n div 2 ^ s; r = n mod 2 ^ s; half = 2 ^ (s - 1);
                   up = (if half < r \<or> (half = r \<and> odd q) then 1 else 0)
               in word_of_nat ((e + 126) * 2 ^ 23 + q + up)))"

definition new_square_xy :: "u32 \<Rightarrow> u32 \<Rightarrow> float32 \<Rightarrow> elements \<Rightarrow> elements" where
  "new_square_xy x y l e =
     e\<lparr>etype := Square, pos1 := \<lparr>pt_x = float_of_u32 x, pt_y = float_of_u32 y\<rparr>, side1 := l\<rparr>"

definition get_square_side_length :: "elements \<Rightarrow> element_error + float32" where
  "get_square_side_length e =
     (if etype e \<noteq> Square then Inl (type_unmatch ''Cannot [side_length] from type'' e)
      else Inr (side1 e))"

definition get_square_topleft :: "elements \<Rightarrow> element_error + point" where
  "get_square_topleft e =
     (if etype e \<noteq> Square then Inl (type_unmatch ''Cannot [topleft] from type'' e)
      else Inr (pos1 e))"

definition new_text :: "point \<Rightarrow> string \<Rightarrow> elements \<Rightarrow> elements" where
  "new_text c t e = e\<lparr>etype := Text, pos1 := c, content := t\<rparr>"

definition get_text_center :: "elements \<Rightarrow> element_error + point" where
  "get_text_center e =
     (if etype e \<noteq> Text then Inl (type_unmatch ''Cannot [center] from type'' e)
      else Inr (pos1 e))"

definition get_text_content :: "elements \<Rightarrow> element_error + string" where
  "get_text_content e =
     (if etype e \<noteq> Text then Inl (type_unmatch ''Cannot [content] from type'' e)
      else Inr (content e))"

definition new_stickynote :: "point \<Rightarrow> float32 \<Rightarrow> string \<Rightarrow> elements \<Rightarrow> elements" where
  "new_stickynote c l t e = e\<lparr>etype := StickyNote, pos1 := c, side1 := l, content := t\<rparr>"

definition get_stickynote_center :: "elements \<Rightarrow> element_error + point" where
  "get_stickynote_center e =
     (if etype e \<noteq> StickyNote then Inl (type_unmatch ''Cannot [center] from type'' e)
      else Inr (pos1 e))"

definition get_stickynote_side_length :: "elements \<Rightarrow> element_error + float32" where
  "get_stickynote_side_length e =
     (if etype e \<noteq> StickyNote then Inl (type_unmatch ''Cannot [side_length] from type'' e)
      else Inr (side1 e))"

definition get_stickynote_content :: "elements \<Rightarrow> element_error + string" where
  "get_stickynote_content e =
     (if etype e \<noteq> StickyNote then Inl (type_unmatch ''Cannot [content] from type'' e)
      else Inr (content e))"

definition new_picture :: "point \<Rightarrow> string \<Rightarrow> string \<Rightarrow> elements \<Rightarrow> elements" where
  "new_picture c t f e = e\<lparr>etype := Picture, pos1 := c, content := t, filename := f\<rparr>"

definition get_picture_center :: "elements \<Rightarrow> element_error + point" where
  "get_picture_center e =
     (if etype e \<noteq> Picture then Inl (type_unmatch ''Cannot [center] from type'' e)
      else Inr (pos1 e))"

definition get_picture_content :: "elements \<Rightarrow> element_error + string" where
  "get_picture_content e =
     (if etype e \<noteq> Picture then Inl (type_unmatch ''Cannot [content] from type'' e)
      else Inr (content e))"

definition get_picture_filename :: "elements \<Rightarrow> element_error + string" where
  "get_picture_filename e =
     (if etype e \<noteq> Picture then Inl (type_unmatch ''Cannot [content] from type'' e)
      else Inr (filename e))"

section \<open>Protobuf conversion\<close>

definition to_pb_point :: "point \<Rightarrow> pb_point" where
  "to_pb_point p = \<lparr>pb_x = pt_x p, pb_y = pt_y p\<rparr>"

definition from_pb_point :: "pb_point \<Rightarrow> point" where
  "from_pb_point p = \<lparr>pt_x = pb_x p, pt_y = pb_y p\<rparr>"

fun to_protobuf_case :: "element_type \<Rightarrow> elements \<Rightarrow> element_error + pb_element" where
  "to_protobuf_case Path e =
     sum_bind (get_path_points e) (\<lambda>ps.
     Inr (ElementPath \<lparr>path_common = None, path_points = map to_pb_point ps\<rparr>))"
| "to_protobuf_case Line e =
     sum_bind (get_line_start e) (\<lambda>start_point.
     sum_bind (get_line_end e) (\<lambda>end_point.
     Inr (ElementLine \<lparr>line_common = None, line_start = Some (to_pb_point start_point),
       line_end = Some (to_pb_point end_point)\<rparr>)))"
| "to_protobuf_case Circle e =
     sum_bind (get_circle_center e) (\<lambda>circle_center_point.
     sum_bind (get_circle_radius e) (\<lambda>radius.
     Inr (ElementCircle \<lparr>circle_common = None,
       circle_center = Some (to_pb_point circle_center_point), circle_radius = radius\<rparr>)))"
| "to_protobuf_case Triangle e =
     sum_bind (get_triangle_points e) (\<lambda>triangle_points.
     Inr (ElementTriangle \<lparr>triangle_common = None,
       triangle_point1 = Some (to_pb_point (triangle_points ! 0)),
       triangle_point2 = Some (to_pb_point (triangle_points ! 1)),
       triangle_point3 = Some (to_pb_point (triangle_points ! 2))\<rparr>))"
| "to_protobuf_case Square e =
     sum_bind (get_square_topleft e) (\<lambda>topleft.
     sum_bind (get_square_side_length e) (\<lambda>side_length.
     Inr (ElementSquare \<lparr>square_common = None, square_topleft = Some (to_pb_point topleft),
       square_side_length = side_length\<rparr>)))"
| "to_protobuf_case Text e =
     sum_bind (get_text_center e) (\<lambda>center.
     sum_bind (get_text_content e) (\<lambda>_.
     Inr (ElementText \<lparr>text_common = None, text_center = Some (to_pb_point center),
       text_content = content e\<rparr>)))"
| "to_protobuf_case Picture e =
     sum_bind (get_picture_center e) (\<lambda>pic_center.
     sum_bind (get_picture_content e) (\<lambda>pic_content.
     sum_bind (get_picture_filename e) (\<lambda>pic_filename.
     Inr (ElementPicture \<lparr>picture_common = None, picture_file_name = pic_filename,
       picture_center = Some (to_pb_point pic_center), picture_top_side_length = 0,
       picture_data = pic_content, picture_comments = []\<rparr>))))"
| "to_protobuf_case StickyNote e =
     sum_bind (get_stickynote_center e) (\<lambda>center.
     sum_bind (get_stickynote_side_length e) (\<lambda>side_length.
     sum_bind (get_stickynote_content e) (\<lambda>text.
     Inr (ElementStickyNote \<lparr>note_common = None, note_center = Some (to_pb_point center),
       note_side_length = side_length, note_content = text\<rparr>))))"
| "to_protobuf_case Null e = Inr ElementNotSet"

definition to_protobuf :: "elements \<Rightarrow> element_error + pb_element" where
  "to_protobuf e = to_protobuf_case (etype e) e"

text \<open>
  \<open>from_protobuf\<close> is a member function that builds a new object \<open>whiteboardElement\<close> (in
  memory \<open>mem\<close>) and returns it; the object it is called on, \<open>this\<close>, is only read, in the
  last argument of \<open>new_picture\<close>.
\<close>

definition from_protobuf :: "elements \<Rightarrow> elements \<Rightarrow> pb_element \<Rightarrow> elements" where
  "from_protobuf this mem ele =
     (let whiteboardElement = new_elements mem
      in case ele of
        ElementPath path \<Rightarrow>
          new_path (map from_pb_point (path_points path)) whiteboardElement
      | ElementLine line \<Rightarrow>
          new_line (from_pb_point (point_of (line_start line)))
            (from_pb_point (point_of (line_end line))) whiteboardElement
      | ElementCircle circle \<Rightarrow>
          new_circle (from_pb_point (point_of (circle_center circle))) (circle_radius circle)
            whiteboardElement
      | ElementTriangle triangle \<Rightarrow>
          new_triangle (from_pb_point (point_of (triangle_point1 triangle)))
            (from_pb_point (point_of (triangle_point2 triangle)))
            (from_pb_point (point_of (triangle_point3 triangle))) whiteboardElement
      | ElementSquare square \<Rightarrow>
          new_square (from_pb_point (point_of (square_topleft square))) (square_side_length square)
            whiteboardElement
      | ElementText text \<Rightarrow>
          new_text (from_pb_point (point_of (text_center text))) (text_content text) whiteboardElement
      | ElementStickyNote note \<Rightarrow>
          new_stickynote (from_pb_point (point_of (note_center note))) (note_side_length note)
            (note_content note) whiteboardElement
      | ElementPicture pic \<Rightarrow>
          new_picture (from_pb_point (point_of (picture_center pic))) (picture_data pic)
            (filename this) whiteboardElement
      | ElementNotSet \<Rightarrow> whiteboardElement)"

section \<open>What an object stands for\<close>

datatype shape =
    SPath "point list"
  | SLine point point
  | SCircle point float32
  | STriangle point point point
  | SSquare point float32
  | SText point string
  | SPicture point string string
  | SStickyNote point float32 string
  | SNull

definition shape_of :: "elements \<Rightarrow> shape" where
  "shape_of e = (case etype e of
      Path \<Rightarrow> SPath (points e)
    | Line \<Rightarrow> SLine (pos1 e) (pos2 e)
    | Circle \<Rightarrow> SCircle (pos1 e) (side1 e)
    | Triangle \<Rightarrow> STriangle (pos1 e) (pos2 e) (pos3 e)
    | Square \<Rightarrow> SSquare (pos1 e) (side1 e)
    | Text \<Rightarrow> SText (pos1 e) (content e)
    | Picture \<Rightarrow> SPicture (pos1 e) (content e) (filename e)
    | StickyNote \<Rightarrow> SStickyNote (pos1 e) (side1 e) (content e)
    | Null \<Rightarrow> SNull)"

text \<open>The message of a shape, and the shape of a message, as a reader of the message sees it.\<close>

fun pb_of_shape :: "shape \<Rightarrow> pb_element" where
  "pb_of_shape (SPath ps) = ElementPath \<lparr>path_common = None, path_points = map to_pb_point ps\<rparr>"
| "pb_of_shape (SLine p q) = ElementLine \<lparr>line_common = None,
     line_start = Some (to_pb_point p), line_end = Some (to_pb_point q)\<rparr>"
| "pb_of_shape (SCircle c r) = ElementCircle \<lparr>circle_common = None,
     circle_center = Some (to_pb_point c), circle_radius = r\<rparr>"
| "pb_of_shape (STriangle p q r) = ElementTriangle \<lparr>triangle_common = None,
     triangle_point1 = Some (to_pb_point p), triangle_point2 = Some (to_pb_point q),
     triangle_point3 = Some (to_pb_point r)\<rparr>"
| "pb_of_shape (SSquare p l) = ElementSquare \<lparr>square_common = None,
     square_topleft = Some (to_pb_point p), square_side_length = l\<rparr>"
| "pb_of_shape (SText c t) = ElementText \<lparr>text_common = None,
     text_center = Some (to_pb_point c), text_content = t\<rparr>"
| "pb_of_shape (SPicture c t f) = ElementPicture \<lparr>picture_common = None,
     picture_file_name = f, picture_center = Some (to_pb_point c), picture_top_side_length = 0,
     picture_data = t, picture_comments = []\<rparr>"
| "pb_of_shape (SStickyNote c l t) = ElementStickyNote \<lparr>note_common = None,
     note_center = Some (to_pb_point c), note_side_length = l, note_content = t\<rparr>"
| "pb_of_shape SNull = ElementNotSet"

fun shape_of_pb :: "pb_element \<Rightarrow> shape" where
  "shape_of_pb (ElementPath m) = SPath (map from_pb_point (path_points m))"
| "shape_of_pb (ElementLine m) =
     SLine (from_pb_point (point_of (line_start m))) (from_pb_point (point_of (line_end m)))"
| "shape_of_pb (ElementCircle m) =
     SCircle (from_pb_point (point_of (circle_center m))) (circle_radius m)"
| "shape_of_pb (ElementTriangle m) = STriangle (from_pb_point (point_of (triangle_point1 m)))
     (from_pb_point (point_of (triangle_point2 m))) (from_pb_point (point_of (triangle_point3 m)))"
| "shape_of_pb (ElementSquare m) =
     SSquare (from_pb_point (point_of (square_topleft m))) (square_side_length m)"
| "shape_of_pb (ElementText m) = SText (from_pb_point (point_of (text_center m))) (text_content m)"
| "shape_of_pb (ElementPicture m) =
     SPicture (from_pb_point (point_of (picture_center m))) (picture_data m) (picture_file_name m)"
| "shape_of_pb (ElementStickyNote m) = SStickyNote (from_pb_point (point_of (note_center m)))
     (note_side_length m) (note_content m)"
| "shape_of_pb ElementNotSet = SNull"

text \<open>What \<open>from_protobuf\<close> does to a shape: a picture gets the file name of \<open>this\<close>.\<close>

fun forget_filename :: "string \<Rightarrow> shape \<Rightarrow> shape" where
  "forget_filename f (SPicture c t _) = SPicture c t f"
| "forget_filename f s = s"

lemma point_round_trip [simp]: "from_pb_point (to_pb_point p) = p" "to_pb_point (from_pb_point q) = q"
  by (simp_all add: from_pb_point_def to_pb_point_def)

lemmas getter_defs = get_path_points_def get_line_start_def get_line_end_def
  get_circle_center_def get_circle_radius_def get_triangle_points_def
  get_square_topleft_def get_square_side_length_def get_text_center_def get_text_content_def
  get_picture_center_def get_picture_content_def get_picture_filename_def
  get_stickynote_center_def get_stickynote_side_length_def get_stickynote_content_def

lemmas constructor_defs = new_path_def new_line_def new_circle_def new_triangle_def new_square_def
  new_square_xy_def new_text_def new_picture_def new_stickynote_def new_elements_def

lemma shape_of_pb_of_shape [simp]: "shape_of_pb (pb_of_shape s) = s"
  by (cases s) (simp_all add: comp_def)

lemma to_protobuf_shape: "to_protobuf e = Inr (pb_of_shape (shape_of e))"
  by (cases "etype e") (simp_all add: to_protobuf_def getter_defs shape_of_def)

lemma from_protobuf_shape:
  "shape_of (from_protobuf this mem ele) = forget_filename (filename this) (shape_of_pb ele)"
  by (cases ele) (simp_all add: from_protobuf_def constructor_defs shape_of_def)

section \<open>The interface of a codec\<close>

text \<open>
  Encoding an object as a message and decoding it, up to what the object stands for:
  \<open>norm\<close> is what a trip through the codec does to the abstract value.
\<close>

locale codec =
  fixes enc :: "'a \<Rightarrow> 'e + 'm"
    and dec :: "'m \<Rightarrow> 'a"
    and abs :: "'a \<Rightarrow> 'v"
    and msg :: "'v \<Rightarrow> 'm"
    and val :: "'m \<Rightarrow> 'v"
    and norm :: "'v \<Rightarrow> 'v"
  assumes enc_abs: "enc a = Inr (msg (abs a))"
    and dec_abs: "abs (dec m) = norm (val m)"
    and val_msg: "val (msg v) = v"
begin

lemma round_trip: "\<exists>m. enc a = Inr m \<and> abs (dec m) = norm (abs a)"
  by (simp add: enc_abs dec_abs val_msg)

lemma enc_injective: "enc a = enc b \<Longrightarrow> abs a = abs b"
  by (simp add: enc_abs) (metis val_msg)

lemma re_encode: "enc (dec m) = Inr (msg (norm (val m)))"
  by (simp add: enc_abs dec_abs)

end

interpretation element_codec: codec to_protobuf "from_protobuf this mem" shape_of pb_of_shape
    shape_of_pb "forget_filename (filename this)" for this mem
  by unfold_locales (simp_all add: to_protobuf_shape from_protobuf_shape)

section \<open>Properties\<close>

text \<open>
  C7: converting an element to its protobuf message never fails, and converting the
  message back gives an object with the same type and the same geometry and text; the one
  exception is a picture, which comes back with the file name of the object the
  conversion is called on instead of its own.
\<close>

theorem element_round_trip:
  "\<exists>m. to_protobuf e = Inr m \<and>
       shape_of (from_protobuf this mem m) =
         (case shape_of e of SPicture c t f \<Rightarrow> SPicture c t (filename this) | s \<Rightarrow> s)"
  using element_codec.round_trip [of e this mem] by (cases "shape_of e") auto

text \<open>
  Every getter returns the field it names when the object holds an element of that
  kind; on any other kind it throws ElementsTypeUnmatch, except on an empty element,
  where building the message of the exception reads past the end of the array of type
  names.
\<close>

theorem getters_follow_shape:
  "get_path_points e = (case shape_of e of SPath ps \<Rightarrow> Inr ps
      | _ \<Rightarrow> Inl (type_unmatch ''Cannot [path_points] from type'' e)) \<and>
   get_line_start e = (case shape_of e of SLine p q \<Rightarrow> Inr p
      | _ \<Rightarrow> Inl (type_unmatch ''Cannot [line_start] from type'' e)) \<and>
   get_line_end e = (case shape_of e of SLine p q \<Rightarrow> Inr q
      | _ \<Rightarrow> Inl (type_unmatch ''Cannot [line_end] from type'' e)) \<and>
   get_circle_center e = (case shape_of e of SCircle c r \<Rightarrow> Inr c
      | _ \<Rightarrow> Inl (type_unmatch ''Cannot [circle_center] from type'' e)) \<and>
   get_circle_radius e = (case shape_of e of SCircle c r \<Rightarrow> Inr r
      | _ \<Rightarrow> Inl (type_unmatch ''Cannot [circle_radius] from type'' e)) \<and>
   get_triangle_points e = (case shape_of e of STriangle p q r \<Rightarrow> Inr [p, q, r]
      | _ \<Rightarrow> Inl (type_unmatch ''Cannot [triangle_points] from type'' e)) \<and>
   get_square_side_length e = (case shape_of e of SSquare p l \<Rightarrow> Inr l
      | _ \<Rightarrow> Inl (type_unmatch ''Cannot [side_length] from type'' e)) \<and>
   get_square_topleft e = (case shape_of e of SSquare p l \<Rightarrow> Inr p
      | _ \<Rightarrow> Inl (type_unmatch ''Cannot [topleft] from type'' e)) \<and>
   get_text_center e = (case shape_of e of SText c t \<Rightarrow> Inr c
      | _ \<Rightarrow> Inl (type_unmatch ''Cannot [center] from type'' e)) \<and>
   get_text_content e = (case shape_of e of SText c t \<Rightarrow> Inr t
      | _ \<Rightarrow> Inl (type_unmatch ''Cannot [content] from type'' e)) \<and>
   get_stickynote_center e = (case shape_of e of SStickyNote c l t \<Rightarrow> Inr c
      | _ \<Rightarrow> Inl (type_unmatch ''Cannot [center] from type'' e)) \<and>
   get_stickynote_side_length e = (case shape_of e of SStickyNote c l t \<Rightarrow> Inr l
      | _ \<Rightarrow> Inl (type_unmatch ''Cannot [side_length] from type'' e)) \<and>
   get_stickynote_content e = (case shape_of e of SStickyNote c l t \<Rightarrow> Inr t
      | _ \<Rightarrow> Inl (type_unmatch ''Cannot [content] from type'' e)) \<and>
   get_picture_center e = (case shape_of e of SPicture c t f \<Rightarrow> Inr c
      | _ \<Rightarrow> Inl (type_unmatch ''Cannot [center] from type'' e)) \<and>
   get_picture_content e = (case shape_of e of SPicture c t f \<Rightarrow> Inr t
      | _ \<Rightarrow> Inl (type_unmatch ''Cannot [content] from type'' e)) \<and>
   get_picture_filename e = (case shape_of e of SPicture c t f \<Rightarrow> Inr f
      | _ \<Rightarrow> Inl (type_unmatch ''Cannot [content] from type'' e)) \<and>
   ((\<exists>i. type_unmatch msg e = OutOfBounds i) \<longleftrightarrow> shape_of e = SNull)"
  by (cases "etype e") (simp_all add: getter_defs shape_of_def type_unmatch_def
      WhiteboardElementsTypeDict_def)

end
