(* ===== verification/Packet.thy ===== *)
theory Packet
  imports Element
begin

text \<open>
  The class \<open>WhiteboardPacket\<close> of \<open>src/base/packet.hpp\<close>, \<open>packet.cpp\<close>,
  \<open>packet_client.cpp\<close> and \<open>packet_server.cpp\<close>: the packet types, the methods that fill a
  packet, the conversion of a received message, and the framing on the wire (length,
  message, newline). The protobuf library is a parameter (\<open>pb_runtime\<close>) and what is used
  of its documented behaviour are the predicates \<open>framing_laws\<close> and \<open>transmits\<close>.
\<close>

section \<open>Packet types\<close>

datatype packet_type =
    T_createWhiteboard | T_createSession | T_joinSession | T_quitSession | T_addElement
  | T_modifyElement | T_deleteElement | T_saveWhiteboard | T_registerRequest | T_loginRequest
  | T_actionResponse | T_broadcast | T_tempIdResponse

fun type_code :: "packet_type \<Rightarrow> u32" where
  "type_code T_createWhiteboard = 1"
| "type_code T_createSession = 2"
| "type_code T_joinSession = 3"
| "type_code T_quitSession = 4"
| "type_code T_addElement = 5"
| "type_code T_modifyElement = 6"
| "type_code T_deleteElement = 7"
| "type_code T_saveWhiteboard = 8"
| "type_code T_registerRequest = 9"
| "type_code T_loginRequest = 10"
| "type_code T_actionResponse = 11"
| "type_code T_broadcast = 12"
| "type_code T_tempIdResponse = 13"

text \<open>
  \<open>static_cast\<close> to the enum keeps any 32-bit value; the enumerator it equals, if any, is
  what a \<open>switch\<close> selects on.
\<close>

definition all_packet_types :: "packet_type list" where
  "all_packet_types = [T_createWhiteboard, T_createSession, T_joinSession, T_quitSession,
     T_addElement, T_modifyElement, T_deleteElement, T_saveWhiteboard, T_registerRequest,
     T_loginRequest, T_actionResponse, T_broadcast, T_tempIdResponse]"

definition type_of_code :: "u32 \<Rightarrow> packet_type option" where
  "type_of_code c = find (\<lambda>t. type_code t = c) all_packet_types"

lemma type_of_code_inverse [simp]: "type_of_code (type_code t) = Some t"
  by (cases t) (simp_all add: type_of_code_def all_packet_types_def)

lemma type_of_code_SomeD: "type_of_code c = Some t \<Longrightarrow> c = type_code t"
  by (auto simp: type_of_code_def find_Some_iff)

lemma type_of_code_numerals [simp]:
  "type_of_code 0 = None"
  "type_of_code 1 = Some T_createWhiteboard"
  "type_of_code 2 = Some T_createSession"
  "type_of_code 3 = Some T_joinSession"
  "type_of_code 4 = Some T_quitSession"
  "type_of_code 5 = Some T_addElement"
  "type_of_code 6 = Some T_modifyElement"
  "type_of_code 7 = Some T_deleteElement"
  "type_of_code 8 = Some T_saveWhiteboard"
  "type_of_code 9 = Some T_registerRequest"
  "type_of_code 10 = Some T_loginRequest"
  "type_of_code 11 = Some T_actionResponse"
  "type_of_code 12 = Some T_broadcast"
  "type_of_code 13 = Some T_tempIdResponse"
  by (simp_all add: type_of_code_def all_packet_types_def)

definition packet_action_name :: "string list" where
  "packet_action_name = [[], ''CreateWhiteBoardRequest'', ''CreateSessionRequest'',
     ''JoinSessionRequest'', ''QuitSessionRequest'', ''AddElementRequest'',
     ''ModifyElementRequest'', ''DeleteElement'', ''SaveWhiteboardRequest'',
     ''registerRequest'', ''loginRequest'', ''ActionResponse'', ''BroadCast'',
     ''TempIDResponse'']"

section \<open>The class\<close>

record wb_packet =
  wp_version :: u32
  wp_type :: u32
  wp_packet_id :: u32
  wp_packet :: pb_packet

definition new_wb_packet :: "u32 \<Rightarrow> packet_type \<Rightarrow> u32 \<Rightarrow> wb_packet" where
  "new_wb_packet ver t i =
     \<lparr>wp_version = ver, wp_type = type_code t, wp_packet_id = i, wp_packet = default_packet\<rparr>"

text \<open>
  The constructors from a message. Both read \<open>packet.packet_type()\<close> before the message is
  moved into \<open>packet\<close>, and both overwrite the message's id with the member \<open>packet_id\<close>, which
  has no initialiser: \<open>ver\<close> and \<open>i\<close> are what the memory of the members held. The first
  overload swaps, so it also returns what is left in its argument.
\<close>

definition packet_of_ref :: "u32 \<Rightarrow> u32 \<Rightarrow> pb_packet \<Rightarrow> wb_packet \<times> pb_packet" where
  "packet_of_ref ver i p =
     (let w = \<lparr>wp_version = ver, wp_type = pk_type default_packet, wp_packet_id = i,
               wp_packet = p\<rparr>
      in (w\<lparr>wp_packet := (wp_packet w)\<lparr>pk_id := wp_packet_id w\<rparr>\<rparr>, default_packet))"

definition packet_of_const :: "u32 \<Rightarrow> u32 \<Rightarrow> pb_packet \<Rightarrow> wb_packet" where
  "packet_of_const ver i p =
     (let w = \<lparr>wp_version = ver, wp_type = pk_type default_packet, wp_packet_id = i,
               wp_packet = p\<rparr>
      in w\<lparr>wp_packet := (wp_packet w)\<lparr>pk_id := wp_packet_id w\<rparr>\<rparr>)"

definition get_packet_id :: "wb_packet \<Rightarrow> u32" where
  "get_packet_id w = wp_packet_id w"

definition get_packet_type :: "wb_packet \<Rightarrow> u32" where
  "get_packet_type w = wp_type w"

text \<open>A read past the end of \<open>packet_action_name\<close> is \<open>None\<close>.\<close>

definition action_name_at :: "u32 \<Rightarrow> string option" where
  "action_name_at c =
     (if unat c < length packet_action_name then Some (packet_action_name ! unat c) else None)"

definition get_packet_type_name :: "wb_packet \<Rightarrow> string option" where
  "get_packet_type_name w = action_name_at (wp_type w)"

definition print_packet :: "wb_packet \<Rightarrow> string option" where
  "print_packet w = (case action_name_at (pk_type (wp_packet w)) of
      None \<Rightarrow> None
    | Some name \<Rightarrow> Some (''----------------------------------'' @ [CHR 0x0A] @
        ''   Packet type '' @ name @ [CHR 0x0A] @
        ''----------------------------------'' @ [CHR 0x0A]))"

section \<open>Filling a packet\<close>

text \<open>The chain of \<open>has_...\<close> tests of \<open>new_packet\<close>; \<open>None\<close> is its last \<open>else\<close>.\<close>

fun action_type :: "pb_action \<Rightarrow> packet_type option" where
  "action_type (ActCreateWhiteBoard _) = Some T_createWhiteboard"
| "action_type (ActCreateSession _) = Some T_createSession"
| "action_type (ActJoinSession _) = Some T_joinSession"
| "action_type (ActQuitSession _) = Some T_quitSession"
| "action_type (ActAddElement _) = Some T_addElement"
| "action_type (ActModifyElement _) = Some T_modifyElement"
| "action_type (ActDeleteElement _) = Some T_deleteElement"
| "action_type (ActSaveWhiteboard _) = Some T_saveWhiteboard"
| "action_type (ActLogin _) = Some T_loginRequest"
| "action_type (ActRegister _) = Some T_registerRequest"
| "action_type (ActActionResponse _) = Some T_actionResponse"
| "action_type (ActBroadcast _) = Some T_broadcast"
| "action_type (ActTempIdResponse _) = Some T_tempIdResponse"
| "action_type ActionNotSet = None"

definition new_packet :: "pb_action \<Rightarrow> wb_packet \<Rightarrow> wb_packet" where
  "new_packet a w =
     (let p = (wp_packet w)\<lparr>pk_version := wp_version w, pk_id := wp_packet_id w,
                pk_action := Some a\<rparr>
      in w\<lparr>wp_packet := (case action_type a of
             Some t \<Rightarrow> p\<lparr>pk_type := type_code t\<rparr>
           | None \<Rightarrow> p)\<rparr>)"

subsection \<open>Client packets\<close>

definition new_create_whiteboard_request :: "u32 \<Rightarrow> wb_packet \<Rightarrow> wb_packet" where
  "new_create_whiteboard_request uid = new_packet (ActCreateWhiteBoard uid)"

definition new_create_session_request :: "u32 \<Rightarrow> string \<Rightarrow> wb_packet \<Rightarrow> wb_packet" where
  "new_create_session_request uid wid =
     new_packet (ActCreateSession \<lparr>rq_user_id = uid, rq_whiteboard_id = wid\<rparr>)"

definition new_join_session_request :: "u32 \<Rightarrow> string \<Rightarrow> wb_packet \<Rightarrow> wb_packet" where
  "new_join_session_request uid wid =
     new_packet (ActJoinSession \<lparr>rq_user_id = uid, rq_whiteboard_id = wid\<rparr>)"

definition new_quit_session_request :: "u32 \<Rightarrow> string \<Rightarrow> wb_packet \<Rightarrow> wb_packet" where
  "new_quit_session_request uid wid =
     new_packet (ActQuitSession \<lparr>rq_user_id = uid, rq_whiteboard_id = wid\<rparr>)"

definition new_add_element_request ::
  "u32 \<Rightarrow> string \<Rightarrow> elements \<Rightarrow> wb_packet \<Rightarrow> element_error + wb_packet" where
  "new_add_element_request uid wid ele w =
     sum_bind (to_protobuf ele) (\<lambda>proto_element.
     Inr (new_packet (ActAddElement \<lparr>add_user_id = uid, add_whiteboard_id = wid,
       add_element = Some proto_element\<rparr>) w))"

definition new_modify_element_request ::
  "u32 \<Rightarrow> string \<Rightarrow> elements \<Rightarrow> elements \<Rightarrow> wb_packet \<Rightarrow> element_error + wb_packet" where
  "new_modify_element_request uid wid orig modi w =
     sum_bind (to_protobuf orig) (\<lambda>orig_proto_element.
     sum_bind (to_protobuf modi) (\<lambda>modi_proto_element.
     Inr (new_packet (ActModifyElement \<lparr>mod_user_id = uid, mod_whiteboard_id = wid,
       mod_orig_element = Some orig_proto_element,
       mod_modi_element = Some modi_proto_element\<rparr>) w)))"

definition new_delete_element_request ::
  "u32 \<Rightarrow> string \<Rightarrow> elements \<Rightarrow> wb_packet \<Rightarrow> element_error + wb_packet" where
  "new_delete_element_request uid wid ele w =
     sum_bind (to_protobuf ele) (\<lambda>proto_element.
     Inr (new_packet (ActDeleteElement \<lparr>del_user_id = uid, del_whiteboard_id = wid,
       del_orig_element = Some proto_element\<rparr>) w))"

definition new_login_request :: "string \<Rightarrow> string \<Rightarrow> wb_packet \<Rightarrow> wb_packet" where
  "new_login_request user pwhash =
     new_packet (ActLogin \<lparr>acc_username = user, acc_password_hash = pwhash\<rparr>)"

definition new_register_request :: "string \<Rightarrow> string \<Rightarrow> wb_packet \<Rightarrow> wb_packet" where
  "new_register_request user pwhash =
     new_packet (ActRegister \<lparr>acc_username = user, acc_password_hash = pwhash\<rparr>)"

subsection \<open>Server packets\<close>

definition new_temp_id_response :: "bool \<Rightarrow> u32 \<Rightarrow> wb_packet \<Rightarrow> wb_packet" where
  "new_temp_id_response success uid =
     new_packet (ActTempIdResponse \<lparr>temp_success = success, temp_user_id = uid\<rparr>)"

definition new_action_response :: "bool \<Rightarrow> string \<Rightarrow> wb_packet \<Rightarrow> wb_packet" where
  "new_action_response success msg =
     new_packet (ActActionResponse \<lparr>resp_success = success, resp_message = msg\<rparr>)"

definition new_broadcast :: "pb_element list \<Rightarrow> wb_packet \<Rightarrow> wb_packet" where
  "new_broadcast eles = new_packet (ActBroadcast (foldl (\<lambda>sent ele. sent @ [ele]) [] eles))"

section \<open>The wire\<close>

text \<open>
  The protobuf library: serialising a packet (success and bytes), parsing one (success and
  the message as the parser leaves it), varints, reading raw bytes, and the string form of
  an element. Reading \<open>n\<close> raw bytes gives whether there were enough of them, and the \<open>n\<close>
  bytes of the destination.
\<close>

record pb_runtime =
  ser_packet :: "pb_packet \<Rightarrow> bool \<times> u8 list"
  parse_packet_bytes :: "u8 list \<Rightarrow> bool \<times> pb_packet"
  write_varint32 :: "u32 \<Rightarrow> u8 list"
  read_varint32 :: "u8 list \<Rightarrow> (u32 \<times> u8 list) option"
  read_raw :: "u32 \<Rightarrow> u8 list \<Rightarrow> bool \<times> u8 list"
  ser_element :: "pb_element \<Rightarrow> string"
  parse_element :: "string \<Rightarrow> pb_element"

definition byte_size :: "pb_runtime \<Rightarrow> wb_packet \<Rightarrow> nat" where
  "byte_size rt w = length (snd (ser_packet rt (wp_packet w)))"

definition serialize_ostream :: "pb_runtime \<Rightarrow> wb_packet \<Rightarrow> u8 list" where
  "serialize_ostream rt w = snd (ser_packet rt (wp_packet w))"

definition serialize_coded :: "pb_runtime \<Rightarrow> wb_packet \<Rightarrow> u8 list" where
  "serialize_coded rt w =
     write_varint32 rt (word_of_nat (byte_size rt w)) @ snd (ser_packet rt (wp_packet w)) @ [10]"

definition serialize_string :: "pb_runtime \<Rightarrow> wb_packet \<Rightarrow> u8 list" where
  "serialize_string rt w =
     (case ser_packet rt (wp_packet w) of (ok, bytes) \<Rightarrow> if \<not> ok then [] else bytes)"

text \<open>
  \<open>parse_packet\<close> (the server's and the client's are the same code) on the content of the
  read buffer. When the length cannot be read, \<open>junk\<close> is what the uninitialised length and
  the stream then hold. The outcomes of \<open>ReadRaw\<close> and \<open>ParseFromString\<close> are only printed.
\<close>

definition parse_packet :: "pb_runtime \<Rightarrow> u32 \<times> u8 list \<Rightarrow> u8 list \<Rightarrow> pb_packet" where
  "parse_packet rt junk buffer =
     (let (messageSize, rest) =
            (case read_varint32 rt buffer of Some r \<Rightarrow> r | None \<Rightarrow> junk);
          (_, serializedData) = read_raw rt messageSize rest;
          (_, packet) = parse_packet_bytes rt serializedData
      in packet)"

text \<open>
  What \<open>read_until\<close> gives: the end of the stream, an error, or a buffer with the bytes up to
  a newline and whatever else has arrived.
\<close>

datatype read_result = Read_eof | Read_error | Read_ok "u8 list"

text \<open>Documented behaviour of the coded streams, and of a message that survives the trip.\<close>

definition framing_laws :: "pb_runtime \<Rightarrow> bool" where
  "framing_laws rt \<longleftrightarrow>
     (\<forall>n rest. read_varint32 rt (write_varint32 rt n @ rest) = Some (n, rest)) \<and>
     (\<forall>n bytes rest. length bytes = unat n \<longrightarrow> read_raw rt n (bytes @ rest) = (True, bytes))"

definition transmits :: "pb_runtime \<Rightarrow> pb_packet \<Rightarrow> bool" where
  "transmits rt p \<longleftrightarrow> (case ser_packet rt p of (ok, bytes) \<Rightarrow>
     ok \<and> length bytes < 2 ^ 32 \<and> parse_packet_bytes rt bytes = (True, p))"

section \<open>Properties\<close>

text \<open>A packet whose type field says which case of the action is set.\<close>

definition consistent :: "pb_packet \<Rightarrow> bool" where
  "consistent p \<longleftrightarrow> action_type (action_of p) \<noteq> None \<and>
     type_of_code (pk_type p) = action_type (action_of p)"

lemma new_packet_fields [simp]:
  "wp_version (new_packet a w) = wp_version w"
  "wp_type (new_packet a w) = wp_type w"
  "wp_packet_id (new_packet a w) = wp_packet_id w"
  "pk_version (wp_packet (new_packet a w)) = wp_version w"
  "pk_id (wp_packet (new_packet a w)) = wp_packet_id w"
  "action_of (wp_packet (new_packet a w)) = a"
  by (simp_all add: new_packet_def action_of_def Let_def split: option.split)

lemma pk_type_new_packet:
  "action_type a = Some t \<Longrightarrow> pk_type (wp_packet (new_packet a w)) = type_code t"
  by (simp add: new_packet_def Let_def)

lemma consistent_new_packet: "a \<noteq> ActionNotSet \<Longrightarrow> consistent (wp_packet (new_packet a w))"
  by (cases a) (simp_all add: consistent_def pk_type_new_packet)

lemmas builder_defs = new_create_whiteboard_request_def new_create_session_request_def
  new_join_session_request_def new_quit_session_request_def new_add_element_request_def
  new_modify_element_request_def new_delete_element_request_def new_login_request_def
  new_register_request_def new_temp_id_response_def new_action_response_def new_broadcast_def

text \<open>What filling a packet object with an action amounts to.\<close>

definition sealed :: "packet_type \<Rightarrow> pb_action \<Rightarrow> wb_packet \<Rightarrow> wb_packet" where
  "sealed t a w = w\<lparr>wp_packet := \<lparr>pk_version = wp_version w, pk_type = type_code t,
     pk_id = wp_packet_id w, pk_action = Some a\<rparr>\<rparr>"

lemma new_packet_sealed: "action_type a = Some t \<Longrightarrow> new_packet a w = sealed t a w"
  by (cases "wp_packet w") (simp add: new_packet_def sealed_def Let_def)

text \<open>
  Every method that fills a packet writes the version and the id the packet object was
  made with, the request or response with exactly the given fields, and the packet type
  that belongs to it; the element requests never fail and carry the shape of their elements.
\<close>

theorem builders_seal:
  "new_create_whiteboard_request uid w = sealed T_createWhiteboard (ActCreateWhiteBoard uid) w \<and>
   new_create_session_request uid wid w =
     sealed T_createSession (ActCreateSession \<lparr>rq_user_id = uid, rq_whiteboard_id = wid\<rparr>) w \<and>
   new_join_session_request uid wid w =
     sealed T_joinSession (ActJoinSession \<lparr>rq_user_id = uid, rq_whiteboard_id = wid\<rparr>) w \<and>
   new_quit_session_request uid wid w =
     sealed T_quitSession (ActQuitSession \<lparr>rq_user_id = uid, rq_whiteboard_id = wid\<rparr>) w \<and>
   new_add_element_request uid wid e w = Inr (sealed T_addElement (ActAddElement
     \<lparr>add_user_id = uid, add_whiteboard_id = wid, add_element = Some (pb_of_shape (shape_of e))\<rparr>) w) \<and>
   new_modify_element_request uid wid e e' w = Inr (sealed T_modifyElement (ActModifyElement
     \<lparr>mod_user_id = uid, mod_whiteboard_id = wid, mod_orig_element = Some (pb_of_shape (shape_of e)),
      mod_modi_element = Some (pb_of_shape (shape_of e'))\<rparr>) w) \<and>
   new_delete_element_request uid wid e w = Inr (sealed T_deleteElement (ActDeleteElement
     \<lparr>del_user_id = uid, del_whiteboard_id = wid,
      del_orig_element = Some (pb_of_shape (shape_of e))\<rparr>) w) \<and>
   new_login_request user pwhash w =
     sealed T_loginRequest (ActLogin \<lparr>acc_username = user, acc_password_hash = pwhash\<rparr>) w \<and>
   new_register_request user pwhash w =
     sealed T_registerRequest (ActRegister \<lparr>acc_username = user, acc_password_hash = pwhash\<rparr>) w \<and>
   new_temp_id_response success uid w = sealed T_tempIdResponse
     (ActTempIdResponse \<lparr>temp_success = success, temp_user_id = uid\<rparr>) w \<and>
   new_action_response success msg w = sealed T_actionResponse
     (ActActionResponse \<lparr>resp_success = success, resp_message = msg\<rparr>) w \<and>
   new_broadcast eles w = sealed T_broadcast (ActBroadcast eles) w"
  by (simp add: builder_defs new_packet_sealed to_protobuf_shape foldl_snoc)

text \<open>
  An object made from a received message keeps the version, type and action of the
  message but not its id, which is overwritten with whatever the memory of the new object
  held; the object itself reports type 0, which no packet has, and the empty type name,
  whatever was received.
\<close>

theorem received_packet_loses_id:
  "fst (packet_of_ref ver i p) = packet_of_const ver i p \<and>
   wp_packet (packet_of_const ver i p) = p\<lparr>pk_id := i\<rparr> \<and>
   get_packet_id (packet_of_const ver i p) = i \<and>
   type_of_code (get_packet_type (packet_of_const ver i p)) = None \<and>
   get_packet_type_name (packet_of_const ver i p) = Some []"
  by (simp add: packet_of_ref_def packet_of_const_def get_packet_id_def get_packet_type_def
      default_packet_def get_packet_type_name_def action_name_at_def packet_action_name_def)

lemma parse_serialize:
  assumes "framing_laws rt" and "transmits rt (wp_packet w)"
  shows "parse_packet rt junk (serialize_coded rt w @ rest) = wp_packet w"
proof -
  obtain ok bytes where s: "ser_packet rt (wp_packet w) = (ok, bytes)" by fastforce
  with assms(2) have len: "length bytes < 2 ^ 32"
    and parse: "parse_packet_bytes rt bytes = (True, wp_packet w)"
    by (simp_all add: transmits_def)
  from len have "unat (word_of_nat (length bytes) :: u32) = length bytes"
    by (simp add: unat_of_nat)
  with assms(1) have raw: "read_raw rt (word_of_nat (length bytes)) (bytes @ 10 # rest) = (True, bytes)"
    by (simp add: framing_laws_def)
  show ?thesis
    using assms(1) raw parse
    by (simp add: parse_packet_def serialize_coded_def byte_size_def s framing_laws_def)
qed

text \<open>
  C8: reading a frame gives back the packet that was sent, wherever the newline byte
  occurs in it, and whatever bytes follow the frame in the buffer: the length prefix, not
  the newline, delimits the message. (Hypotheses: the coded streams of the protobuf
  library behave as documented, and this message serialises and parses.)
\<close>

theorem frame_round_trip:
  assumes "framing_laws rt" and "transmits rt (wp_packet w)"
  shows "parse_packet rt junk (serialize_coded rt w @ rest) = wp_packet w"
  using assms by (rule parse_serialize)

end
