(* ===== verification/Store.thy ===== *)
theory Store
  imports Prelude "HOL-Library.AList"
begin

text \<open>
  The database as the server uses it. MongoDB and its driver are not part of the
  repository: the record \<open>mongo\<close> has one field per call the server makes, the handlers take
  it as a parameter, and \<open>mongo_laws\<close> states the documented behaviour the theorems rely on.
  BSON documents and the reads the server makes of them are modelled here, and a store in
  memory that satisfies the laws closes the theory.
\<close>

section \<open>Documents\<close>

text \<open>An ObjectId is its 12 bytes read as a number; the driver never generates one twice.\<close>

type_synonym oid = nat

datatype bson =
    BInt32 u32
  | BInt64 int
  | BString string
  | BArray "bson list"
  | BDate int
  | BOid oid

type_synonym doc = "(string \<times> bson) list"

text \<open>
  What ends a handler early: an exception of the BSON or MongoDB library or of a system
  call, or the use of a socket object that no longer exists, which is no exception and
  which no handler catches.
\<close>

datatype server_error = Exn_bson | Exn_mongo | Exn_system | Dangling_socket nat

definition field :: "doc \<Rightarrow> string \<Rightarrow> bson option" where
  "field d k = map_of d k"

fun get_int32 :: "bson \<Rightarrow> server_error + u32" where
  "get_int32 (BInt32 x) = Inr x"
| "get_int32 _ = Inl Exn_bson"

fun get_string :: "bson \<Rightarrow> server_error + string" where
  "get_string (BString x) = Inr x"
| "get_string _ = Inl Exn_bson"

fun get_array :: "bson \<Rightarrow> server_error + bson list" where
  "get_array (BArray xs) = Inr xs"
| "get_array _ = Inl Exn_bson"

section \<open>Updates\<close>

datatype update_op =
    Push string bson
  | Pull string bson
  | AddToSet string bson
  | SetField string bson

fun op_field :: "update_op \<Rightarrow> string" where
  "op_field (Push k _) = k"
| "op_field (Pull k _) = k"
| "op_field (AddToSet k _) = k"
| "op_field (SetField k _) = k"

fun apply_op :: "update_op \<Rightarrow> doc \<Rightarrow> doc option" where
  "apply_op (Push k v) d = (case field d k of
      None \<Rightarrow> Some (AList.update k (BArray [v]) d)
    | Some (BArray xs) \<Rightarrow> Some (AList.update k (BArray (xs @ [v])) d)
    | Some _ \<Rightarrow> None)"
| "apply_op (Pull k v) d = (case field d k of
      None \<Rightarrow> Some d
    | Some (BArray xs) \<Rightarrow> Some (AList.update k (BArray (filter (\<lambda>x. x \<noteq> v) xs)) d)
    | Some _ \<Rightarrow> None)"
| "apply_op (AddToSet k v) d = (case field d k of
      None \<Rightarrow> Some (AList.update k (BArray [v]) d)
    | Some (BArray xs) \<Rightarrow>
        Some (AList.update k (BArray (if v \<in> set xs then xs else xs @ [v])) d)
    | Some _ \<Rightarrow> None)"
| "apply_op (SetField k v) d = Some (AList.update k v d)"

text \<open>
  An update with several operators applies all of them, unless two name the same field:
  MongoDB refuses such an update as a conflict.
\<close>

definition conflicting :: "update_op list \<Rightarrow> bool" where
  "conflicting us \<longleftrightarrow> \<not> distinct (map op_field us)"

fun apply_ops :: "update_op list \<Rightarrow> doc \<Rightarrow> doc option" where
  "apply_ops [] d = Some d"
| "apply_ops (u # us) d = (case apply_op u d of None \<Rightarrow> None | Some d' \<Rightarrow> apply_ops us d')"

definition apply_update :: "update_op list \<Rightarrow> doc \<Rightarrow> doc option" where
  "apply_update us d = (if conflicting us then None else apply_ops us d)"

lemma field_update [simp]:
  "field (AList.update k v d) k' = (if k' = k then Some v else field d k')"
  by (simp add: field_def update_conv')

lemma field_Cons [simp]: "field ((k, v) # d) k' = (if k = k' then Some v else field d k')"
  by (simp add: field_def)

lemma field_Nil [simp]: "field [] k = None"
  by (simp add: field_def)

section \<open>The calls\<close>

text \<open>
  \<open>find_wb\<close>, \<open>update_wb\<close> and \<open>delete_wb\<close> select by \<open>_id\<close> in \<open>whiteboard_collection\<close>,
  \<open>find_user\<close> by \<open>username\<close> in \<open>user_collection\<close>; \<open>insert_wb\<close> returns the id the driver
  generated and \<open>insert_user\<close> the number of documents inserted, if acknowledged;
  \<open>inc_sequence\<close> is the \<open>find_one_and_update\<close> of the counter, which returns the document
  before the update. \<open>oid_of_string\<close> is \<open>None\<close> where the constructor throws.
\<close>

record 'db mongo =
  find_wb :: "oid \<Rightarrow> ('db, server_error, doc option) act"
  insert_wb :: "doc \<Rightarrow> ('db, server_error, oid option) act"
  update_wb :: "oid \<Rightarrow> update_op list \<Rightarrow> ('db, server_error, unit) act"
  delete_wb :: "oid \<Rightarrow> ('db, server_error, unit) act"
  find_user :: "string \<Rightarrow> ('db, server_error, doc option) act"
  insert_user :: "doc \<Rightarrow> ('db, server_error, nat option) act"
  inc_sequence :: "('db, server_error, doc option) act"
  oid_of_string :: "string \<Rightarrow> oid option"
  string_of_oid :: "oid \<Rightarrow> string"

text \<open>What a database holds: the whiteboards by id, the users, the counter.\<close>

record 'db mongo_view =
  v_wbs :: "'db \<Rightarrow> oid \<Rightarrow> doc option"
  v_users :: "'db \<Rightarrow> doc list"
  v_seq :: "'db \<Rightarrow> nat option"

definition is_user :: "string \<Rightarrow> doc \<Rightarrow> bool" where
  "is_user u d \<longleftrightarrow> field d ''username'' = Some (BString u)"

text \<open>
  The documented behaviour of a database that is up: a find returns what is stored; an
  insert adds one document, under a new \<open>_id\<close> or the given one, which must be new; an update
  applies its operators to the document it selects, or fails and changes nothing; the
  counter goes up by one, as a 32-bit integer and past its range as a 64-bit one.
\<close>

definition counter_doc :: "nat option \<Rightarrow> doc option" where
  "counter_doc c = (case c of
      None \<Rightarrow> None
    | Some n \<Rightarrow> Some [(''seq'', if n < 2 ^ 31 then BInt32 (word_of_nat n) else BInt64 (int n))])"

definition find_laws :: "'db mongo \<Rightarrow> 'db mongo_view \<Rightarrow> bool" where
  "find_laws M V \<longleftrightarrow>
     (\<forall>i d. find_wb M i d = (Inr (v_wbs V d i), d)) \<and>
     (\<forall>u d. find_user M u d = (Inr (find (is_user u) (v_users V d)), d)) \<and>
     (\<forall>i. oid_of_string M (string_of_oid M i) = Some i)"

definition insert_laws :: "'db mongo \<Rightarrow> 'db mongo_view \<Rightarrow> bool" where
  "insert_laws M V \<longleftrightarrow>
     (\<forall>doc d. field doc ''_id'' = None \<longrightarrow>
        (\<exists>i d'. insert_wb M doc d = (Inr (Some i), d') \<and> v_wbs V d i = None \<and>
           v_wbs V d' = (v_wbs V d)(i \<mapsto> (''_id'', BOid i) # doc) \<and>
           v_users V d' = v_users V d \<and> v_seq V d' = v_seq V d)) \<and>
     (\<forall>doc d. if \<exists>old \<in> set (v_users V d). field old ''_id'' = field doc ''_id''
        then insert_user M doc d = (Inl Exn_mongo, d)
        else (\<exists>d'. insert_user M doc d = (Inr (Some 1), d') \<and>
           v_users V d' = v_users V d @ [doc] \<and>
           v_wbs V d' = v_wbs V d \<and> v_seq V d' = v_seq V d))"

definition update_laws :: "'db mongo \<Rightarrow> 'db mongo_view \<Rightarrow> bool" where
  "update_laws M V \<longleftrightarrow>
     (\<forall>i us d. if conflicting us then update_wb M i us d = (Inl Exn_mongo, d)
        else (case v_wbs V d i of
            None \<Rightarrow> update_wb M i us d = (Inr (), d)
          | Some doc \<Rightarrow> (case apply_update us doc of
              None \<Rightarrow> update_wb M i us d = (Inl Exn_mongo, d)
            | Some doc' \<Rightarrow> (\<exists>d'. update_wb M i us d = (Inr (), d') \<and>
                v_wbs V d' = (v_wbs V d)(i \<mapsto> doc') \<and>
                v_users V d' = v_users V d \<and> v_seq V d' = v_seq V d)))) \<and>
     (\<forall>i d. \<exists>d'. delete_wb M i d = (Inr (), d') \<and> v_wbs V d' = (v_wbs V d)(i := None) \<and>
        v_users V d' = v_users V d \<and> v_seq V d' = v_seq V d) \<and>
     (\<forall>d. \<exists>d'. inc_sequence M d = (Inr (counter_doc (v_seq V d)), d') \<and>
        v_seq V d' = Some (Suc (case v_seq V d of None \<Rightarrow> 0 | Some n \<Rightarrow> n)) \<and>
        v_wbs V d' = v_wbs V d \<and> v_users V d' = v_users V d)"

definition mongo_laws :: "'db mongo \<Rightarrow> 'db mongo_view \<Rightarrow> bool" where
  "mongo_laws M V \<longleftrightarrow> find_laws M V \<and> insert_laws M V \<and> update_laws M V"

section \<open>A store in memory\<close>

text \<open>
  A database that satisfies the laws, with hexadecimal ids, for the concrete instances of
  the theorems.
\<close>

record memdb =
  mem_wbs :: "(oid \<times> doc) list"
  mem_users :: "doc list"
  mem_seq :: "nat option"

definition hex_chars :: string where
  "hex_chars = ''0123456789abcdef''"

fun hex_of_nat :: "nat \<Rightarrow> string" where
  "hex_of_nat n = (if n < 16 then [hex_chars ! n] else hex_of_nat (n div 16) @ [hex_chars ! (n mod 16)])"

declare hex_of_nat.simps [simp del]

definition hex_value :: "char \<Rightarrow> nat option" where
  "hex_value c = map_of (zip hex_chars [0..<16]) c"

definition nat_of_hex :: "string \<Rightarrow> nat option" where
  "nat_of_hex s = foldl (\<lambda>acc c. case (acc, hex_value c) of
     (Some n, Some v) \<Rightarrow> Some (16 * n + v) | _ \<Rightarrow> None) (Some 0) s"

definition mem_string_of_oid :: "oid \<Rightarrow> string" where
  "mem_string_of_oid i = (let h = hex_of_nat i in replicate (24 - length h) (CHR ''0'') @ h)"

definition mem_oid_of_string :: "string \<Rightarrow> oid option" where
  "mem_oid_of_string s = (if length s < 24 then None else nat_of_hex s)"

definition mem_fresh :: "memdb \<Rightarrow> oid" where
  "mem_fresh d = Suc (foldr max (map fst (mem_wbs d)) 0)"

definition mem_mongo :: "memdb mongo" where
  "mem_mongo = \<lparr>
     find_wb = (\<lambda>i d. (Inr (map_of (mem_wbs d) i), d)),
     insert_wb = (\<lambda>doc d. let i = mem_fresh d
        in (Inr (Some i), d\<lparr>mem_wbs := AList.update i ((''_id'', BOid i) # doc) (mem_wbs d)\<rparr>)),
     update_wb = (\<lambda>i us d. if conflicting us then (Inl Exn_mongo, d)
        else (case map_of (mem_wbs d) i of None \<Rightarrow> (Inr (), d)
          | Some doc \<Rightarrow> (case apply_update us doc of None \<Rightarrow> (Inl Exn_mongo, d)
            | Some doc' \<Rightarrow> (Inr (), d\<lparr>mem_wbs := AList.update i doc' (mem_wbs d)\<rparr>)))),
     delete_wb = (\<lambda>i d. (Inr (), d\<lparr>mem_wbs := AList.delete i (mem_wbs d)\<rparr>)),
     find_user = (\<lambda>u d. (Inr (find (is_user u) (mem_users d)), d)),
     insert_user = (\<lambda>doc d. if \<exists>old \<in> set (mem_users d). field old ''_id'' = field doc ''_id''
        then (Inl Exn_mongo, d) else (Inr (Some 1), d\<lparr>mem_users := mem_users d @ [doc]\<rparr>)),
     inc_sequence = (\<lambda>d. (Inr (counter_doc (mem_seq d)),
        d\<lparr>mem_seq := Some (Suc (case mem_seq d of None \<Rightarrow> 0 | Some n \<Rightarrow> n))\<rparr>)),
     oid_of_string = mem_oid_of_string,
     string_of_oid = mem_string_of_oid\<rparr>"

definition mem_view :: "memdb mongo_view" where
  "mem_view = \<lparr>v_wbs = (\<lambda>d. map_of (mem_wbs d)), v_users = mem_users, v_seq = mem_seq\<rparr>"

lemma hex_value_hex_chars: "n < 16 \<Longrightarrow> hex_value (hex_chars ! n) = Some n"
  by (auto simp: hex_value_def hex_chars_def numeral_eq_Suc less_Suc_eq)

lemma nat_of_hex_append:
  "nat_of_hex s = Some n \<Longrightarrow> d < 16 \<Longrightarrow> nat_of_hex (s @ [hex_chars ! d]) = Some (16 * n + d)"
  by (simp add: nat_of_hex_def hex_value_hex_chars)

lemma nat_of_hex_zeros: "nat_of_hex (replicate k (CHR ''0'') @ s) = nat_of_hex s"
proof (induction k)
  case (Suc k)
  have "hex_value (CHR ''0'') = Some 0"
    using hex_value_hex_chars [of 0] by (simp add: hex_chars_def)
  with Suc show ?case by (simp add: nat_of_hex_def)
qed simp

lemma nat_of_hex_of_nat: "nat_of_hex (hex_of_nat n) = Some n"
proof (induction n rule: hex_of_nat.induct)
  case (1 n)
  show ?case
  proof (cases "n < 16")
    case True
    then show ?thesis
      using nat_of_hex_append [of "[]" 0 n] by (subst hex_of_nat.simps) (simp add: nat_of_hex_def)
  next
    case False
    with 1 show ?thesis
      using nat_of_hex_append [of "hex_of_nat (n div 16)" "n div 16" "n mod 16"]
      by (subst hex_of_nat.simps) simp
  qed
qed

lemma mem_oid_round_trip: "mem_oid_of_string (mem_string_of_oid i) = Some i"
  by (simp add: mem_oid_of_string_def mem_string_of_oid_def Let_def nat_of_hex_zeros nat_of_hex_of_nat)

lemma mem_fresh_new: "map_of (mem_wbs d) (mem_fresh d) = None"
proof -
  have le: "i \<le> foldr max is 0" if "i \<in> set is" for i :: nat and "is"
    using that by (induction "is") (auto simp: le_max_iff_disj)
  have "mem_fresh d \<notin> set (map fst (mem_wbs d))"
    using le [of "mem_fresh d" "map fst (mem_wbs d)"] by (auto simp: mem_fresh_def)
  then show ?thesis
    by (simp add: map_of_eq_None_iff)
qed

lemma mem_mongo_laws: "mongo_laws mem_mongo mem_view"
proof -
  have "find_laws mem_mongo mem_view"
    by (simp add: find_laws_def mem_mongo_def mem_view_def mem_oid_round_trip)
  moreover have "insert_laws mem_mongo mem_view"
    by (simp add: insert_laws_def mem_mongo_def mem_view_def Let_def mem_fresh_new update_conv' fun_eq_iff)
  moreover have "update_laws mem_mongo mem_view"
    by (auto simp: update_laws_def mem_mongo_def mem_view_def delete_conv' update_conv' fun_eq_iff
        split: option.split)
  ultimately show ?thesis by (simp add: mongo_laws_def)
qed

end
