(* ===== verification/Sessions.thy ===== *)
theory Sessions
  imports Prelude
begin

text \<open>
  The map \<open>whiteboard_sessions\<close> of \<open>src/server/server.hpp\<close>, from the id of a whiteboard to
  the set of the sockets in its session, with the three methods that use it. A socket is
  the address of its stream object, a number. The contract of the three methods is the
  locale \<open>session_registry\<close>.
\<close>

type_synonym socket = nat

type_synonym sessions = "string \<rightharpoonup> socket set"

definition add_socket_to_whiteboard :: "string \<Rightarrow> socket \<Rightarrow> sessions \<Rightarrow> sessions" where
  "add_socket_to_whiteboard wid k m =
     m(wid \<mapsto> insert k (case m wid of None \<Rightarrow> {} | Some S \<Rightarrow> S))"

definition remove_socket_from_whiteboard :: "string \<Rightarrow> socket \<Rightarrow> sessions \<Rightarrow> sessions" where
  "remove_socket_from_whiteboard wid k m = (case m wid of
      None \<Rightarrow> m
    | Some S \<Rightarrow> (let socket_set = S - {k}
        in if socket_set = {} then m(wid := None) else m(wid \<mapsto> socket_set)))"

definition is_whiteboard_shared :: "sessions \<Rightarrow> string \<Rightarrow> bool" where
  "is_whiteboard_shared m wid \<longleftrightarrow> m wid \<noteq> None"

section \<open>The contract\<close>

text \<open>The sockets of a session, and a map that never keeps an empty session.\<close>

definition members :: "sessions \<Rightarrow> string \<Rightarrow> socket set" where
  "members m wid = (case m wid of None \<Rightarrow> {} | Some S \<Rightarrow> S)"

definition sessions_wf :: "sessions \<Rightarrow> bool" where
  "sessions_wf m \<longleftrightarrow> (\<forall>wid. m wid \<noteq> Some {}) \<and> (\<forall>wid. finite (members m wid))"

text \<open>A history of the calls of \<open>add\<close> and \<open>remove\<close>, latest first, and who it leaves where.\<close>

datatype session_op = Join string socket | Quit string socket

fun joined :: "session_op list \<Rightarrow> string \<Rightarrow> socket \<Rightarrow> bool" where
  "joined [] wid k = False"
| "joined (Join w c # ops) wid k = ((w = wid \<and> c = k) \<or> joined ops wid k)"
| "joined (Quit w c # ops) wid k = (\<not> (w = wid \<and> c = k) \<and> joined ops wid k)"

locale session_registry =
  fixes empty :: "'m"
    and add :: "string \<Rightarrow> socket \<Rightarrow> 'm \<Rightarrow> 'm"
    and remove :: "string \<Rightarrow> socket \<Rightarrow> 'm \<Rightarrow> 'm"
    and shared :: "'m \<Rightarrow> string \<Rightarrow> bool"
    and mems :: "'m \<Rightarrow> string \<Rightarrow> socket set"
    and invar :: "'m \<Rightarrow> bool"
  assumes invar_empty: "invar empty"
    and invar_add: "invar m \<Longrightarrow> invar (add w k m)"
    and invar_remove: "invar m \<Longrightarrow> invar (remove w k m)"
    and mems_empty: "mems empty w = {}"
    and mems_add: "invar m \<Longrightarrow> mems (add w k m) = (mems m)(w := insert k (mems m w))"
    and mems_remove: "invar m \<Longrightarrow> mems (remove w k m) = (mems m)(w := mems m w - {k})"
    and shared_iff: "invar m \<Longrightarrow> shared m w \<longleftrightarrow> mems m w \<noteq> {}"
begin

fun run :: "session_op list \<Rightarrow> 'm" where
  "run [] = empty"
| "run (Join w k # ops) = add w k (run ops)"
| "run (Quit w k # ops) = remove w k (run ops)"

lemma invar_run: "invar (run ops)"
  by (induction ops rule: run.induct) (simp_all add: invar_empty invar_add invar_remove)

lemma mems_run: "mems (run ops) w = {k. joined ops w k}"
  by (induction ops rule: run.induct)
    (auto simp: mems_empty mems_add mems_remove invar_run)

lemma shared_run: "shared (run ops) w \<longleftrightarrow> (\<exists>k. joined ops w k)"
  by (auto simp: shared_iff invar_run mems_run)

lemma rejoin_idempotent: "invar m \<Longrightarrow> mems (add w k (add w k m)) = mems (add w k m)"
  by (simp add: mems_add invar_add)

lemma quit_after_join: "invar m \<Longrightarrow> k \<notin> mems m w \<Longrightarrow> mems (remove w k (add w k m)) = mems m"
  by (auto simp: mems_add mems_remove invar_add)

end

lemma members_add: "members (add_socket_to_whiteboard w k m) = (members m)(w := insert k (members m w))"
  by (auto simp: members_def add_socket_to_whiteboard_def fun_eq_iff split: option.split)

lemma members_remove:
  "members (remove_socket_from_whiteboard w k m) = (members m)(w := members m w - {k})"
  by (auto simp: members_def remove_socket_from_whiteboard_def fun_eq_iff Let_def split: option.split)

lemma sessions_wf_empty: "sessions_wf Map.empty"
  by (simp add: sessions_wf_def members_def)

lemma sessions_wf_add: "sessions_wf m \<Longrightarrow> sessions_wf (add_socket_to_whiteboard w k m)"
  by (auto simp: sessions_wf_def members_add) (auto simp: add_socket_to_whiteboard_def split: if_splits)

lemma sessions_wf_remove: "sessions_wf m \<Longrightarrow> sessions_wf (remove_socket_from_whiteboard w k m)"
  by (auto simp: sessions_wf_def members_remove)
    (auto simp: remove_socket_from_whiteboard_def Let_def split: if_splits option.splits)

lemma shared_iff_members: "sessions_wf m \<Longrightarrow> is_whiteboard_shared m w \<longleftrightarrow> members m w \<noteq> {}"
  by (auto simp: sessions_wf_def members_def is_whiteboard_shared_def split: option.split)

interpretation registry: session_registry Map.empty add_socket_to_whiteboard
  remove_socket_from_whiteboard is_whiteboard_shared members sessions_wf
  by unfold_locales
    (auto simp: sessions_wf_empty sessions_wf_add sessions_wf_remove members_add members_remove
      shared_iff_members, simp add: members_def)

section \<open>Properties\<close>

text \<open>
  The map after a history of joins and quits, latest first.
\<close>

fun sessions_after :: "session_op list \<Rightarrow> sessions" where
  "sessions_after [] = Map.empty"
| "sessions_after (Join w k # ops) = add_socket_to_whiteboard w k (sessions_after ops)"
| "sessions_after (Quit w k # ops) = remove_socket_from_whiteboard w k (sessions_after ops)"

lemma sessions_after_run: "sessions_after ops = registry.run ops"
  by (induction ops rule: sessions_after.induct) simp_all

text \<open>
  After any history of joins and quits, a whiteboard's session holds exactly the
  sockets whose last call for that whiteboard was a join, and the whiteboard counts as
  shared if and only if there is such a socket: empty sessions are never kept.
\<close>

theorem sessions_follow_history:
  "members (sessions_after ops) w = {k. joined ops w k} \<and>
   (is_whiteboard_shared (sessions_after ops) w \<longleftrightarrow> (\<exists>k. joined ops w k))"
  unfolding sessions_after_run by (simp add: registry.mems_run registry.shared_run)

end
