(* ===== verification/Server.thy ===== *)
theory Server
  imports Sha256_Fips Packet Store Sessions
begin

text \<open>
  The class \<open>WhiteboardServer\<close> of \<open>src/server/server.hpp\<close> and \<open>src/server/server.cpp\<close>: its
  state, one definition per handler with the whole handler in the order of the source, the
  dispatch on the packet type, and the loop of a connection. The theorems are in the
  theories \<open>Server_Safety\<close>, \<open>Server_Accounts\<close> and \<open>Server_Boards\<close>.
\<close>

section \<open>State and environment\<close>

text \<open>
  \<open>sent\<close> is what was written to sockets, oldest first; \<open>live_sockets\<close> are the stream objects
  that exist (their addresses); \<open>tick\<close> counts the values drawn from the environment.
\<close>

record 'db server =
  db :: 'db
  whiteboard_sessions :: sessions
  live_sockets :: "socket set"
  sent :: "(socket \<times> wb_packet) list"
  tick :: nat

text \<open>
  What the server calls and does not define: the database, protobuf, \<open>rand()\<close>, the random
  distribution of a salt, the clock, whether a write to a socket succeeds, and what an
  unread message length holds.
\<close>

record 'db env =
  env_mongo :: "'db mongo"
  env_rt :: pb_runtime
  env_rand :: "nat \<Rightarrow> u32"
  env_salt :: "nat \<Rightarrow> nat \<Rightarrow> nat"
  env_now :: "nat \<Rightarrow> int"
  env_write_ok :: "nat \<Rightarrow> socket \<Rightarrow> bool"
  env_junk :: "u32 \<times> u8 list"

type_synonym ('db, 'a) handler = "('db server, server_error, 'a) act"

definition server_version :: u32 where
  "server_version = 1"

definition draw :: "(nat \<Rightarrow> 'a) \<Rightarrow> ('db, 'a) handler" where
  "draw f = (\<lambda>s. (Inr (f (tick s)), s\<lparr>tick := Suc (tick s)\<rparr>))"

lemma draw_at [act_at]: "draw f s = (Inr (f (tick s)), s\<lparr>tick := Suc (tick s)\<rparr>)"
  by (simp add: draw_def)

definition db_call :: "('db, server_error, 'a) act \<Rightarrow> ('db, 'a) handler" where
  "db_call f = (\<lambda>s. case f (db s) of (r, d) \<Rightarrow> (r, s\<lparr>db := d\<rparr>))"

lemma db_call_at: "db_call f s = (case f (db s) of (r, d) \<Rightarrow> (r, s\<lparr>db := d\<rparr>))"
  by (simp add: db_call_def)

definition of_sum :: "server_error + 'a \<Rightarrow> ('db, 'a) handler" where
  "of_sum r = (case r of Inl e \<Rightarrow> throw e | Inr x \<Rightarrow> ret x)"

definition make_oid :: "'db env \<Rightarrow> string \<Rightarrow> ('db, oid) handler" where
  "make_oid E wid = (case oid_of_string (env_mongo E) wid of
      None \<Rightarrow> throw Exn_bson | Some i \<Rightarrow> ret i)"

definition int32_field_eq :: "doc \<Rightarrow> string \<Rightarrow> u32 \<Rightarrow> ('db, bool) handler" where
  "int32_field_eq d k x = (case field d k of
      None \<Rightarrow> ret False
    | Some v \<Rightarrow> bnd (of_sum (get_int32 v)) (\<lambda>y. ret (y = x)))"

section \<open>Sending\<close>

text \<open>
  A write to a stream object that no longer exists is undefined behaviour. A write that
  fails throws, and \<open>send_packet\<close> catches that.
\<close>

definition send_packet :: "'db env \<Rightarrow> socket \<Rightarrow> wb_packet \<Rightarrow> ('db, unit) handler" where
  "send_packet E k w = (\<lambda>s.
     if k \<notin> live_sockets s then (Inl (Dangling_socket k), s)
     else if env_write_ok E (tick s) k
       then (Inr (), s\<lparr>sent := sent s @ [(k, w)], tick := Suc (tick s)\<rparr>)
       else (Inr (), s\<lparr>tick := Suc (tick s)\<rparr>))"

definition respond :: "'db env \<Rightarrow> socket \<Rightarrow> pb_packet \<Rightarrow> bool \<Rightarrow> string \<Rightarrow> ('db, unit) handler" where
  "respond E k p success msg = send_packet E k
     (new_action_response success msg (new_wb_packet server_version T_actionResponse (pk_id p)))"

section \<open>The session map\<close>

definition add_socket :: "string \<Rightarrow> socket \<Rightarrow> ('db, unit) handler" where
  "add_socket wid k = mod_st (\<lambda>s. s\<lparr>whiteboard_sessions :=
     add_socket_to_whiteboard wid k (whiteboard_sessions s)\<rparr>)"

definition remove_socket :: "string \<Rightarrow> socket \<Rightarrow> ('db, unit) handler" where
  "remove_socket wid k = mod_st (\<lambda>s. s\<lparr>whiteboard_sessions :=
     remove_socket_from_whiteboard wid k (whiteboard_sessions s)\<rparr>)"

definition shared :: "string \<Rightarrow> ('db, bool) handler" where
  "shared wid = get_st (\<lambda>s. is_whiteboard_shared (whiteboard_sessions s) wid)"

text \<open>\<open>whiteboard_sessions[whiteboard_id]\<close> makes an empty entry where there is none.\<close>

definition session_sockets :: "string \<Rightarrow> ('db, socket list) handler" where
  "session_sockets wid = (\<lambda>s. case whiteboard_sessions s wid of
      Some S \<Rightarrow> (Inr (sorted_list_of_set S), s)
    | None \<Rightarrow> (Inr [], s\<lparr>whiteboard_sessions := (whiteboard_sessions s)(wid \<mapsto> {})\<rparr>))"

section \<open>Broadcast and unicast\<close>

fun parse_elements :: "'db env \<Rightarrow> bson list \<Rightarrow> ('db, pb_element list) handler" where
  "parse_elements E [] = ret []"
| "parse_elements E (v # vs) =
     bnd (of_sum (get_string v)) (\<lambda>element_string.
     bnd (parse_elements E vs) (\<lambda>eles.
     ret (parse_element (env_rt E) element_string # eles)))"

definition board_elements :: "'db env \<Rightarrow> doc \<Rightarrow> ('db, pb_element list) handler" where
  "board_elements E whiteboard_doc = (case field whiteboard_doc ''elements'' of
      None \<Rightarrow> ret []
    | Some elements_field \<Rightarrow>
        bnd (of_sum (get_array elements_field)) (\<lambda>elements_array.
        parse_elements E elements_array))"

definition handle_broadcast :: "'db env \<Rightarrow> string \<Rightarrow> ('db, unit) handler" where
  "handle_broadcast E wid =
     bnd (shared wid) (\<lambda>is_shared.
     if \<not> is_shared then ret ()
     else
       bnd (make_oid E wid) (\<lambda>i.
       bnd (db_call (find_wb (env_mongo E) i)) (\<lambda>result.
       case result of
         None \<Rightarrow> ret ()
       | Some whiteboard_doc \<Rightarrow>
           bnd (board_elements E whiteboard_doc) (\<lambda>eles.
           bnd (draw (env_rand E)) (\<lambda>rid.
           let response = new_broadcast eles (new_wb_packet server_version T_broadcast rid)
           in bnd (session_sockets wid) (\<lambda>sockets.
              for_each sockets (\<lambda>k. send_packet E k response)))))))"

definition handle_unicast :: "'db env \<Rightarrow> string \<Rightarrow> socket \<Rightarrow> ('db, unit) handler" where
  "handle_unicast E wid k =
     bnd (shared wid) (\<lambda>is_shared.
     if \<not> is_shared then ret ()
     else
       bnd (make_oid E wid) (\<lambda>i.
       bnd (db_call (find_wb (env_mongo E) i)) (\<lambda>result.
       case result of
         None \<Rightarrow> ret ()
       | Some whiteboard_doc \<Rightarrow>
           bnd (board_elements E whiteboard_doc) (\<lambda>eles.
           bnd (draw (env_rand E)) (\<lambda>rid.
           send_packet E k
             (new_broadcast eles (new_wb_packet server_version T_broadcast rid)))))))"

section \<open>User ids\<close>

definition getNextSequence :: "'db env \<Rightarrow> ('db, u32) handler" where
  "getNextSequence E =
     bnd (db_call (inc_sequence (env_mongo E))) (\<lambda>maybe_result.
     case maybe_result of
       None \<Rightarrow> ret 0
     | Some doc \<Rightarrow> (case field doc ''seq'' of
           None \<Rightarrow> ret 0
         | Some v \<Rightarrow> of_sum (get_int32 v)))"

definition handle_assign_user_id :: "'db env \<Rightarrow> socket \<Rightarrow> ('db, u32) handler" where
  "handle_assign_user_id E k =
     bnd (getNextSequence E) (\<lambda>uid.
     bnd (db_call (insert_user (env_mongo E)
            [(''_id'', BInt32 uid), (''username'', BString []), (''password_hash'', BString [])]))
       (\<lambda>insert_result.
     bnd (draw (env_rand E)) (\<lambda>rid.
     let success = (case insert_result of Some n \<Rightarrow> n = 1 | None \<Rightarrow> False)
     in seq (send_packet E k (new_temp_id_response success uid
               (new_wb_packet server_version T_tempIdResponse rid)))
          (ret uid))))"

section \<open>The handlers\<close>

definition handle_create_whiteboard_request ::
  "'db env \<Rightarrow> pb_packet \<Rightarrow> socket \<Rightarrow> ('db, unit) handler" where
  "handle_create_whiteboard_request E packet k =
     (let packet_id = pk_id packet; request_user_id = createwhiteboard (action_of packet)
      in bnd (if request_user_id = 0 then handle_assign_user_id E k else ret request_user_id)
           (\<lambda>user_id.
         bnd (draw (env_now E)) (\<lambda>now.
         bnd (db_call (insert_wb (env_mongo E)
                [(''uid'', BInt32 user_id), (''elements'', BArray []), (''created_at'', BDate now)]))
           (\<lambda>insert_one_result.
         let response = new_wb_packet server_version T_actionResponse packet_id
         in send_packet E k (case insert_one_result of
              Some doc_id \<Rightarrow> new_action_response True (string_of_oid (env_mongo E) doc_id) response
            | None \<Rightarrow> new_action_response False ''Fail to create whiteboard document'' response)))))"

definition handle_create_session_request ::
  "'db env \<Rightarrow> pb_packet \<Rightarrow> socket \<Rightarrow> ('db, unit) handler" where
  "handle_create_session_request E packet k =
     (let request = createsession (action_of packet);
          user_id = rq_user_id request;
          whiteboard_id = rq_whiteboard_id request
      in bnd (make_oid E whiteboard_id) (\<lambda>i.
         bnd (db_call (find_wb (env_mongo E) i)) (\<lambda>result.
         case result of
           Some whiteboard_doc \<Rightarrow>
             bnd (int32_field_eq whiteboard_doc ''uid'' user_id) (\<lambda>is_admin.
             if is_admin then
               seq (add_socket whiteboard_id k) (
               seq (db_call (update_wb (env_mongo E) i
                      [SetField ''active_user_ids'' (BArray [BInt32 user_id])])) (
               respond E k packet True ''Session created successfully''))
             else respond E k packet False ''User ID does not match'')
         | None \<Rightarrow> respond E k packet False ''Whiteboard not found'')))"

definition handle_join_session_request ::
  "'db env \<Rightarrow> pb_packet \<Rightarrow> socket \<Rightarrow> ('db, unit) handler" where
  "handle_join_session_request E packet k =
     (let request = joinsession (action_of packet)
      in bnd (if rq_user_id request = 0 then handle_assign_user_id E k else ret (rq_user_id request))
           (\<lambda>user_id.
         let whiteboard_id = rq_whiteboard_id request
         in bnd (make_oid E whiteboard_id) (\<lambda>i.
            bnd (db_call (find_wb (env_mongo E) i)) (\<lambda>result.
            case result of
              Some whiteboard_doc \<Rightarrow>
                (case field whiteboard_doc ''active_user_ids'' of
                   Some _ \<Rightarrow>
                     seq (add_socket whiteboard_id k) (
                     seq (db_call (update_wb (env_mongo E) i
                            [AddToSet ''active_user_ids'' (BInt32 user_id)])) (
                     bnd (shared whiteboard_id) (\<lambda>is_shared.
                     seq (if is_shared then handle_unicast E whiteboard_id k else ret ()) (
                     respond E k packet True whiteboard_id))))
                 | None \<Rightarrow> respond E k packet False ''Whiteboard is not in shared status'')
            | None \<Rightarrow> respond E k packet False ''Whiteboard not found''))))"

definition handle_quit_session_request ::
  "'db env \<Rightarrow> pb_packet \<Rightarrow> socket \<Rightarrow> ('db, unit) handler" where
  "handle_quit_session_request E packet k =
     (let request = quitsession (action_of packet);
          user_id = rq_user_id request;
          whiteboard_id = rq_whiteboard_id request
      in seq (remove_socket whiteboard_id k) (
         bnd (make_oid E whiteboard_id) (\<lambda>i.
         seq (db_call (update_wb (env_mongo E) i [Pull ''active_user_ids'' (BInt32 user_id)])) (
         bnd (db_call (find_wb (env_mongo E) i)) (\<lambda>result.
         seq (case result of
                None \<Rightarrow> ret ()
              | Some whiteboard_doc \<Rightarrow>
                  (case field whiteboard_doc ''active_user_ids'' of
                     None \<Rightarrow> ret ()
                   | Some active_user_ids_field \<Rightarrow>
                       bnd (of_sum (get_array active_user_ids_field)) (\<lambda>active_user_ids.
                       let should_delete_whiteboard = (active_user_ids = [])
                       in if should_delete_whiteboard
                          then db_call (delete_wb (env_mongo E) i) else ret ())))
             (respond E k packet True ''Quit session successfully''))))))"

text \<open>The loop of \<open>user_in_active_user_ids\<close>, which stops at the first match.\<close>

fun int32_in :: "bson list \<Rightarrow> u32 \<Rightarrow> ('db, bool) handler" where
  "int32_in [] x = ret False"
| "int32_in (v # vs) x =
     bnd (of_sum (get_int32 v)) (\<lambda>y. if y = x then ret True else int32_in vs x)"

definition user_in_active_user_ids :: "doc \<Rightarrow> u32 \<Rightarrow> ('db, bool) handler" where
  "user_in_active_user_ids whiteboard_doc user_id =
     (case field whiteboard_doc ''active_user_ids'' of
        None \<Rightarrow> ret False
      | Some active_user_ids_field \<Rightarrow>
          bnd (of_sum (get_array active_user_ids_field)) (\<lambda>active_user_ids.
          int32_in active_user_ids user_id))"

definition handle_add_element_request ::
  "'db env \<Rightarrow> pb_packet \<Rightarrow> socket \<Rightarrow> ('db, unit) handler" where
  "handle_add_element_request E packet k =
     (let request = addelement (action_of packet);
          user_id = add_user_id request;
          whiteboard_id = add_whiteboard_id request;
          proto_ele_string = ser_element (env_rt E) (element_of (add_element request))
      in bnd (make_oid E whiteboard_id) (\<lambda>i.
         bnd (db_call (find_wb (env_mongo E) i)) (\<lambda>result.
         case result of
           Some whiteboard_doc \<Rightarrow>
             bnd (user_in_active_user_ids whiteboard_doc user_id) (\<lambda>active.
             bnd (if active then ret True else int32_field_eq whiteboard_doc ''uid'' user_id)
               (\<lambda>allowed.
             seq (if allowed then
                    seq (db_call (update_wb (env_mongo E) i
                           [Push ''elements'' (BString proto_ele_string)]))
                        (respond E k packet True ''Element added successfully'')
                  else ret ()) (
             bnd (shared whiteboard_id) (\<lambda>is_shared.
             if is_shared then handle_broadcast E whiteboard_id else ret ()))))
         | None \<Rightarrow> respond E k packet False
             ''User is not authorized to add element or whiteboard not found'')))"

definition handle_register_request ::
  "'db env \<Rightarrow> pb_packet \<Rightarrow> socket \<Rightarrow> ('db, unit) handler" where
  "handle_register_request E packet k =
     (let request = registerrequest (action_of packet);
          username = acc_username request;
          password_hash = acc_password_hash request
      in bnd (db_call (find_user (env_mongo E) username)) (\<lambda>result.
         case result of
           Some _ \<Rightarrow> respond E k packet False ''Username already exists''
         | None \<Rightarrow>
             bnd (draw (\<lambda>n. generate_random_salt (env_salt E n) 16)) (\<lambda>salt_string.
             let salted_password = salt_string @ password_hash;
                 hashed_password_string = hash_hex salted_password
             in bnd (getNextSequence E) (\<lambda>uid.
                let doc_value = [(''_id'', BInt32 uid), (''username'', BString username),
                      (''salt'', BString salt_string),
                      (''password_hash'', BString hashed_password_string)]
                in try_catch
                     (bnd (db_call (insert_user (env_mongo E) doc_value)) (\<lambda>result.
                      case result of
                        Some _ \<Rightarrow> send_packet E k (new_temp_id_response True uid
                          (new_wb_packet server_version T_tempIdResponse (pk_id packet)))
                      | None \<Rightarrow> respond E k packet False ''Failed to register user''))
                     (\<lambda>e. case e of
                        Dangling_socket j \<Rightarrow> throw e
                      | _ \<Rightarrow> respond E k packet False
                          ''Exception occurred while registering user'')))))"

definition handle_login_request ::
  "'db env \<Rightarrow> pb_packet \<Rightarrow> socket \<Rightarrow> ('db, unit) handler" where
  "handle_login_request E packet k =
     (let request = loginrequest (action_of packet);
          username = acc_username request;
          password_hash = acc_password_hash request
      in bnd (db_call (find_user (env_mongo E) username)) (\<lambda>result.
         case result of
           Some user_doc \<Rightarrow>
             bnd (of_sum (case field user_doc ''_id'' of
                    None \<Rightarrow> Inl Exn_bson | Some v \<Rightarrow> get_int32 v)) (\<lambda>user_id.
             case (field user_doc ''password_hash'', field user_doc ''salt'') of
               (Some stored_password_hash, Some stored_salt) \<Rightarrow>
                 bnd (of_sum (get_string stored_salt)) (\<lambda>salt.
                 let salted_password = salt @ password_hash;
                     calculated_hash = hash_hex salted_password
                 in bnd (of_sum (get_string stored_password_hash)) (\<lambda>stored.
                    if calculated_hash = stored
                    then send_packet E k (new_temp_id_response True user_id
                           (new_wb_packet server_version T_tempIdResponse (pk_id packet)))
                    else respond E k packet False ''Invalid username or password''))
             | _ \<Rightarrow> ret ())
         | None \<Rightarrow> respond E k packet False ''User not exist''))"

text \<open>The search of an element's string in the array of the document.\<close>

fun string_in :: "bson list \<Rightarrow> string \<Rightarrow> ('db, bool) handler" where
  "string_in [] x = ret False"
| "string_in (v # vs) x =
     bnd (of_sum (get_string v)) (\<lambda>y. if y = x then ret True else string_in vs x)"

definition handle_modify_element_request ::
  "'db env \<Rightarrow> pb_packet \<Rightarrow> socket \<Rightarrow> ('db, unit) handler" where
  "handle_modify_element_request E packet k =
     (let request = modifyelement (action_of packet);
          orig_element_string = ser_element (env_rt E) (element_of (mod_orig_element request));
          new_element_string = ser_element (env_rt E) (element_of (mod_modi_element request));
          user_id = mod_user_id request;
          whiteboard_id = mod_whiteboard_id request
      in bnd (make_oid E whiteboard_id) (\<lambda>i.
         bnd (db_call (find_wb (env_mongo E) i)) (\<lambda>result.
         case result of
           Some whiteboard_doc \<Rightarrow>
             bnd (user_in_active_user_ids whiteboard_doc user_id) (\<lambda>user_found.
             if user_found then
               (case field whiteboard_doc ''elements'' of
                  None \<Rightarrow> ret ()
                | Some elements_field \<Rightarrow>
                    bnd (of_sum (get_array elements_field)) (\<lambda>elements_array.
                    bnd (string_in elements_array orig_element_string) (\<lambda>orig_element_found.
                    if orig_element_found then
                      seq (db_call (update_wb (env_mongo E) i
                             [Pull ''elements'' (BString orig_element_string),
                              Push ''elements'' (BString new_element_string)])) (
                      seq (respond E k packet True ''Element modified successfully'') (
                      bnd (shared whiteboard_id) (\<lambda>is_shared.
                      if is_shared then handle_broadcast E whiteboard_id else ret ())))
                    else respond E k packet False ''Original element is not in the database'')))
             else ret ())
         | None \<Rightarrow> respond E k packet False
             ''User is not authorized to modify element or whiteboard not found'')))"

section \<open>Connections\<close>

definition dispatch :: "'db env \<Rightarrow> pb_packet \<Rightarrow> socket \<Rightarrow> ('db, unit) handler" where
  "dispatch E packet k = (case type_of_code (pk_type packet) of
      Some T_createWhiteboard \<Rightarrow> handle_create_whiteboard_request E packet k
    | Some T_createSession \<Rightarrow> handle_create_session_request E packet k
    | Some T_joinSession \<Rightarrow> handle_join_session_request E packet k
    | Some T_quitSession \<Rightarrow> handle_quit_session_request E packet k
    | Some T_addElement \<Rightarrow> handle_add_element_request E packet k
    | Some T_modifyElement \<Rightarrow> handle_modify_element_request E packet k
    | Some T_loginRequest \<Rightarrow> handle_login_request E packet k
    | Some T_registerRequest \<Rightarrow> handle_register_request E packet k
    | _ \<Rightarrow> ret ())"

text \<open>The buffer is local to one round of the loop; the round says whether the loop goes on.\<close>

fun connection_round :: "'db env \<Rightarrow> socket \<Rightarrow> read_result \<Rightarrow> ('db, bool) handler" where
  "connection_round E k Read_eof = ret False"
| "connection_round E k Read_error = throw Exn_system"
| "connection_round E k (Read_ok buffer) =
     seq (dispatch E (parse_packet (env_rt E) (env_junk E) buffer) k) (ret True)"

text \<open>The loop on the reads that have happened; \<open>True\<close> when it waits for the next one.\<close>

fun connection_loop :: "'db env \<Rightarrow> socket \<Rightarrow> read_result list \<Rightarrow> ('db, bool) handler" where
  "connection_loop E k [] = ret True"
| "connection_loop E k (r # rs) =
     bnd (connection_round E k r) (\<lambda>go_on. if go_on then connection_loop E k rs else ret False)"

definition close_socket :: "socket \<Rightarrow> ('db, unit) handler" where
  "close_socket k = mod_st (\<lambda>s. s\<lparr>live_sockets := live_sockets s - {k}\<rparr>)"

text \<open>
  \<open>handle_connection\<close> owns the stream object (its parameter): it exists while the function
  runs and is destroyed when the loop has ended. Exceptions end the loop and are printed.
\<close>

definition handle_connection :: "'db env \<Rightarrow> socket \<Rightarrow> read_result list \<Rightarrow> ('db, unit) handler" where
  "handle_connection E k reads =
     bnd (try_catch (connection_loop E k reads)
            (\<lambda>e. case e of Dangling_socket j \<Rightarrow> throw e | _ \<Rightarrow> ret False))
       (\<lambda>waiting. if waiting then ret () else close_socket k)"

text \<open>
  The server as a whole: connections are accepted, at an address no live stream object
  has, and the live ones read, in any order.
\<close>

datatype event = Connect socket | Receive socket read_result

fun server_event :: "'db env \<Rightarrow> event \<Rightarrow> ('db, unit) handler" where
  "server_event E (Connect k) = mod_st (\<lambda>s. s\<lparr>live_sockets := insert k (live_sockets s)\<rparr>)"
| "server_event E (Receive k r) =
     bnd (get_st (\<lambda>s. k \<in> live_sockets s)) (\<lambda>live. if live then handle_connection E k [r] else ret ())"

definition server_run :: "'db env \<Rightarrow> event list \<Rightarrow> ('db, unit) handler" where
  "server_run E events = for_each events (server_event E)"

definition server_init :: "'db \<Rightarrow> 'db server" where
  "server_init d = \<lparr>db = d, whiteboard_sessions = Map.empty, live_sockets = {}, sent = [], tick = 0\<rparr>"

lemmas handler_defs = handle_create_whiteboard_request_def handle_create_session_request_def
  handle_join_session_request_def handle_quit_session_request_def handle_add_element_request_def
  handle_register_request_def handle_login_request_def handle_modify_element_request_def

end
