(* ===== verification/Instance.thy ===== *)
theory Instance
  imports Server
begin

text \<open>
  A concrete environment for the instances of the theorems: varints in the base-128 format
  of protobuf, a table of packets with their encodings (the bytes protobuf gives them), the
  store in memory, a network that accepts every write.
\<close>

section \<open>Varints\<close>

fun leb128 :: "nat \<Rightarrow> u8 list" where
  "leb128 n = (if n < 128 then [word_of_nat n]
     else word_of_nat (n mod 128 + 128) # leb128 (n div 128))"

declare leb128.simps [simp del]

fun unleb128 :: "u8 list \<Rightarrow> (nat \<times> u8 list) option" where
  "unleb128 [] = None"
| "unleb128 (b # bs) = (if unat b < 128 then Some (unat b, bs)
     else (case unleb128 bs of None \<Rightarrow> None
       | Some (n, rest) \<Rightarrow> Some (unat b - 128 + 128 * n, rest)))"

lemma unleb128_leb128: "unleb128 (leb128 n @ rest) = Some (n, rest)"
proof (induction n rule: leb128.induct)
  case (1 n)
  show ?case
  proof (cases "n < 128")
    case True
    then show ?thesis by (subst leb128.simps) (simp add: unat_of_nat)
  next
    case False
    have b: "unat (word_of_nat (n mod 128 + 128) :: u8) = n mod 128 + 128"
      by (simp only: unat_of_nat) simp
    from False have "unleb128 (leb128 n @ rest) = Some (n mod 128 + 128 * (n div 128), rest)"
      using 1 b by (subst leb128.simps) (simp add: algebra_simps)
    then show ?thesis by simp
  qed
qed

section \<open>A runtime\<close>

definition table_rt :: "(pb_packet \<times> u8 list) list \<Rightarrow> (pb_element \<times> string) list \<Rightarrow> pb_runtime" where
  "table_rt packets elems = \<lparr>
     ser_packet = (\<lambda>p. case map_of packets p of Some bs \<Rightarrow> (True, bs) | None \<Rightarrow> (False, [])),
     parse_packet_bytes = (\<lambda>bs. case find (\<lambda>(p, cs). cs = bs) packets of
        Some (p, _) \<Rightarrow> (True, p) | None \<Rightarrow> (False, default_packet)),
     write_varint32 = (\<lambda>n. leb128 (unat n)),
     read_varint32 = (\<lambda>bs. case unleb128 bs of
        Some (n, rest) \<Rightarrow> Some (word_of_nat n, rest) | None \<Rightarrow> None),
     read_raw = (\<lambda>n bs. (unat n \<le> length bs, take (unat n) bs @ replicate (unat n - length bs) 0)),
     ser_element = (\<lambda>e. case map_of elems e of Some s \<Rightarrow> s | None \<Rightarrow> []),
     parse_element = (\<lambda>s. case find (\<lambda>(e, t). t = s) elems of
        Some (e, _) \<Rightarrow> e | None \<Rightarrow> ElementNotSet)\<rparr>"

lemma table_rt_framing: "framing_laws (table_rt packets elems)"
  by (simp add: framing_laws_def table_rt_def unleb128_leb128)

text \<open>A create-whiteboard request of user 0; its encoding holds the newline byte twice.\<close>

definition create_packet :: "u32 \<Rightarrow> pb_packet" where
  "create_packet i = \<lparr>pk_version = 1, pk_type = 1, pk_id = i, pk_action = Some (ActCreateWhiteBoard 0)\<rparr>"

definition sample_table :: "(pb_packet \<times> u8 list) list" where
  "sample_table = [(create_packet 1, [8, 1, 16, 1, 24, 1, 34, 2, 10, 0]),
     (create_packet 10, [8, 1, 16, 1, 24, 10, 34, 2, 10, 0])]"

definition sample_rt :: pb_runtime where
  "sample_rt = table_rt sample_table []"

lemma sample_framing: "framing_laws sample_rt"
  by (simp add: sample_rt_def table_rt_framing)

lemma sample_transmits: "transmits sample_rt (create_packet 1)" "transmits sample_rt (create_packet 10)"
  by (simp_all add: transmits_def sample_rt_def table_rt_def sample_table_def create_packet_def)

theorem frame_round_trip_witness:
  "parse_packet sample_rt (0, []) (serialize_coded sample_rt
     \<lparr>wp_version = 1, wp_type = 1, wp_packet_id = 10, wp_packet = create_packet 10\<rparr> @ [7, 10]) = create_packet 10"
  using frame_round_trip [of sample_rt
      "\<lparr>wp_version = 1, wp_type = 1, wp_packet_id = 10, wp_packet = create_packet 10\<rparr>" "(0, [])" "[7, 10]"]
    sample_framing sample_transmits by simp

section \<open>An environment\<close>

definition mem_env :: "memdb env" where
  "mem_env = \<lparr>env_mongo = mem_mongo, env_rt = sample_rt, env_rand = (\<lambda>n. word_of_nat n),
     env_salt = (\<lambda>n i. i), env_now = (\<lambda>n. int n), env_write_ok = (\<lambda>n k. True),
     env_junk = (0, [])\<rparr>"

lemma mem_env_simps [simp]:
  "env_mongo mem_env = mem_mongo" "env_rt mem_env = sample_rt" "env_write_ok mem_env n k"
  by (simp_all add: mem_env_def)

definition mem_empty :: memdb where
  "mem_empty = \<lparr>mem_wbs = [], mem_users = [], mem_seq = None\<rparr>"

text \<open>One connected client, and a whiteboard of user 7 with the given sockets in its session.\<close>

definition sample_doc :: doc where
  "sample_doc = [(''_id'', BOid 1), (''uid'', BInt32 7), (''elements'', BArray []),
     (''created_at'', BDate 0), (''active_user_ids'', BArray [BInt32 7])]"

definition sample_wid :: string where
  "sample_wid = mem_string_of_oid 1"

definition sample_server :: "socket set \<Rightarrow> socket set \<Rightarrow> memdb server" where
  "sample_server live joined_sockets = \<lparr>
     db = mem_empty\<lparr>mem_wbs := [(1, sample_doc)]\<rparr>,
     whiteboard_sessions = [sample_wid \<mapsto> joined_sockets],
     live_sockets = live, sent = [], tick = 0\<rparr>"

end
