(* ===== verification/Server_Safety.thy ===== *)
theory Server_Safety
  imports Instance
begin

text \<open>
  What holds of every run of the server, whatever the database, the network and the
  clients do: an invariant is proved for each handler with the rules for computations
  (\<open>keeps_intros\<close>), then for a connection and for a run of events.
\<close>

section \<open>Invariants of the small steps\<close>

text \<open>An invariant that no draw, no database call and no close of a socket can break.\<close>

definition stable :: "('db server \<Rightarrow> bool) \<Rightarrow> bool" where
  "stable P \<longleftrightarrow> (\<forall>s n d. P s \<longrightarrow> P (s\<lparr>tick := n\<rparr>) \<and> P (s\<lparr>db := d\<rparr>))"

lemma keeps_draw: "stable P \<Longrightarrow> keeps P (draw f)"
  by (simp add: stable_def keeps_def draw_def)

lemma keeps_db_call: "stable P \<Longrightarrow> keeps P (db_call f)"
  by (simp add: stable_def keeps_def db_call_def split: prod.split)

lemma keeps_of_sum [keeps_intros]: "keeps P (of_sum r)"
  by (cases r) (simp_all add: of_sum_def keeps_intros)

lemma keeps_make_oid [keeps_intros]: "keeps P (make_oid E wid)"
  unfolding make_oid_def by (intro keeps_intros)

lemma keeps_shared [keeps_intros]: "keeps P (shared wid)"
  unfolding shared_def by (intro keeps_intros)

lemma keeps_int32_field_eq [keeps_intros]: "keeps P (int32_field_eq d f x)"
  unfolding int32_field_eq_def by (intro keeps_intros)

lemma keeps_int32_in [keeps_intros]: "keeps P (int32_in vs x)"
  by (induction vs) (auto intro!: keeps_intros)

lemma keeps_string_in [keeps_intros]: "keeps P (string_in vs x)"
  by (induction vs) (auto intro!: keeps_intros)

lemma keeps_user_in_active [keeps_intros]: "keeps P (user_in_active_user_ids d x)"
  unfolding user_in_active_user_ids_def by (intro keeps_intros)

lemma keeps_parse_elements [keeps_intros]: "keeps P (parse_elements E vs)"
  by (induction vs) (auto intro!: keeps_intros)

lemma keeps_board_elements [keeps_intros]: "keeps P (board_elements E d)"
  unfolding board_elements_def by (intro keeps_intros)

lemma keeps_let [keeps_intros]: "(\<And>x. x = t \<Longrightarrow> keeps P (f x)) \<Longrightarrow> keeps P (let x = t in f x)"
  by simp

lemma keeps_case_server_error [keeps_intros]:
  "keeps P f \<Longrightarrow> keeps P g \<Longrightarrow> keeps P h \<Longrightarrow> (\<And>j. keeps P (d j)) \<Longrightarrow>
    keeps P (case e of Exn_bson \<Rightarrow> f | Exn_mongo \<Rightarrow> g | Exn_system \<Rightarrow> h | Dangling_socket j \<Rightarrow> d j)"
  by (cases e) simp_all

lemma keeps_send:
  assumes "stable P" and "\<And>s. P s \<Longrightarrow> P (s\<lparr>sent := sent s @ [(k, w)]\<rparr>)"
  shows "keeps P (send_packet E k w)"
  using assms by (auto simp: keeps_def send_packet_def stable_def)

lemma keeps_session_sockets:
  "m wid \<noteq> None \<Longrightarrow> keeps (\<lambda>s. P s \<and> whiteboard_sessions s = m) (session_sockets wid)"
  by (auto simp: keeps_def session_sockets_def)

lemma keeps_getNextSequence: "stable P \<Longrightarrow> keeps P (getNextSequence E)"
  unfolding getNextSequence_def by (intro keeps_intros keeps_db_call)

section \<open>The interface of an invariant of the server\<close>

text \<open>
  A property of the state that survives the effects a handler can have: drawing values,
  calling the database, sending a well-formed packet, adding and removing a socket,
  closing one. Every handler keeps such a property.
\<close>

definition server_packet :: "wb_packet \<Rightarrow> bool" where
  "server_packet w \<longleftrightarrow>
     wp_version w = server_version \<and> pk_version (wp_packet w) = server_version \<and>
     pk_type (wp_packet w) = wp_type w \<and> pk_id (wp_packet w) = wp_packet_id w \<and>
     consistent (wp_packet w) \<and>
     type_of_code (wp_type w) \<in> {Some T_actionResponse, Some T_broadcast, Some T_tempIdResponse}"

lemma server_packet_response [simp]:
  "server_packet (new_action_response b msg (new_wb_packet server_version T_actionResponse i))"
  "server_packet (new_temp_id_response b uid (new_wb_packet server_version T_tempIdResponse i))"
  "server_packet (new_broadcast eles (new_wb_packet server_version T_broadcast i))"
  by (simp_all add: server_packet_def new_action_response_def new_temp_id_response_def
      new_broadcast_def consistent_new_packet pk_type_new_packet new_wb_packet_def)

locale server_invariant =
  fixes P :: "'db server \<Rightarrow> bool"
  assumes stable: "stable P"
    and send: "P s \<Longrightarrow> server_packet w \<Longrightarrow> P (s\<lparr>sent := sent s @ [(k, w)]\<rparr>)"
    and add: "P s \<Longrightarrow> k \<in> live_sockets s \<Longrightarrow> P (s\<lparr>whiteboard_sessions :=
      add_socket_to_whiteboard wid k (whiteboard_sessions s)\<rparr>)"
    and remove: "P s \<Longrightarrow> P (s\<lparr>whiteboard_sessions :=
      remove_socket_from_whiteboard wid k (whiteboard_sessions s)\<rparr>)"
    and close: "P s \<Longrightarrow> P (s\<lparr>live_sockets := live_sockets s - {k}\<rparr>)"
    and connect: "P s \<Longrightarrow> P (s\<lparr>live_sockets := insert k (live_sockets s)\<rparr>)"
begin

text \<open>While a handler runs for the socket \<open>k\<close>, \<open>k\<close> is alive.\<close>

abbreviation "I k \<equiv> \<lambda>s. P s \<and> k \<in> live_sockets s"

lemma stable_I: "stable (I k)"
  using stable by (simp add: stable_def)

lemmas env_steps = keeps_draw [OF stable_I] keeps_db_call [OF stable_I]
  keeps_getNextSequence [OF stable_I]

lemma keeps_send_packet: "server_packet w \<Longrightarrow> keeps (I j) (send_packet E k w)"
  by (rule keeps_send [OF stable_I]) (simp add: send)

lemma keeps_respond: "keeps (I j) (respond E k p b msg)"
  unfolding respond_def by (rule keeps_send_packet) simp

lemma keeps_add_socket: "keeps (I k) (add_socket wid k)"
  unfolding add_socket_def by (rule keeps_mod_st) (simp add: add)

lemma keeps_remove_socket: "keeps (I j) (remove_socket wid k)"
  unfolding remove_socket_def by (rule keeps_mod_st) (simp add: remove)

lemma keeps_handle_assign_user_id: "keeps (I j) (handle_assign_user_id E k)"
  unfolding handle_assign_user_id_def
  by (intro keeps_intros env_steps keeps_send_packet) simp_all

lemma keeps_handle_unicast: "keeps (I j) (handle_unicast E wid k)"
  unfolding handle_unicast_def
  by (intro keeps_intros env_steps keeps_send_packet) simp_all

text \<open>
  A broadcast looks the sockets up with \<open>operator[]\<close>, which could add an entry; it does not,
  because it has checked that there is one.
\<close>

lemma keeps_handle_broadcast: "keeps (I j) (handle_broadcast E wid)"
proof (rule keepsI)
  fix s assume s: "I j s"
  define Q where "Q = (\<lambda>t. I j t \<and> whiteboard_sessions t = whiteboard_sessions s)"
  have Q: "stable Q"
    using stable by (simp add: Q_def stable_def)
  show "I j (snd (handle_broadcast E wid s))"
  proof (cases "whiteboard_sessions s wid")
    case None
    with s show ?thesis
      by (simp add: handle_broadcast_def shared_def act_defs is_whiteboard_shared_def)
  next
    case (Some S)
    have sock: "keeps Q (session_sockets wid)"
      unfolding Q_def by (rule keeps_session_sockets) (simp add: Some)
    have snd: "keeps Q (send_packet E k w)" if "server_packet w" for k w
      using that by (intro keeps_send [OF Q]) (simp add: Q_def send)
    have "keeps Q (handle_broadcast E wid)"
      unfolding handle_broadcast_def
      by (intro keeps_intros keeps_draw [OF Q] keeps_db_call [OF Q] sock snd) simp_all
    moreover have "Q s" using s by (simp add: Q_def)
    ultimately have "Q (snd (handle_broadcast E wid s))" by (rule keepsD)
    then show ?thesis by (simp add: Q_def)
  qed
qed

lemmas handler_steps = env_steps keeps_send_packet keeps_respond keeps_add_socket
  keeps_remove_socket keeps_handle_assign_user_id keeps_handle_unicast keeps_handle_broadcast

lemma keeps_create_whiteboard: "keeps (I k) (handle_create_whiteboard_request E p k)"
  unfolding handle_create_whiteboard_request_def
  by (intro keeps_intros handler_steps) (simp split: option.split)

lemma keeps_create_session: "keeps (I k) (handle_create_session_request E p k)"
  unfolding handle_create_session_request_def
  by (intro keeps_intros handler_steps)

lemma keeps_join_session: "keeps (I k) (handle_join_session_request E p k)"
  unfolding handle_join_session_request_def
  by (intro keeps_intros handler_steps)

lemma keeps_quit_session: "keeps (I k) (handle_quit_session_request E p k)"
  unfolding handle_quit_session_request_def
  by (intro keeps_intros handler_steps)

lemma keeps_add_element: "keeps (I k) (handle_add_element_request E p k)"
  unfolding handle_add_element_request_def
  by (intro keeps_intros handler_steps)

lemma keeps_modify_element: "keeps (I k) (handle_modify_element_request E p k)"
  unfolding handle_modify_element_request_def
  by (intro keeps_intros handler_steps)

lemma keeps_register: "keeps (I k) (handle_register_request E p k)"
  unfolding handle_register_request_def
  by (intro keeps_intros handler_steps) simp_all

lemma keeps_login: "keeps (I k) (handle_login_request E p k)"
  unfolding handle_login_request_def
  by (intro keeps_intros handler_steps) simp_all

lemma keeps_dispatch: "keeps (I k) (dispatch E p k)"
proof (cases "type_of_code (pk_type p)")
  case (Some t)
  then show ?thesis
    by (cases t) (simp_all add: dispatch_def keeps_ret keeps_create_whiteboard
        keeps_create_session keeps_join_session keeps_quit_session keeps_add_element
        keeps_modify_element keeps_register keeps_login)
qed (simp add: dispatch_def keeps_ret)

lemma keeps_connection_round: "keeps (I k) (connection_round E k r)"
  by (cases r) (simp_all add: keeps_intros keeps_dispatch)

lemma keeps_connection_loop: "keeps (I k) (connection_loop E k rs)"
  by (induction rs) (auto intro!: keeps_intros keeps_connection_round)

lemma handle_connection_keeps:
  assumes "P s" and "k \<in> live_sockets s"
  shows "P (snd (handle_connection E k rs s))"
proof -
  let ?f = "try_catch (connection_loop E k rs)
    (\<lambda>e. case e of Dangling_socket j \<Rightarrow> throw e | _ \<Rightarrow> ret False)"
  have "keeps (I k) ?f"
    by (intro keeps_intros keeps_connection_loop)
  with assms have "P (snd (?f s))" by (auto simp: keeps_def)
  then show ?thesis
    by (auto simp: handle_connection_def bnd_def close_socket_def mod_st_def ret_def close
        split: prod.split sum.split)
qed

lemma keeps_server_event: "keeps P (server_event E ev)"
proof (cases ev)
  case (Connect k)
  then show ?thesis by (auto intro!: keeps_mod_st connect)
next
  case (Receive k r)
  then show ?thesis
    by (auto simp: keeps_def bnd_def get_st_def ret_def intro!: handle_connection_keeps)
qed

lemma run_keeps: "P s \<Longrightarrow> P (snd (server_run E events s))"
  using keeps_for_each [of P "server_event E" events] keeps_server_event
  by (auto simp: server_run_def keeps_def)

end

interpretation packets: server_invariant "\<lambda>s. \<forall>(k, w) \<in> set (sent s). server_packet w"
  by unfold_locales (auto simp: stable_def)

interpretation registry_wf: server_invariant "\<lambda>s. sessions_wf (whiteboard_sessions s)"
  by unfold_locales (auto simp: stable_def sessions_wf_add sessions_wf_remove)

section \<open>Properties of every run\<close>

text \<open>
  C24: whatever the clients send and whatever the database does, every packet the server
  ever writes has the protocol version in its header, the type the packet object was made
  with, which agrees with the action it carries, and is an action response, a broadcast
  or an id response: one of the three kinds the client accepts.
\<close>

theorem run_sends_server_packets:
  "list_all (\<lambda>(k, w). server_packet w) (sent (snd (server_run E events (server_init d))))"
  using packets.run_keeps [of "server_init d" E events]
  by (simp add: server_init_def list_all_iff)

text \<open>
  In every run the session map keeps no empty session, so a whiteboard counts as
  shared exactly when some socket is in its session: not even the broadcast, which looks
  the map up with operator[], leaves an empty entry behind.
\<close>

theorem run_keeps_registry:
  "sessions_wf (whiteboard_sessions (snd (server_run E events (server_init d)))) \<and>
   (is_whiteboard_shared (whiteboard_sessions (snd (server_run E events (server_init d)))) wid \<longleftrightarrow>
    members (whiteboard_sessions (snd (server_run E events (server_init d)))) wid \<noteq> {})"
  using registry_wf.run_keeps [of "server_init d" E events] shared_iff_members
  by (auto simp: server_init_def sessions_wf_empty)

section \<open>One connection\<close>

text \<open>A handler, run for a live socket, leaves it alive.\<close>

interpretation alive: server_invariant "\<lambda>s. True"
  by unfold_locales (simp_all add: stable_def)

lemma round_alive: "k \<in> live_sockets s \<Longrightarrow> k \<in> live_sockets (snd (connection_round E k r s))"
  using alive.keeps_connection_round [of k E r] by (simp add: keeps_def)

lemma closed_reads: "k \<notin> live_sockets s \<Longrightarrow> server_run E (map (Receive k) rs) s = (Inr (), s)"
  by (induction rs) (simp_all add: server_run_def act_defs)

lemma server_run_Cons:
  "server_run E (ev # evs) s = (case server_event E ev s of
     (Inl e, s') \<Rightarrow> (Inl e, s') | (Inr _, s') \<Rightarrow> server_run E evs s')"
  by (auto simp: server_run_def seq_def bnd_def split: prod.split sum.split)

lemma connection_as_events:
  "k \<in> live_sockets s \<Longrightarrow> handle_connection E k rs s = server_run E (map (Receive k) rs) s"
proof (induction rs arbitrary: s)
  case Nil
  then show ?case by (simp add: handle_connection_def server_run_def act_defs)
next
  case (Cons r rs)
  obtain res t where r: "connection_round E k r s = (res, t)" by fastforce
  with Cons.prems have t: "k \<in> live_sockets t"
    using round_alive [of k s E r] by simp
  show ?case
  proof (cases res)
    case (Inl e)
    with r Cons.prems show ?thesis
      by (cases e) (auto simp: handle_connection_def server_run_Cons act_defs close_socket_def closed_reads)
  next
    case (Inr go_on)
    with r t Cons show ?thesis
      by (cases go_on)
        (auto simp: handle_connection_def server_run_Cons act_defs close_socket_def closed_reads)
  qed
qed

text \<open>
  The loop of a connection over several reads is the sequence of single reads: what
  the server does when the rounds of different connections interleave is described by
  runs of events. (Hypothesis: the connection is open.)
\<close>

theorem connection_is_run_of_reads:
  assumes "k \<in> live_sockets s"
  shows "handle_connection E k rs s = server_run E (map (Receive k) rs) s"
  using assms by (rule connection_as_events)

text \<open>
  No exception escapes a connection: whatever is read, the function returns, except
  when a broadcast uses a stream object that has been destroyed.
\<close>

theorem connection_contains_exceptions:
  "fst (handle_connection E k rs s) = Inr () \<or>
   (\<exists>j. fst (handle_connection E k rs s) = Inl (Dangling_socket j))"
  by (auto simp: handle_connection_def act_defs close_socket_def
      split: prod.split sum.split server_error.split)

text \<open>
  A packet of a type the server has no handler for (among them deleteElement and
  saveWhiteboard, which the client can send) changes nothing and gets no answer, and the
  connection goes on.
\<close>

theorem unhandled_types_ignored:
  assumes "type_of_code (pk_type p) \<notin> Some ` set [T_createWhiteboard, T_createSession,
    T_joinSession, T_quitSession, T_addElement, T_modifyElement, T_loginRequest, T_registerRequest]"
  shows "dispatch E p k s = (Inr (), s)"
  using assms by (cases "type_of_code (pk_type p)")
    (auto simp: dispatch_def ret_def split: packet_type.split)

theorem unhandled_types_ignored_witness:
  "dispatch mem_env (default_packet\<lparr>pk_type := 7\<rparr>) 3 (sample_server {3} {}) =
     (Inr (), sample_server {3} {})"
  by (rule unhandled_types_ignored) (simp add: default_packet_def image_iff)

theorem connection_is_run_of_reads_witness:
  "handle_connection mem_env 3 [Read_eof] (sample_server {3} {}) =
     server_run mem_env [Receive 3 Read_eof] (sample_server {3} {})"
  using connection_is_run_of_reads [of 3 "sample_server {3} {}" mem_env "[Read_eof]"]
  by (simp add: sample_server_def)

text \<open>
  Of the bytes one read delivers, only the first packet is served: whatever follows it
  in the buffer, such as the next request of a client that does not wait for answers, is
  dropped. (Hypotheses: the coded streams of protobuf behave as documented, and the first
  packet serialises and parses.)
\<close>

theorem second_packet_of_a_read_is_dropped:
  assumes "framing_laws (env_rt E)" and "transmits (env_rt E) (wp_packet w)"
  shows "connection_round E k (Read_ok (serialize_coded (env_rt E) w @ rest)) s =
         seq (dispatch E (wp_packet w) k) (ret True) s"
  by (simp add: parse_serialize [OF assms])

theorem second_packet_of_a_read_is_dropped_witness:
  "connection_round mem_env 3 (Read_ok (
       [10, 8, 1, 16, 1, 24, 1, 34, 2, 10, 0, 10] @ [10, 8, 1, 16, 1, 24, 10, 34, 2, 10, 0, 10]))
       (sample_server {3} {}) =
     seq (dispatch mem_env (create_packet 1) 3) (ret True) (sample_server {3} {})"
proof -
  let ?w = "\<lparr>wp_version = 1, wp_type = 1, wp_packet_id = 1, wp_packet = create_packet 1\<rparr>"
  have "serialize_coded sample_rt ?w = [10, 8, 1, 16, 1, 24, 1, 34, 2, 10, 0, 10]"
    by (simp add: serialize_coded_def byte_size_def sample_rt_def table_rt_def sample_table_def
        leb128.simps unat_of_nat)
  then show ?thesis
    using second_packet_of_a_read_is_dropped [of mem_env ?w 3
        "[10, 8, 1, 16, 1, 24, 10, 34, 2, 10, 0, 10]" "sample_server {3} {}"]
    by (simp add: sample_framing sample_transmits del: connection_round.simps)
qed

section \<open>Sockets that are gone\<close>

lemma parse_strings:
  "parse_elements E (map BString ss) = ret (map (parse_element (env_rt E)) ss)"
  by (induction ss) (simp_all add: of_sum_def)

lemma live_sockets_send: "live_sockets (snd (send_packet E k w s)) = live_sockets s"
  by (simp add: send_packet_def)

lemma send_to_dangling:
  assumes "k \<in> set ks" and "k \<notin> live_sockets s"
  shows "\<exists>j \<in> set ks - live_sockets s.
    fst (for_each ks (\<lambda>k. send_packet E k w) s) = Inl (Dangling_socket j)"
  using assms
proof (induction ks arbitrary: s)
  case (Cons c ks)
  show ?case
  proof (cases "c \<in> live_sockets s")
    case False
    then have "fst (for_each (c # ks) (\<lambda>k. send_packet E k w) s) = Inl (Dangling_socket c)"
      by (simp add: send_packet_def act_defs)
    with False show ?thesis by fastforce
  next
    case True
    let ?t = "snd (send_packet E c w s)"
    have "k \<in> set ks" "k \<notin> live_sockets ?t"
      using Cons.prems True by (auto simp: live_sockets_send)
    then obtain j where "j \<in> set ks - live_sockets ?t"
        "fst (for_each ks (\<lambda>k. send_packet E k w) ?t) = Inl (Dangling_socket j)"
      using Cons.IH by blast
    moreover have "send_packet E c w s = (Inr (), ?t)"
      using True by (simp add: send_packet_def)
    ultimately show ?thesis
      by (auto simp: seq_def bnd_def live_sockets_send intro!: bexI [of _ j] split: prod.split)
  qed
qed simp

lemma db_call_find_wb: "find_laws M V \<Longrightarrow> db_call (find_wb M i) s = (Inr (v_wbs V (db s) i), s)"
  by (simp add: find_laws_def db_call_def)

lemma broadcast_to_dangling:
  assumes laws: "find_laws (env_mongo E) V" and wid: "oid_of_string (env_mongo E) wid = Some i"
    and doc: "v_wbs V (db s) i = Some doc" "field doc ''elements'' = Some (BArray (map BString ss))"
    and S: "whiteboard_sessions s wid = Some S" "finite S" and k: "k \<in> S" "k \<notin> live_sockets s"
  shows "\<exists>j. fst (handle_broadcast E wid s) = Inl (Dangling_socket j)"
proof -
  let ?t = "s\<lparr>tick := Suc (tick s)\<rparr>"
  let ?w = "new_broadcast (map (parse_element (env_rt E)) ss)
     (new_wb_packet server_version T_broadcast (env_rand E (tick s)))"
  have "handle_broadcast E wid s = for_each (sorted_list_of_set S) (\<lambda>k. send_packet E k ?w) ?t"
    by (simp add: handle_broadcast_def shared_def is_whiteboard_shared_def S make_oid_def wid
        bnd_def get_st_def ret_def db_call_find_wb [OF laws] doc board_elements_def of_sum_def
        parse_strings draw_def session_sockets_def Let_def)
  then show ?thesis
    using send_to_dangling [of k "sorted_list_of_set S" ?t E ?w] S k by auto
qed



end
