(* ===== verification/Server_Store.thy ===== *)
theory Server_Store
  imports Server_Safety
begin

text \<open>
  The server and its database: what each call of the database does to a state of the
  server under the laws, and the interface \<open>database_invariant\<close>, by which a property of the
  database that every call keeps is a property of every run.
\<close>

section \<open>Database calls under the laws\<close>

text \<open>The number the next user gets.\<close>

definition seq_value :: "nat option \<Rightarrow> nat" where
  "seq_value c = (case c of None \<Rightarrow> 0 | Some n \<Rightarrow> n)"

definition next_uid :: "'db mongo_view \<Rightarrow> 'db \<Rightarrow> nat" where
  "next_uid V d = seq_value (v_seq V d)"

lemma mongo_laws_parts:
  "mongo_laws M V \<Longrightarrow> find_laws M V" "mongo_laws M V \<Longrightarrow> insert_laws M V"
  "mongo_laws M V \<Longrightarrow> update_laws M V"
  by (simp_all add: mongo_laws_def)

lemma db_call_find_user:
  "find_laws M V \<Longrightarrow> db_call (find_user M u) s = (Inr (find (is_user u) (v_users V (db s))), s)"
  by (simp add: find_laws_def db_call_def)

text \<open>The laws, one call each.\<close>

lemma insert_user_law:
  "insert_laws M V \<Longrightarrow> if \<exists>old \<in> set (v_users V d). field old ''_id'' = field doc ''_id''
     then insert_user M doc d = (Inl Exn_mongo, d)
     else (\<exists>d'. insert_user M doc d = (Inr (Some 1), d') \<and> v_users V d' = v_users V d @ [doc] \<and>
       v_wbs V d' = v_wbs V d \<and> v_seq V d' = v_seq V d)"
  by (rule insert_laws_def [THEN iffD1, THEN conjunct2, THEN spec, THEN spec])

lemma insert_wb_law:
  "insert_laws M V \<Longrightarrow> field doc ''_id'' = None \<Longrightarrow>
     \<exists>i d'. insert_wb M doc d = (Inr (Some i), d') \<and> v_wbs V d i = None \<and>
       v_wbs V d' = (v_wbs V d)(i \<mapsto> (''_id'', BOid i) # doc) \<and>
       v_users V d' = v_users V d \<and> v_seq V d' = v_seq V d"
  by (rule insert_laws_def [THEN iffD1, THEN conjunct1, THEN spec, THEN spec, THEN mp])

lemma update_law:
  "update_laws M V \<Longrightarrow> if conflicting us then update_wb M i us d = (Inl Exn_mongo, d)
     else (case v_wbs V d i of
         None \<Rightarrow> update_wb M i us d = (Inr (), d)
       | Some doc \<Rightarrow> (case apply_update us doc of
           None \<Rightarrow> update_wb M i us d = (Inl Exn_mongo, d)
         | Some doc' \<Rightarrow> (\<exists>d'. update_wb M i us d = (Inr (), d') \<and>
             v_wbs V d' = (v_wbs V d)(i \<mapsto> doc') \<and>
             v_users V d' = v_users V d \<and> v_seq V d' = v_seq V d)))"
  by (rule update_laws_def [THEN iffD1, THEN conjunct1, THEN spec, THEN spec, THEN spec])

lemma delete_law:
  "update_laws M V \<Longrightarrow> \<exists>d'. delete_wb M i d = (Inr (), d') \<and> v_wbs V d' = (v_wbs V d)(i := None) \<and>
     v_users V d' = v_users V d \<and> v_seq V d' = v_seq V d"
  by (rule update_laws_def [THEN iffD1, THEN conjunct2, THEN conjunct1, THEN spec, THEN spec])

lemma sequence_law:
  "update_laws M V \<Longrightarrow> \<exists>d'. inc_sequence M d = (Inr (counter_doc (v_seq V d)), d') \<and>
     v_seq V d' = Some (Suc (next_uid V d)) \<and> v_wbs V d' = v_wbs V d \<and> v_users V d' = v_users V d"
  unfolding next_uid_def seq_value_def
  by (rule update_laws_def [THEN iffD1, THEN conjunct2, THEN conjunct2, THEN spec])

text \<open>What a call does to the state of the server.\<close>

lemma db_call_eq: "f (db s) = (r, d') \<Longrightarrow> db_call f s = (r, s\<lparr>db := d'\<rparr>)"
  by (simp add: db_call_def)

lemma db_call_same: "f (db s) = (r, db s) \<Longrightarrow> db_call f s = (r, s)"
  by (simp add: db_call_def)

lemma db_call_insert_user:
  assumes "insert_laws M V" and "\<forall>old \<in> set (v_users V (db s)). field old ''_id'' \<noteq> field doc ''_id''"
  obtains d' where "db_call (insert_user M doc) s = (Inr (Some 1), s\<lparr>db := d'\<rparr>)"
    and "v_users V d' = v_users V (db s) @ [doc]" and "v_wbs V d' = v_wbs V (db s)"
    and "v_seq V d' = v_seq V (db s)"
proof -
  from assms(2) have "\<not> (\<exists>old \<in> set (v_users V (db s)). field old ''_id'' = field doc ''_id'')"
    by blast
  with insert_user_law [OF assms(1), of "db s" doc] obtain d' where
    d': "insert_user M doc (db s) = (Inr (Some 1), d')" "v_users V d' = v_users V (db s) @ [doc]"
      "v_wbs V d' = v_wbs V (db s)" "v_seq V d' = v_seq V (db s)"
    by auto
  show ?thesis by (rule that [OF db_call_eq [of "insert_user M doc", OF d'(1)] d'(2-4)])
qed

lemma db_call_insert_wb:
  assumes "insert_laws M V" and "field doc ''_id'' = None"
  obtains i d' where "db_call (insert_wb M doc) s = (Inr (Some i), s\<lparr>db := d'\<rparr>)"
    and "v_wbs V (db s) i = None"
    and "v_wbs V d' = (v_wbs V (db s))(i \<mapsto> (''_id'', BOid i) # doc)"
    and "v_users V d' = v_users V (db s)" and "v_seq V d' = v_seq V (db s)"
proof -
  from insert_wb_law [OF assms, of "db s"] obtain i d' where
    d': "insert_wb M doc (db s) = (Inr (Some i), d')" "v_wbs V (db s) i = None"
      "v_wbs V d' = (v_wbs V (db s))(i \<mapsto> (''_id'', BOid i) # doc)"
      "v_users V d' = v_users V (db s)" "v_seq V d' = v_seq V (db s)"
    by blast
  show ?thesis by (rule that [OF db_call_eq [of "insert_wb M doc", OF d'(1)] d'(2-5)])
qed

text \<open>An update that selects nothing, one that works, one that is refused.\<close>

lemma db_call_update_none:
  "update_laws M V \<Longrightarrow> \<not> conflicting us \<Longrightarrow> v_wbs V (db s) i = None \<Longrightarrow>
    db_call (update_wb M i us) s = (Inr (), s)"
  using update_law [of M V us i "db s"] by (intro db_call_same) simp

lemma db_call_update_some:
  assumes "update_laws M V" and "v_wbs V (db s) i = Some doc" and "apply_update us doc = Some doc'"
  obtains d' where "db_call (update_wb M i us) s = (Inr (), s\<lparr>db := d'\<rparr>)"
    and "v_wbs V d' = (v_wbs V (db s))(i \<mapsto> doc')"
    and "v_users V d' = v_users V (db s)" and "v_seq V d' = v_seq V (db s)"
proof -
  from assms(3) have "\<not> conflicting us" by (auto simp: apply_update_def split: if_splits)
  with update_law [OF assms(1), of us i "db s"] assms(2,3) obtain d' where
    d': "update_wb M i us (db s) = (Inr (), d')" "v_wbs V d' = (v_wbs V (db s))(i \<mapsto> doc')"
      "v_users V d' = v_users V (db s)" "v_seq V d' = v_seq V (db s)"
    by auto
  show ?thesis by (rule that [OF db_call_eq [of "update_wb M i us", OF d'(1)] d'(2-4)])
qed

lemma db_call_update_conflict:
  "update_laws M V \<Longrightarrow> conflicting us \<Longrightarrow> db_call (update_wb M i us) s = (Inl Exn_mongo, s)"
  using update_law [of M V us i "db s"] by (intro db_call_same) simp

lemma db_call_delete_wb:
  assumes "update_laws M V"
  obtains d' where "db_call (delete_wb M i) s = (Inr (), s\<lparr>db := d'\<rparr>)"
    and "v_wbs V d' = (v_wbs V (db s))(i := None)"
    and "v_users V d' = v_users V (db s)" and "v_seq V d' = v_seq V (db s)"
proof -
  from delete_law [OF assms, of i "db s"] obtain d' where
    d': "delete_wb M i (db s) = (Inr (), d')" "v_wbs V d' = (v_wbs V (db s))(i := None)"
      "v_users V d' = v_users V (db s)" "v_seq V d' = v_seq V (db s)"
    by blast
  show ?thesis by (rule that [OF db_call_eq [of "delete_wb M i", OF d'(1)] d'(2-4)])
qed

lemma getNextSequence_uid:
  assumes "update_laws (env_mongo E) V"
  obtains d' where "getNextSequence E s =
      (if next_uid V (db s) < 2 ^ 31 then Inr (word_of_nat (next_uid V (db s))) else Inl Exn_bson,
       s\<lparr>db := d'\<rparr>)"
    and "v_seq V d' = Some (Suc (next_uid V (db s)))"
    and "v_wbs V d' = v_wbs V (db s)" and "v_users V d' = v_users V (db s)"
proof -
  from sequence_law [OF assms, of "db s"] obtain d' where
    d': "inc_sequence (env_mongo E) (db s) = (Inr (counter_doc (v_seq V (db s))), d')"
      "v_seq V d' = Some (Suc (next_uid V (db s)))" "v_wbs V d' = v_wbs V (db s)"
      "v_users V d' = v_users V (db s)"
    by blast
  have "getNextSequence E s =
      (if next_uid V (db s) < 2 ^ 31 then Inr (word_of_nat (next_uid V (db s))) else Inl Exn_bson,
       s\<lparr>db := d'\<rparr>)"
    using d'(1) by (cases "v_seq V (db s)")
      (simp_all add: getNextSequence_def bnd_def db_call_def counter_doc_def next_uid_def seq_value_def
        of_sum_def ret_def throw_def)
  then show ?thesis by (rule that) (fact d')+
qed

section \<open>The interface of an invariant of the database\<close>

text \<open>What does not touch the database.\<close>

lemma away_from_db:
  "keeps (\<lambda>s. J (db s)) (draw f)"
  "keeps (\<lambda>s. J (db s)) (send_packet E k w)"
  "keeps (\<lambda>s. J (db s)) (respond E k p b msg)"
  "keeps (\<lambda>s. J (db s)) (add_socket wid k)"
  "keeps (\<lambda>s. J (db s)) (remove_socket wid k)"
  "keeps (\<lambda>s. J (db s)) (session_sockets wid)"
  "keeps (\<lambda>s. J (db s)) (close_socket k)"
  by (simp_all add: keeps_def draw_def send_packet_def respond_def add_socket_def remove_socket_def
      session_sockets_def close_socket_def mod_st_def split: option.split)

text \<open>
  A property of the database that the service of one packet keeps is a property of every run.
\<close>

locale dispatch_invariant =
  fixes E :: "'db env" and J :: "'db \<Rightarrow> bool"
  assumes J_dispatch: "keeps (\<lambda>s. J (db s)) (dispatch E p k)"
begin

abbreviation "at_db \<equiv> \<lambda>s. J (db s)"

lemma at_db_connection: "keeps at_db (handle_connection E k rs)"
proof -
  have round: "keeps at_db (connection_round E k r)" for r
    by (cases r) (simp_all add: keeps_intros J_dispatch)
  have "keeps at_db (connection_loop E k rs)"
    by (induction rs) (auto intro!: keeps_intros round)
  then show ?thesis
    unfolding handle_connection_def by (intro keeps_intros away_from_db)
qed

lemma run_keeps: "J (db s) \<Longrightarrow> J (db (snd (server_run E events s)))"
proof -
  have "keeps at_db (server_event E ev)" for ev
    by (cases ev) (auto intro!: keeps_intros keeps_mod_st at_db_connection)
  then show "J (db s) \<Longrightarrow> ?thesis"
    using keeps_for_each [of at_db "server_event E" events] by (simp add: server_run_def keeps_def)
qed

end

text \<open>
  A property of the database kept by each call with the arguments the handlers give it;
  the two handlers that make users are taken whole.
\<close>

locale database_invariant =
  fixes E :: "'db env" and J :: "'db \<Rightarrow> bool"
  assumes J_find_wb: "keeps J (find_wb (env_mongo E) i)"
    and J_find_user: "keeps J (find_user (env_mongo E) u)"
    and J_new_board: "keeps J (insert_wb (env_mongo E)
      [(''uid'', BInt32 x), (''elements'', BArray []), (''created_at'', BDate t)])"
    and J_open: "keeps J (update_wb (env_mongo E) i [SetField ''active_user_ids'' (BArray [BInt32 x])])"
    and J_join: "keeps J (update_wb (env_mongo E) i [AddToSet ''active_user_ids'' (BInt32 x)])"
    and J_leave: "keeps J (update_wb (env_mongo E) i [Pull ''active_user_ids'' (BInt32 x)])"
    and J_delete: "keeps J (delete_wb (env_mongo E) i)"
    and J_push: "keeps J (update_wb (env_mongo E) i [Push ''elements'' (BString e)])"
    and J_modify: "keeps J (update_wb (env_mongo E) i
      [Pull ''elements'' (BString e), Push ''elements'' (BString e')])"
    and J_assign: "keeps (\<lambda>s. J (db s)) (handle_assign_user_id E k)"
    and J_register: "keeps (\<lambda>s. J (db s)) (handle_register_request E p k)"
begin

abbreviation "D \<equiv> \<lambda>s. J (db s)"

lemma lift_db_call: "keeps J f \<Longrightarrow> keeps D (db_call f)"
  by (auto simp: keeps_def db_call_def split: prod.split)

lemmas db_calls = J_find_wb [THEN lift_db_call] J_find_user [THEN lift_db_call]
  J_new_board [THEN lift_db_call] J_open [THEN lift_db_call] J_join [THEN lift_db_call]
  J_leave [THEN lift_db_call] J_delete [THEN lift_db_call] J_push [THEN lift_db_call]
  J_modify [THEN lift_db_call] J_assign J_register

lemma D_broadcast: "keeps D (handle_broadcast E wid)"
  unfolding handle_broadcast_def by (intro keeps_intros db_calls away_from_db)

lemma D_unicast: "keeps D (handle_unicast E wid k)"
  unfolding handle_unicast_def by (intro keeps_intros db_calls away_from_db)

lemma D_handlers:
  "keeps D (handle_create_whiteboard_request E p k)"
  "keeps D (handle_create_session_request E p k)"
  "keeps D (handle_join_session_request E p k)"
  "keeps D (handle_quit_session_request E p k)"
  "keeps D (handle_add_element_request E p k)"
  "keeps D (handle_modify_element_request E p k)"
  "keeps D (handle_login_request E p k)"
  unfolding handle_create_whiteboard_request_def handle_create_session_request_def
    handle_join_session_request_def handle_quit_session_request_def
    handle_add_element_request_def handle_modify_element_request_def handle_login_request_def
  by (intro keeps_intros db_calls away_from_db D_broadcast D_unicast)+

lemma D_dispatch: "keeps D (dispatch E p k)"
proof (cases "type_of_code (pk_type p)")
  case (Some t)
  then show ?thesis
    by (cases t) (simp_all add: dispatch_def keeps_ret D_handlers J_register)
qed (simp add: dispatch_def keeps_ret)

end

sublocale database_invariant \<subseteq> dispatch_invariant E J
  by unfold_locales (rule D_dispatch)

end
