(* ===== verification/Sha256_Props.thy ===== *)
theory Sha256_Props
  imports Sha256_Fips
begin

text \<open>
  The properties of \<open>src/base/utils.cpp\<close>: the class \<open>SHA256\<close> against the standard, its
  bounds, the hexadecimal form of a digest, the random salts and bytes.
\<close>

section \<open>The hash\<close>

text \<open>
  C3: whatever the uninitialised buffer and the result array held, and however the message
  is cut into calls of update, digest returns the SHA-256 of FIPS 180-4 of the whole
  message. (Hypotheses: the two arrays have their declared lengths.)
\<close>

theorem class_computes_fips:
  assumes "length junk = 64" and "length hash = 32"
  shows "fst (digest hash (foldl sha_update (sha_new junk) chunks)) = fips_sha256 (concat chunks)"
proof -
  have "absorbs (foldl sha_update (sha_new junk) chunks) ([] @ concat chunks)"
    by (rule sha.rep_chunks) (rule absorbs_new [OF assms(1)])
  then show ?thesis by (simp add: digest_fips assms(2))
qed

theorem class_computes_fips_witness:
  "fst (digest (replicate 32 1) (foldl sha_update (sha_new (replicate 64 0xAA)) [[0x61], [], [0x62, 0x63]]))
     = fips_sha256 [0x61, 0x62, 0x63]"
  using class_computes_fips [of "replicate 64 0xAA" "replicate 32 1" "[[0x61], [], [0x62, 0x63]]"]
  by simp

lemma absorbs_bounds:
  assumes "absorbs s msg"
  shows "unat (m_blocklen s) = length msg mod 64" and "length (m_data s) = 64"
    and "length (m_state s) = 8" and "m_bitlen s + 8 * ucast (m_blocklen s) = word_of_nat (8 * length msg)"
proof -
  have b: "m_blocklen s = word_of_nat (length msg mod 64)" "m_bitlen s = word_of_nat (512 * (length msg div 64))"
    and l: "length (m_data s) = 64"
    and st: "m_state s = words_of (foldl fips_block fips_H0 (blocks (take (64 * (length msg div 64)) msg)))"
    using assms by (simp_all add: absorbs_def Let_def)
  show u: "unat (m_blocklen s) = length msg mod 64" by (simp add: b)
  show "length (m_data s) = 64" by (fact l)
  show "length (m_state s) = 8" by (simp add: st)
  have "ucast (m_blocklen s) = (word_of_nat (length msg mod 64) :: u64)"
    by (metis u of_nat_unat)
  then have "m_bitlen s + 8 * ucast (m_blocklen s)
      = word_of_nat (512 * (length msg div 64) + 8 * (length msg mod 64))"
    by (simp add: b)
  also have "512 * (length msg div 64) + 8 * (length msg mod 64) = 8 * length msg"
    using mult_div_mod_eq [of 64 "length msg"] by linarith
  finally show "m_bitlen s + 8 * ucast (m_blocklen s) = word_of_nat (8 * length msg)" .
qed

text \<open>
  C34: between calls of update the write index of the buffer is below 64, so that every
  write is inside the array; the arrays keep their lengths, and the two counters together
  hold the number of bits absorbed so far, modulo $2^{64}$. (Hypothesis: the buffer has its
  declared length.)
\<close>

theorem buffer_index_in_bounds:
  assumes "length junk = 64"
  shows "unat (m_blocklen (foldl sha_update (sha_new junk) chunks)) < 64 \<and>
    length (m_data (foldl sha_update (sha_new junk) chunks)) = 64 \<and>
    length (m_state (foldl sha_update (sha_new junk) chunks)) = 8 \<and>
    m_bitlen (foldl sha_update (sha_new junk) chunks)
      + 8 * ucast (m_blocklen (foldl sha_update (sha_new junk) chunks))
      = word_of_nat (8 * length (concat chunks))"
proof -
  have "absorbs (foldl sha_update (sha_new junk) chunks) ([] @ concat chunks)"
    by (rule sha.rep_chunks) (rule absorbs_new [OF assms])
  then show ?thesis by (simp add: absorbs_bounds)
qed

theorem buffer_index_in_bounds_witness:
  "unat (m_blocklen (foldl sha_update (sha_new (replicate 64 7)) [[1, 2, 3], [4]])) < 64"
  using buffer_index_in_bounds [of "replicate 64 7" "[[1, 2, 3], [4]]"] by simp

section \<open>Hexadecimal digests\<close>

lemma hex_digit_in: "n < 16 \<Longrightarrow> hex_digit n \<in> set ''0123456789abcdef''"
  unfolding hex_digit_def by (rule nth_mem) simp

lemma hex_digit_inj: "m < 16 \<Longrightarrow> n < 16 \<Longrightarrow> hex_digit m = hex_digit n \<Longrightarrow> m = n"
  unfolding hex_digit_def by (subst (asm) nth_eq_iff_index_eq) simp_all

lemma u8_div_16: "unat (c :: u8) div 16 < 16"
proof -
  have "unat c < 2 ^ LENGTH(8)" by (rule unsigned_less)
  then show ?thesis by simp
qed

lemma hex_byte_inj: "hex_byte a = hex_byte b \<Longrightarrow> a = b"
proof -
  assume "hex_byte a = hex_byte b"
  then have "unat a div 16 = unat b div 16" "unat a mod 16 = unat b mod 16"
    by (auto simp: hex_byte_def u8_div_16 intro!: hex_digit_inj)
  then have "unat a = unat b" by (metis div_mult_mod_eq)
  then show ?thesis by (rule unsigned_word_eqI)
qed

lemma to_hex_string_map: "length d = 32 \<Longrightarrow> to_hex_string d = concat (map hex_byte d)"
proof -
  assume "length d = 32"
  then have "map (\<lambda>i. hex_byte (d ! i)) [0..<32] = map hex_byte d"
    by (simp add: list_eq_iff_nth_eq)
  then show ?thesis by (simp only: to_hex_string_def)
qed

lemma concat_hex_inj:
  "concat (map hex_byte xs) = concat (map hex_byte ys) \<Longrightarrow> xs = ys"
proof (induction xs arbitrary: ys)
  case Nil
  then show ?case by (cases ys) (simp_all add: hex_byte_def)
next
  case (Cons x xs)
  then obtain y ys' where ys: "ys = y # ys'" by (cases ys) (simp_all add: hex_byte_def)
  with Cons.prems have "hex_byte x @ concat (map hex_byte xs) = hex_byte y @ concat (map hex_byte ys')"
    by simp
  then have "hex_byte x = hex_byte y" "concat (map hex_byte xs) = concat (map hex_byte ys')"
    by (simp_all add: hex_byte_def)
  with Cons.IH [of ys'] ys show ?case by (auto dest: hex_byte_inj)
qed

lemma to_hex_string_eq_iff:
  "length d = 32 \<Longrightarrow> length d' = 32 \<Longrightarrow> to_hex_string d = to_hex_string d' \<longleftrightarrow> d = d'"
  by (auto simp: to_hex_string_map dest: concat_hex_inj)

lemma length_fips_sha256 [simp]: "length (fips_sha256 msg) = 32"
proof -
  have "length (concat (map be32 ws)) = 4 * length ws" for ws
    by (induction ws) (simp_all add: be32_def)
  then show ?thesis by (simp add: fips_sha256_def)
qed

lemma hash_hex_eq_iff:
  "hash_hex x = hash_hex y \<longleftrightarrow> fips_sha256 (bytes_of_string x) = fips_sha256 (bytes_of_string y)"
  by (simp add: hash_hex_fips to_hex_string_eq_iff)

text \<open>
  The stored form of a password hash is 64 characters of the lower-case hexadecimal
  alphabet, and two of them are equal exactly when the SHA-256 digests are: no leading zero
  is lost and no two digests share a string.
\<close>

theorem hash_strings_faithful:
  "length (hash_hex x) = 64 \<and> set (hash_hex x) \<subseteq> set ''0123456789abcdef'' \<and>
   (hash_hex x = hash_hex y \<longleftrightarrow> fips_sha256 (bytes_of_string x) = fips_sha256 (bytes_of_string y))"
proof -
  have "length (concat (map hex_byte d)) = 2 * length d" for d
    by (induction d) (simp_all add: hex_byte_def)
  moreover have "set (hex_byte c) \<subseteq> set ''0123456789abcdef''" for c
    using hex_digit_in [of "unat c div 16"] hex_digit_in [of "unat c mod 16"]
    by (simp add: hex_byte_def u8_div_16)
  then have "set (concat (map hex_byte d)) \<subseteq> set ''0123456789abcdef''" for d
    unfolding set_concat set_map by blast
  ultimately show ?thesis
    using hash_hex_eq_iff [of x y] by (simp add: hash_hex_fips to_hex_string_map)
qed

section \<open>Salts\<close>

lemma generate_random_salt_map: "generate_random_salt dist n = map (\<lambda>i. salt_charset ! dist i) [0..<n]"
proof -
  have "foldl (\<lambda>salt i. salt @ [salt_charset ! dist i]) acc is = acc @ map (\<lambda>i. salt_charset ! dist i) is"
    for acc "is"
    by (induction "is" arbitrary: acc) simp_all
  then show ?thesis by (simp add: generate_random_salt_def)
qed

text \<open>
  A salt has the length asked for and only characters of the 62 of its alphabet, and
  two runs of the generator that differ anywhere give different salts. (Hypotheses: the
  distributions give indices of the alphabet, as they are set up to.)
\<close>

theorem salts_well_formed:
  assumes "\<And>i. i < n \<Longrightarrow> dist i \<le> length salt_charset - 1"
    and "\<And>i. i < n \<Longrightarrow> dist' i \<le> length salt_charset - 1"
  shows "length (generate_random_salt dist n) = n \<and>
    set (generate_random_salt dist n) \<subseteq> set salt_charset \<and>
    (generate_random_salt dist n = generate_random_salt dist' n \<longleftrightarrow> (\<forall>i < n. dist i = dist' i))"
proof -
  have len: "length salt_charset = 62" by (simp add: salt_charset_def)
  have dist: "distinct salt_charset" by (simp add: salt_charset_def)
  have lt: "dist i < length salt_charset" "dist' i < length salt_charset" if "i < n" for i
    using assms(1,2) [OF that] by (simp_all add: len)
  then have "set (generate_random_salt dist n) \<subseteq> set salt_charset"
    by (auto simp: generate_random_salt_map)
  moreover have "generate_random_salt dist n = generate_random_salt dist' n \<longleftrightarrow> (\<forall>i < n. dist i = dist' i)"
    using lt by (auto simp: generate_random_salt_map list_eq_iff_nth_eq nth_eq_iff_index_eq [OF dist])
  ultimately show ?thesis by (simp add: generate_random_salt_map)
qed

theorem salts_well_formed_witness:
  "generate_random_salt (\<lambda>i. 3 * i) 4 = ''0369'' \<and>
   set (generate_random_salt (\<lambda>i. 3 * i) 4) \<subseteq> set salt_charset \<and>
   generate_random_salt (\<lambda>i. 3 * i) 4 \<noteq> generate_random_salt (\<lambda>i. 4 * i) 4"
proof -
  have "(0::nat) < 4 \<and> \<not> (\<forall>i < 4. 3 * i = 4 * (i::nat))" by (auto intro!: exI [of _ 1])
  then show ?thesis
    using salts_well_formed [of 4 "\<lambda>i. 3 * i" "\<lambda>i. 4 * i"]
    by (simp add: salt_charset_def generate_random_salt_def upt_rec)
qed

end
