(* ===== verification/Server_Accounts.thy ===== *)
theory Server_Accounts
  imports Server_Store Sha256_Props "HOL-Library.Sublist"
begin

text \<open>
  Accounts: what registering and logging in do, over any run of the server in between, and
  the invariants of the collection of users (ids and names are unique, nothing is ever
  removed). The interface \<open>account_invariant\<close> reduces an invariant of every run to the one
  call that adds a user.
\<close>

section \<open>The two handlers that add users\<close>

definition account_doc :: "u32 \<Rightarrow> string \<Rightarrow> string \<Rightarrow> string \<Rightarrow> doc" where
  "account_doc uid username salt password = [(''_id'', BInt32 uid), (''username'', BString username),
     (''salt'', BString salt), (''password_hash'', BString (hash_hex (salt @ password)))]"

definition anonymous_doc :: "u32 \<Rightarrow> doc" where
  "anonymous_doc uid = [(''_id'', BInt32 uid), (''username'', BString []), (''password_hash'', BString [])]"

definition salt_of :: "'db env \<Rightarrow> 'db server \<Rightarrow> string" where
  "salt_of E s = generate_random_salt (env_salt E (tick s)) 16"

definition id_answer :: "u32 \<Rightarrow> u32 \<Rightarrow> wb_packet" where
  "id_answer uid packet_id =
     new_temp_id_response True uid (new_wb_packet server_version T_tempIdResponse packet_id)"

lemma field_docs [simp]:
  "field (account_doc uid u salt pw) ''_id'' = Some (BInt32 uid)"
  "field (account_doc uid u salt pw) ''username'' = Some (BString u)"
  "field (account_doc uid u salt pw) ''salt'' = Some (BString salt)"
  "field (account_doc uid u salt pw) ''password_hash'' = Some (BString (hash_hex (salt @ pw)))"
  "field (anonymous_doc uid) ''_id'' = Some (BInt32 uid)"
  "field (anonymous_doc uid) ''username'' = Some (BString [])"
  "field (anonymous_doc uid) ''salt'' = None"
  "field (anonymous_doc uid) ''password_hash'' = Some (BString [])"
  by (simp_all add: account_doc_def anonymous_doc_def)

lemma is_user_account [simp]: "is_user v (account_doc uid u salt pw) \<longleftrightarrow> v = u"
  by (auto simp: is_user_def)

lemma register_taken:
  assumes "find_laws (env_mongo E) V"
    and "find (is_user (acc_username (registerrequest (action_of p)))) (v_users V (db s)) = Some x"
  shows "handle_register_request E p k s = respond E k p False ''Username already exists'' s"
  using assms by (simp add: handle_register_request_def Let_def bnd_at db_call_find_user)

text \<open>The part of registration after the check, from the state in which the salt is drawn.\<close>

definition register_step :: "'db env \<Rightarrow> pb_packet \<Rightarrow> socket \<Rightarrow> string \<Rightarrow> ('db, unit) handler" where
  "register_step E p k salt =
     bnd (getNextSequence E) (\<lambda>uid. try_catch
       (bnd (db_call (insert_user (env_mongo E) (account_doc uid (acc_username (registerrequest (action_of p)))
            salt (acc_password_hash (registerrequest (action_of p)))))) (\<lambda>result.
          case result of
            Some _ \<Rightarrow> send_packet E k (id_answer uid (pk_id p))
          | None \<Rightarrow> respond E k p False ''Failed to register user''))
       (\<lambda>e. case e of
          Dangling_socket j \<Rightarrow> throw e
        | _ \<Rightarrow> respond E k p False ''Exception occurred while registering user''))"

lemma register_free:
  assumes "find_laws (env_mongo E) V"
    and "find (is_user (acc_username (registerrequest (action_of p)))) (v_users V (db s)) = None"
  shows "handle_register_request E p k s = register_step E p k (salt_of E s) (s\<lparr>tick := Suc (tick s)\<rparr>)"
  using assms unfolding register_step_def id_answer_def account_doc_def
  by (simp add: handle_register_request_def Let_def bnd_at [of "db_call f" for f] db_call_find_user
      bnd_at [of "draw f" for f] draw_at salt_of_def)

lemma assign_eq:
  "handle_assign_user_id E k =
     bnd (getNextSequence E) (\<lambda>uid.
     bnd (db_call (insert_user (env_mongo E) (anonymous_doc uid))) (\<lambda>insert_result.
     bnd (draw (env_rand E)) (\<lambda>rid.
     seq (send_packet E k (new_temp_id_response
            (case insert_result of Some n \<Rightarrow> n = 1 | None \<Rightarrow> False) uid
            (new_wb_packet server_version T_tempIdResponse rid)))
         (ret uid))))"
  by (simp add: handle_assign_user_id_def anonymous_doc_def Let_def)

lemma send_outcome: "\<exists>t. send_packet E k w s = (Inr (), t) \<or> send_packet E k w s = (Inl (Dangling_socket k), t)"
  by (auto simp: send_packet_def)

text \<open>
  What adding a user does to the database, in terms of what it held: the counter goes up,
  and one document with the number drawn is added if there is none with that id.
\<close>

definition adds_user :: "'db mongo_view \<Rightarrow> (u32 \<Rightarrow> doc) \<Rightarrow> 'db \<Rightarrow> 'db \<Rightarrow> bool" where
  "adds_user V mk d d' \<longleftrightarrow> v_seq V d' = Some (Suc (next_uid V d)) \<and> v_wbs V d' = v_wbs V d \<and>
     (v_users V d' = v_users V d \<or>
      next_uid V d < 2 ^ 31 \<and>
      (\<forall>old \<in> set (v_users V d). field old ''_id'' \<noteq> field (mk (word_of_nat (next_uid V d))) ''_id'') \<and>
      v_users V d' = v_users V d @ [mk (word_of_nat (next_uid V d))])"

lemma insert_after_sequence:
  assumes laws: "mongo_laws (env_mongo E) V"
    and rest: "\<And>uid r. preserves db (after uid r)"
    and failed: "\<And>e. preserves db (handler e)"
  shows "adds_user V mk (db s) (db (snd (bnd (getNextSequence E) (\<lambda>uid.
      try_catch (bnd (db_call (insert_user (env_mongo E) (mk uid))) (after uid)) handler) s)))"
proof -
  let ?n = "next_uid V (db s)"
  from getNextSequence_uid [OF mongo_laws_parts(3) [OF laws], of s] obtain d1 where
    d1: "getNextSequence E s = (if ?n < 2 ^ 31 then Inr (word_of_nat ?n) else Inl Exn_bson, s\<lparr>db := d1\<rparr>)"
      "v_seq V d1 = Some (Suc ?n)" "v_wbs V d1 = v_wbs V (db s)" "v_users V d1 = v_users V (db s)" .
  show ?thesis
  proof (cases "?n < 2 ^ 31")
    case False
    with d1 show ?thesis by (simp add: bnd_at adds_user_def)
  next
    case True
    let ?s1 = "s\<lparr>db := d1\<rparr>" and ?doc = "mk (word_of_nat ?n)"
    let ?body = "bnd (db_call (insert_user (env_mongo E) ?doc)) (after (word_of_nat ?n))"
    have run: "snd (bnd (getNextSequence E) (\<lambda>uid.
        try_catch (bnd (db_call (insert_user (env_mongo E) (mk uid))) (after uid)) handler) s)
        = snd (try_catch ?body handler ?s1)"
      using d1 True by (simp add: bnd_at)
    have stays: "db (snd (try_catch ?body handler ?s1)) = db (snd (db_call (insert_user (env_mongo E) ?doc) ?s1))"
      by (auto simp: act_at preserves_snd [OF failed] preserves_snd [OF rest]
          dest: preserves_run [OF rest] split: prod.split sum.split)
    show ?thesis
    proof (cases "\<exists>old \<in> set (v_users V d1). field old ''_id'' = field ?doc ''_id''")
      case dup: True
      with insert_user_law [OF mongo_laws_parts(2) [OF laws], of d1 ?doc]
      have "insert_user (env_mongo E) ?doc d1 = (Inl Exn_mongo, d1)" by simp
      with d1 show ?thesis by (simp add: run stays adds_user_def db_call_at)
    next
      case new: False
      then have "\<forall>old \<in> set (v_users V (db ?s1)). field old ''_id'' \<noteq> field ?doc ''_id''" by simp
      from db_call_insert_user [OF mongo_laws_parts(2) [OF laws] this] obtain d2 where
        "db_call (insert_user (env_mongo E) ?doc) ?s1 = (Inr (Some 1), ?s1\<lparr>db := d2\<rparr>)"
        "v_users V d2 = v_users V (db ?s1) @ [?doc]" "v_wbs V d2 = v_wbs V (db ?s1)"
        "v_seq V d2 = v_seq V (db ?s1)" .
      with d1 new True show ?thesis by (simp add: run stays adds_user_def)
    qed
  qed
qed

text \<open>Both handlers, in these terms.\<close>

lemma try_catch_throw: "try_catch f throw = f"
  by (rule ext) (simp add: act_at split: prod.split sum.split)

lemma assign_db:
  assumes "mongo_laws (env_mongo E) V"
  shows "adds_user V anonymous_doc (db s) (db (snd (handle_assign_user_id E k s)))"
  unfolding assign_eq
  by (subst try_catch_throw [symmetric, of "bnd (db_call f) g" for f g], rule insert_after_sequence [OF assms])
    (auto simp: preserves_def intro!: keeps_intros away_from_db)

lemma register_db:
  assumes laws: "mongo_laws (env_mongo E) V"
  shows "if find (is_user (acc_username (registerrequest (action_of p)))) (v_users V (db s)) = None
    then adds_user V (\<lambda>uid. account_doc uid (acc_username (registerrequest (action_of p))) (salt_of E s)
      (acc_password_hash (registerrequest (action_of p)))) (db s) (db (snd (handle_register_request E p k s)))
    else db (snd (handle_register_request E p k s)) = db s"
proof (cases "find (is_user (acc_username (registerrequest (action_of p)))) (v_users V (db s))")
  case None
  let ?s = "s\<lparr>tick := Suc (tick s)\<rparr>"
  have "adds_user V (\<lambda>uid. account_doc uid (acc_username (registerrequest (action_of p))) (salt_of E s)
      (acc_password_hash (registerrequest (action_of p)))) (db ?s) (db (snd (register_step E p k (salt_of E s) ?s)))"
    unfolding register_step_def
    by (rule insert_after_sequence [OF laws])
      (auto simp: preserves_def intro!: keeps_intros away_from_db)
  with None show ?thesis
    by (simp add: register_free [OF mongo_laws_parts(1) [OF laws]])
next
  case (Some x)
  then show ?thesis
    by (simp add: register_taken [OF mongo_laws_parts(1) [OF laws]] respond_def send_packet_def)
qed

text \<open>Registering, when the name is free and the numbers have not run out.\<close>

lemma register_step_new:
  assumes laws: "mongo_laws (env_mongo E) V" and n: "next_uid V (db s) < 2 ^ 31"
    and fresh: "\<forall>old \<in> set (v_users V (db s)). field old ''_id'' \<noteq> Some (BInt32 (word_of_nat (next_uid V (db s))))"
  obtains d' where "register_step E p k salt s =
      send_packet E k (id_answer (word_of_nat (next_uid V (db s))) (pk_id p)) (s\<lparr>db := d'\<rparr>)"
    and "v_users V d' = v_users V (db s) @ [account_doc (word_of_nat (next_uid V (db s)))
      (acc_username (registerrequest (action_of p))) salt (acc_password_hash (registerrequest (action_of p)))]"
    and "v_seq V d' = Some (Suc (next_uid V (db s)))" and "v_wbs V d' = v_wbs V (db s)"
proof -
  let ?uid = "word_of_nat (next_uid V (db s)) :: u32"
  let ?doc = "account_doc ?uid (acc_username (registerrequest (action_of p))) salt
      (acc_password_hash (registerrequest (action_of p)))"
  from getNextSequence_uid [OF mongo_laws_parts(3) [OF laws], of s] n obtain d1 where
    d1: "getNextSequence E s = (Inr ?uid, s\<lparr>db := d1\<rparr>)" "v_seq V d1 = Some (Suc (next_uid V (db s)))"
      "v_wbs V d1 = v_wbs V (db s)" "v_users V d1 = v_users V (db s)"
    by auto
  have "\<forall>old \<in> set (v_users V (db (s\<lparr>db := d1\<rparr>))). field old ''_id'' \<noteq> field ?doc ''_id''"
    using fresh d1 by simp
  from db_call_insert_user [OF mongo_laws_parts(2) [OF laws] this] obtain d2 where
    d2: "db_call (insert_user (env_mongo E) ?doc) (s\<lparr>db := d1\<rparr>) = (Inr (Some 1), s\<lparr>db := d1\<rparr>\<lparr>db := d2\<rparr>)"
      "v_users V d2 = v_users V (db (s\<lparr>db := d1\<rparr>)) @ [?doc]" "v_wbs V d2 = v_wbs V (db (s\<lparr>db := d1\<rparr>))"
      "v_seq V d2 = v_seq V (db (s\<lparr>db := d1\<rparr>))" .
  have "register_step E p k salt s = send_packet E k (id_answer ?uid (pk_id p)) (s\<lparr>db := d2\<rparr>)"
    using d1(1) d2(1) send_outcome [of E k "id_answer ?uid (pk_id p)" "s\<lparr>db := d2\<rparr>"]
    by (auto simp: register_step_def act_at)
  with d1 d2 show ?thesis by (intro that [of d2]) simp_all
qed

text \<open>Logging in to an account that \<open>register\<close> has made.\<close>

lemma login_account:
  assumes "find_laws (env_mongo E) V"
    and "find (is_user (acc_username (loginrequest (action_of q)))) (v_users V (db s)) =
      Some (account_doc uid u salt pw)"
  shows "handle_login_request E q k s =
    (if fips_sha256 (bytes_of_string (salt @ acc_password_hash (loginrequest (action_of q))))
        = fips_sha256 (bytes_of_string (salt @ pw))
     then send_packet E k (id_answer uid (pk_id q)) s
     else respond E k q False ''Invalid username or password'' s)"
  using assms hash_hex_eq_iff
  by (simp add: handle_login_request_def Let_def bnd_at db_call_find_user of_sum_def ret_at id_answer_def)

lemma login_unknown:
  assumes "find_laws (env_mongo E) V"
    and "find (is_user (acc_username (loginrequest (action_of q)))) (v_users V (db s)) = None"
  shows "handle_login_request E q k s = respond E k q False ''User not exist'' s"
  using assms by (simp add: handle_login_request_def Let_def bnd_at db_call_find_user)

lemma login_anonymous:
  assumes "find_laws (env_mongo E) V"
    and "find (is_user (acc_username (loginrequest (action_of q)))) (v_users V (db s)) = Some (anonymous_doc uid)"
  shows "handle_login_request E q k s = (Inr (), s)"
  using assms
  by (simp add: handle_login_request_def Let_def bnd_at db_call_find_user of_sum_def ret_at)

section \<open>The interface of an invariant of the users\<close>

text \<open>
  A property of the collection of users and of the counter, kept when a number is drawn and
  when a user with that number is added.
\<close>

locale account_invariant =
  fixes E :: "'db env" and V :: "'db mongo_view" and Q :: "doc list \<Rightarrow> nat option \<Rightarrow> bool"
  assumes Q_draw: "Q us c \<Longrightarrow> Q us (Some (Suc (seq_value c)))"
    and Q_add: "Q us (Some (Suc n)) \<Longrightarrow> n < 2 ^ 31 \<Longrightarrow>
      \<forall>old \<in> set us. field old ''_id'' \<noteq> field doc ''_id'' \<Longrightarrow>
      field doc ''_id'' = Some (BInt32 (word_of_nat n)) \<Longrightarrow>
      field doc ''username'' = Some (BString u) \<Longrightarrow> u = [] \<or> find (is_user u) us = None \<Longrightarrow>
      Q (us @ [doc]) (Some (Suc n))"
begin

abbreviation "J \<equiv> \<lambda>d. mongo_laws (env_mongo E) V \<longrightarrow> Q (v_users V d) (v_seq V d)"

lemma J_adds_user:
  assumes "mongo_laws (env_mongo E) V" and "adds_user V mk d d'" and "Q (v_users V d) (v_seq V d)"
    and "\<And>uid. field (mk uid) ''_id'' = Some (BInt32 uid)"
    and "\<And>uid. field (mk uid) ''username'' = Some (BString u)"
    and "u = [] \<or> find (is_user u) (v_users V d) = None"
  shows "Q (v_users V d') (v_seq V d')"
proof -
  have drawn: "Q (v_users V d) (Some (Suc (next_uid V d)))"
    using Q_draw [OF assms(3)] by (simp add: next_uid_def)
  with assms(2) show ?thesis
    unfolding adds_user_def using Q_add [OF drawn _ _ assms(4) assms(5) assms(6)] by auto
qed

lemma J_same: "v_users V d' = v_users V d \<Longrightarrow> v_seq V d' = v_seq V d \<Longrightarrow> J d \<Longrightarrow> J d'"
  by simp

lemma J_update: "keeps J (update_wb (env_mongo E) i us)"
proof (rule keepsI)
  fix d assume J: "J d"
  show "J (snd (update_wb (env_mongo E) i us d))"
  proof (cases "mongo_laws (env_mongo E) V")
    case True
    from update_law [OF mongo_laws_parts(3) [OF True], of us i d] J show ?thesis
      by (auto split: if_splits option.splits)
  qed simp
qed

lemma J_register_request: "keeps (\<lambda>s. J (db s)) (handle_register_request E p k)"
proof (rule keepsI, rule impI)
  fix s :: "'db server" assume J: "J (db s)" and laws: "mongo_laws (env_mongo E) V"
  from register_db [OF laws, of p s k] J laws
  show "Q (v_users V (db (snd (handle_register_request E p k s))))
          (v_seq V (db (snd (handle_register_request E p k s))))"
    by (auto split: if_splits intro: J_adds_user)
qed

lemma J_assign_user_id: "keeps (\<lambda>s. J (db s)) (handle_assign_user_id E k)"
proof (rule keepsI, rule impI)
  fix s :: "'db server" assume J: "J (db s)" and laws: "mongo_laws (env_mongo E) V"
  with assign_db [OF laws, of s k] show "Q (v_users V (db (snd (handle_assign_user_id E k s))))
      (v_seq V (db (snd (handle_assign_user_id E k s))))"
    by (auto intro: J_adds_user)
qed

lemma J_find: "keeps J (find_wb (env_mongo E) i)" "keeps J (find_user (env_mongo E) u)"
  by (auto simp: keeps_def find_laws_def dest!: mongo_laws_parts(1))

lemma J_delete: "keeps J (delete_wb (env_mongo E) i)"
proof (rule keepsI, rule impI)
  fix d assume J: "J d" and laws: "mongo_laws (env_mongo E) V"
  from delete_law [OF mongo_laws_parts(3) [OF laws], of i d] J laws
  show "Q (v_users V (snd (delete_wb (env_mongo E) i d))) (v_seq V (snd (delete_wb (env_mongo E) i d)))"
    by auto
qed

lemma J_insert: "field doc ''_id'' = None \<Longrightarrow> keeps J (insert_wb (env_mongo E) doc)"
proof (rule keepsI, rule impI)
  fix d assume doc: "field doc ''_id'' = None" and J: "J d" and laws: "mongo_laws (env_mongo E) V"
  from insert_wb_law [OF mongo_laws_parts(2) [OF laws] doc, of d] J laws
  show "Q (v_users V (snd (insert_wb (env_mongo E) doc d))) (v_seq V (snd (insert_wb (env_mongo E) doc d)))"
    by auto
qed

end

sublocale account_invariant \<subseteq> users: database_invariant E J
  by unfold_locales (simp_all add: J_find J_update J_delete J_insert J_assign_user_id J_register_request)

section \<open>The invariants of the users\<close>

text \<open>
  Every id is a number below the counter and none is used twice; no name but the empty one
  (that of the anonymous users) is used twice.
\<close>

definition wf_users :: "doc list \<Rightarrow> nat option \<Rightarrow> bool" where
  "wf_users us c \<longleftrightarrow> distinct (map (\<lambda>u. field u ''_id'') us) \<and>
     (\<forall>u \<in> set us. \<exists>j < seq_value c. j < 2 ^ 31 \<and> field u ''_id'' = Some (BInt32 (word_of_nat j))) \<and>
     (\<forall>name. name \<noteq> [] \<longrightarrow> length (filter (is_user name) us) \<le> 1)"

lemma seq_value_Some [simp]: "seq_value (Some n) = n"
  by (simp add: seq_value_def)

lemma find_None_filter: "find P xs = None \<longleftrightarrow> filter P xs = []"
  by (auto simp: find_None_iff filter_empty_conv)

lemma find_append_Some: "find P xs = None \<Longrightarrow> P x \<Longrightarrow> find P ((xs @ [x]) @ ys) = Some x"
  by (induction xs) (simp_all split: if_splits)

lemma wf_users_mono: "wf_users us c \<Longrightarrow> seq_value c \<le> seq_value c' \<Longrightarrow> wf_users us c'"
  unfolding wf_users_def by (meson order_less_le_trans)

interpretation accounts: account_invariant E V wf_users for E :: "'db env" and V
proof unfold_locales
  fix us c assume "wf_users us c"
  then show "wf_users us (Some (Suc (seq_value c)))"
    by (rule wf_users_mono) simp
next
  fix us n doc u
  assume "wf_users us (Some (Suc n))" "n < 2 ^ 31" "\<forall>old \<in> set us. field old ''_id'' \<noteq> field doc ''_id''"
    "field doc ''_id'' = Some (BInt32 (word_of_nat n))" "field doc ''username'' = Some (BString u)"
    "u = [] \<or> find (is_user u) us = None"
  then show "wf_users (us @ [doc]) (Some (Suc n))"
    by (auto simp: wf_users_def is_user_def find_None_filter)
qed

interpretation history: account_invariant E V "\<lambda>us c. prefix us0 us" for E :: "'db env" and V and us0
  by unfold_locales simp_all

lemma wf_users_fresh:
  assumes "wf_users us c" and "seq_value c < 2 ^ 31"
  shows "\<forall>old \<in> set us. field old ''_id'' \<noteq> Some (BInt32 (word_of_nat (seq_value c)))"
proof -
  have "word_of_nat j \<noteq> (word_of_nat (seq_value c) :: u32)" if "j < seq_value c" for j
    using that assms(2) by (simp add: word_unat_eq_iff unat_of_nat)
  with assms(1) show ?thesis by (force simp: wf_users_def)
qed

section \<open>Properties\<close>


lemma mem_env_laws: "mongo_laws (env_mongo mem_env) mem_view"
  by (simp add: mem_mongo_laws)


text \<open>Registering, any run, then logging in.\<close>

lemma registered_login:
  assumes laws: "mongo_laws (env_mongo E) V" and wf: "wf_users (v_users V (db s)) (v_seq V (db s))"
    and n: "next_uid V (db s) < 2 ^ 31"
    and free: "find (is_user (acc_username (registerrequest (action_of p)))) (v_users V (db s)) = None"
    and name: "acc_username (loginrequest (action_of q)) = acc_username (registerrequest (action_of p))"
  shows "(\<exists>d'. handle_register_request E p k s = send_packet E k
        (id_answer (word_of_nat (next_uid V (db s))) (pk_id p)) (s\<lparr>tick := Suc (tick s), db := d'\<rparr>)) \<and>
    (let s1 = snd (handle_register_request E p k s); s2 = snd (server_run E events s1) in
     handle_login_request E q k2 s2 =
      (if fips_sha256 (bytes_of_string (salt_of E s @ acc_password_hash (loginrequest (action_of q))))
          = fips_sha256 (bytes_of_string (salt_of E s @ acc_password_hash (registerrequest (action_of p))))
       then send_packet E k2 (id_answer (word_of_nat (next_uid V (db s))) (pk_id q)) s2
       else respond E k2 q False ''Invalid username or password'' s2))"
proof -
  let ?u = "acc_username (registerrequest (action_of p))" and ?t = "s\<lparr>tick := Suc (tick s)\<rparr>"
  let ?doc = "account_doc (word_of_nat (next_uid V (db s))) ?u (salt_of E s)
     (acc_password_hash (registerrequest (action_of p)))"
  have fresh: "\<forall>old \<in> set (v_users V (db ?t)). field old ''_id'' \<noteq> Some (BInt32 (word_of_nat (next_uid V (db ?t))))"
    using wf_users_fresh [OF wf] n by (simp add: next_uid_def)
  from register_step_new [OF laws _ fresh, of p k "salt_of E s"] n obtain d' where
    step: "register_step E p k (salt_of E s) ?t =
      send_packet E k (id_answer (word_of_nat (next_uid V (db s))) (pk_id p)) (?t\<lparr>db := d'\<rparr>)"
    and users: "v_users V d' = v_users V (db s) @ [?doc]"
    by auto
  have reg: "handle_register_request E p k s = send_packet E k
      (id_answer (word_of_nat (next_uid V (db s))) (pk_id p)) (s\<lparr>tick := Suc (tick s), db := d'\<rparr>)"
    using register_free [OF mongo_laws_parts(1) [OF laws] free, of k] step by simp
  define s1 where "s1 = snd (handle_register_request E p k s)"
  define s2 where "s2 = snd (server_run E events s1)"
  have "db s1 = d'" by (simp add: s1_def reg send_packet_def)
  with users laws have "prefix (v_users V (db s) @ [?doc]) (v_users V (db s2))"
    using history.users.run_keeps [of E V "v_users V (db s) @ [?doc]" s1 events] by (simp add: s2_def)
  then have "find (is_user ?u) (v_users V (db s2)) = Some ?doc"
    using find_append_Some [OF free, of ?doc] by (auto simp: prefix_def)
  then have "handle_login_request E q k2 s2 =
      (if fips_sha256 (bytes_of_string (salt_of E s @ acc_password_hash (loginrequest (action_of q))))
          = fips_sha256 (bytes_of_string (salt_of E s @ acc_password_hash (registerrequest (action_of p))))
       then send_packet E k2 (id_answer (word_of_nat (next_uid V (db s))) (pk_id q)) s2
       else respond E k2 q False ''Invalid username or password'' s2)"
    by (intro login_account) (simp_all add: mongo_laws_parts [OF laws] name)
  with reg show ?thesis by (auto simp: s1_def s2_def Let_def)
qed

text \<open>
  C2: registering a free name draws the next number, answers with it, and from then on,
  after any run of the server, a login under that name is answered with the same number
  exactly when the SHA-256 of the salt followed by the offered password is that of the salt
  followed by the registered one, in particular when the passwords are equal, and with a
  refusal otherwise. (Hypotheses: the laws of the database, distinct accounts, a number
  that fits in 32 bits, the name is free, the login names the same user.)
\<close>

theorem register_then_login:
  assumes laws: "mongo_laws (env_mongo E) V" and wf: "wf_users (v_users V (db s)) (v_seq V (db s))"
    and n: "next_uid V (db s) < 2 ^ 31"
    and free: "find (is_user (acc_username (registerrequest (action_of p)))) (v_users V (db s)) = None"
    and name: "acc_username (loginrequest (action_of q)) = acc_username (registerrequest (action_of p))"
  shows "(\<exists>d'. handle_register_request E p k s = send_packet E k
        (id_answer (word_of_nat (next_uid V (db s))) (pk_id p)) (s\<lparr>tick := Suc (tick s), db := d'\<rparr>)) \<and>
    (let s1 = snd (handle_register_request E p k s); s2 = snd (server_run E events s1) in
     handle_login_request E q k2 s2 =
      (if fips_sha256 (bytes_of_string (salt_of E s @ acc_password_hash (loginrequest (action_of q))))
          = fips_sha256 (bytes_of_string (salt_of E s @ acc_password_hash (registerrequest (action_of p))))
       then send_packet E k2 (id_answer (word_of_nat (next_uid V (db s))) (pk_id q)) s2
       else respond E k2 q False ''Invalid username or password'' s2))"
  by (rule registered_login [OF assms])

definition register_packet :: "string \<Rightarrow> string \<Rightarrow> pb_packet" where
  "register_packet u pw = \<lparr>pk_version = 1, pk_type = 9, pk_id = 5,
     pk_action = Some (ActRegister \<lparr>acc_username = u, acc_password_hash = pw\<rparr>)\<rparr>"

definition login_packet :: "string \<Rightarrow> string \<Rightarrow> pb_packet" where
  "login_packet u pw = \<lparr>pk_version = 1, pk_type = 10, pk_id = 6,
     pk_action = Some (ActLogin \<lparr>acc_username = u, acc_password_hash = pw\<rparr>)\<rparr>"

lemma account_packets [simp]:
  "registerrequest (action_of (register_packet u pw)) = \<lparr>acc_username = u, acc_password_hash = pw\<rparr>"
  "loginrequest (action_of (login_packet u pw)) = \<lparr>acc_username = u, acc_password_hash = pw\<rparr>"
  "pk_id (register_packet u pw) = 5" "pk_id (login_packet u pw) = 6"
  by (simp_all add: register_packet_def login_packet_def action_of_def)

theorem register_then_login_witness:
  "let s1 = snd (handle_register_request mem_env (register_packet ''ann'' ''pw'') 3 ((server_init mem_empty)\<lparr>live_sockets := {3}\<rparr>));
       s2 = snd (server_run mem_env [Connect 4, Receive 3 Read_eof] s1)
   in handle_login_request mem_env (login_packet ''ann'' ''pw'') 4 s2 = send_packet mem_env 4 (id_answer 0 6) s2"
  using register_then_login [OF mem_env_laws, of "(server_init mem_empty)\<lparr>live_sockets := {3}\<rparr>"
      "register_packet ''ann'' ''pw''" "login_packet ''ann'' ''pw''" 3 "[Connect 4, Receive 3 Read_eof]" 4]
  by (simp add: server_init_def mem_empty_def mem_view_def wf_users_def next_uid_def seq_value_def Let_def)

text \<open>
  Registering a name that is taken is refused with an answer and changes nothing else:
  no number is drawn and no user is stored. (Hypotheses: finds answer as documented, and a
  user of that name is stored.)
\<close>

theorem duplicate_name_refused:
  assumes "find_laws (env_mongo E) V"
    and "find (is_user (acc_username (registerrequest (action_of p)))) (v_users V (db s)) = Some x"
  shows "handle_register_request E p k s = respond E k p False ''Username already exists'' s \<and>
    db (snd (handle_register_request E p k s)) = db s"
  using register_taken [OF assms, of k] by (simp add: respond_def send_packet_def)

theorem duplicate_name_refused_witness:
  "let s = (server_init (mem_empty\<lparr>mem_users := [account_doc 0 ''ann'' ''salt'' ''pw'']\<rparr>))\<lparr>live_sockets := {3}\<rparr>
   in handle_register_request mem_env (register_packet ''ann'' ''other'') 3 s
      = respond mem_env 3 (register_packet ''ann'' ''other'') False ''Username already exists'' s"
  using duplicate_name_refused [OF mongo_laws_parts(1) [OF mem_env_laws], of "register_packet ''ann'' ''other''"
      "(server_init (mem_empty\<lparr>mem_users := [account_doc 0 ''ann'' ''salt'' ''pw'']\<rparr>))\<lparr>live_sockets := {3}\<rparr>"]
  by (simp add: server_init_def mem_empty_def mem_view_def Let_def)

text \<open>
  The counter is read as a 32-bit integer: once $2^{31}$ numbers have been drawn,
  registering throws before the try block is entered, stores no user, and sends nothing.
  (Hypotheses: the laws of the database, the numbers have run out, the name is free.)
\<close>

theorem numbers_run_out:
  assumes "mongo_laws (env_mongo E) V" and "2 ^ 31 \<le> next_uid V (db s)"
    and "find (is_user (acc_username (registerrequest (action_of p)))) (v_users V (db s)) = None"
  shows "fst (handle_register_request E p k s) = Inl Exn_bson \<and>
    v_users V (db (snd (handle_register_request E p k s))) = v_users V (db s) \<and>
    sent (snd (handle_register_request E p k s)) = sent s"
proof -
  let ?t = "s\<lparr>tick := Suc (tick s)\<rparr>"
  from getNextSequence_uid [OF mongo_laws_parts(3) [OF assms(1)], of ?t] obtain d' where
    d': "getNextSequence E ?t = (if next_uid V (db ?t) < 2 ^ 31 then Inr (word_of_nat (next_uid V (db ?t)))
      else Inl Exn_bson, ?t\<lparr>db := d'\<rparr>)" "v_users V d' = v_users V (db ?t)" .
  with assms(2) have "register_step E p k (salt_of E s) ?t = (Inl Exn_bson, ?t\<lparr>db := d'\<rparr>)"
    by (simp add: register_step_def bnd_at)
  with d' show ?thesis
    by (simp add: register_free [OF mongo_laws_parts(1) [OF assms(1)] assms(3)])
qed

theorem numbers_run_out_witness:
  "fst (handle_register_request mem_env (register_packet ''ann'' ''pw'') 3
     (server_init (mem_empty\<lparr>mem_seq := Some (2 ^ 31)\<rparr>))) = Inl Exn_bson"
  using numbers_run_out [OF mem_env_laws, of "server_init (mem_empty\<lparr>mem_seq := Some (2 ^ 31)\<rparr>)"
      "register_packet ''ann'' ''pw''" 3]
  by (simp add: server_init_def mem_empty_def mem_view_def next_uid_def seq_value_def)

text \<open>
  A login under a name nobody has is refused with an answer, but one under the empty
  name, once an anonymous user exists, gets no answer at all: the stored user has no salt,
  and the handler has no branch for that. (Hypotheses: finds answer as documented; what the
  find returns.)
\<close>

theorem login_unknown_and_anonymous:
  assumes "find_laws (env_mongo E) V"
    and "find (is_user (acc_username (loginrequest (action_of q)))) (v_users V (db s)) = r"
    and "r = None \<or> r = Some (anonymous_doc uid)"
  shows "handle_login_request E q k s =
    (if r = None then respond E k q False ''User not exist'' s else (Inr (), s))"
  using assms login_unknown [of E V q s k] login_anonymous [of E V q s uid k] by auto

theorem login_unknown_and_anonymous_witness:
  "let s = snd (handle_assign_user_id mem_env 3 ((server_init mem_empty)\<lparr>live_sockets := {3}\<rparr>))
   in handle_login_request mem_env (login_packet [] ''x'') 3 s = (Inr (), s)"
proof -
  let ?s = "snd (handle_assign_user_id mem_env 3 ((server_init mem_empty)\<lparr>live_sockets := {3}\<rparr>))"
  have "mem_users (db ?s) = [anonymous_doc 0]"
    by (simp add: assign_eq act_at getNextSequence_def db_call_def mem_mongo_def mem_empty_def
        server_init_def counter_doc_def send_packet_def mem_env_def)
  then show ?thesis
    using login_unknown_and_anonymous [OF mongo_laws_parts(1) [OF mem_env_laws], of "login_packet [] ''x''" ?s
        "Some (anonymous_doc 0)" 0 3]
    by (simp add: mem_view_def is_user_def Let_def)
qed

end
