(* ===== verification/Server_Boards.thy ===== *)
theory Server_Boards
  imports Server_Accounts
begin

text \<open>
  Whiteboards and their sessions: a specification on typed boards, what each handler does in
  its terms (database, session map and answer), the refinement of every run, and the
  invariants it gives. The properties are in \<open>Board_Props\<close>.
\<close>

section \<open>The specification\<close>

text \<open>An owner, the serialised elements, and the active users once a session was opened.\<close>

record board =
  b_owner :: u32
  b_elems :: "string list"
  b_active :: "u32 list option"

type_synonym boards = "oid \<Rightarrow> board option"

definition new_board :: "u32 \<Rightarrow> board" where
  "new_board uid = \<lparr>b_owner = uid, b_elems = [], b_active = None\<rparr>"

definition add_user :: "u32 \<Rightarrow> u32 list \<Rightarrow> u32 list" where
  "add_user uid xs = (if uid \<in> set xs then xs else xs @ [uid])"

definition may_add :: "board \<Rightarrow> u32 \<Rightarrow> bool" where
  "may_add b uid \<longleftrightarrow> b_owner b = uid \<or> (case b_active b of None \<Rightarrow> False | Some xs \<Rightarrow> uid \<in> set xs)"

definition spec_open :: "u32 \<Rightarrow> oid \<Rightarrow> boards \<Rightarrow> boards" where
  "spec_open uid i B = (case B i of None \<Rightarrow> B | Some b \<Rightarrow>
     if b_owner b = uid then B(i \<mapsto> b\<lparr>b_active := Some [uid]\<rparr>) else B)"

definition spec_join :: "u32 \<Rightarrow> oid \<Rightarrow> boards \<Rightarrow> boards" where
  "spec_join uid i B = (case B i of None \<Rightarrow> B | Some b \<Rightarrow>
     (case b_active b of None \<Rightarrow> B | Some xs \<Rightarrow> B(i \<mapsto> b\<lparr>b_active := Some (add_user uid xs)\<rparr>)))"

definition spec_quit :: "u32 \<Rightarrow> oid \<Rightarrow> boards \<Rightarrow> boards" where
  "spec_quit uid i B = (case B i of None \<Rightarrow> B | Some b \<Rightarrow>
     (case b_active b of None \<Rightarrow> B | Some xs \<Rightarrow>
        (case filter (\<lambda>x. x \<noteq> uid) xs of
           [] \<Rightarrow> B(i := None)
         | x # rest \<Rightarrow> B(i \<mapsto> b\<lparr>b_active := Some (x # rest)\<rparr>))))"

definition spec_add :: "u32 \<Rightarrow> string \<Rightarrow> oid \<Rightarrow> boards \<Rightarrow> boards" where
  "spec_add uid e i B = (case B i of None \<Rightarrow> B | Some b \<Rightarrow>
     if may_add b uid then B(i \<mapsto> b\<lparr>b_elems := b_elems b @ [e]\<rparr>) else B)"

text \<open>The document of a board, and a database that holds the boards.\<close>

definition represents :: "doc \<Rightarrow> board \<Rightarrow> bool" where
  "represents d b \<longleftrightarrow> field d ''uid'' = Some (BInt32 (b_owner b)) \<and>
     field d ''elements'' = Some (BArray (map BString (b_elems b))) \<and>
     field d ''active_user_ids'' = map_option (\<lambda>xs. BArray (map BInt32 xs)) (b_active b)"

definition holds :: "'db mongo_view \<Rightarrow> 'db \<Rightarrow> boards \<Rightarrow> bool" where
  "holds V d B \<longleftrightarrow> (\<forall>i. rel_option represents (v_wbs V d i) (B i))"

section \<open>Updates of documents\<close>

lemma represents_fields:
  "represents d b \<Longrightarrow> field d ''uid'' = Some (BInt32 (b_owner b))"
  "represents d b \<Longrightarrow> field d ''elements'' = Some (BArray (map BString (b_elems b)))"
  "represents d b \<Longrightarrow> b_active b = None \<Longrightarrow> field d ''active_user_ids'' = None"
  "represents d b \<Longrightarrow> b_active b = Some xs \<Longrightarrow> field d ''active_user_ids'' = Some (BArray (map BInt32 xs))"
  by (simp_all add: represents_def)

lemma single_op: "apply_update [u] d = apply_op u d"
  by (simp add: apply_update_def conflicting_def split: option.split)

lemma filter_BInt32: "filter (\<lambda>x. x \<noteq> BInt32 uid) (map BInt32 xs) = map BInt32 (filter (\<lambda>x. x \<noteq> uid) xs)"
  by (induction xs) simp_all

lemma update_open:
  "represents d b \<Longrightarrow> \<exists>d'. apply_update [SetField ''active_user_ids'' (BArray [BInt32 uid])] d = Some d' \<and>
     represents d' (b\<lparr>b_active := Some [uid]\<rparr>)"
  by (simp add: single_op represents_def)

lemma update_join:
  "represents d b \<Longrightarrow> b_active b = Some xs \<Longrightarrow>
     \<exists>d'. apply_update [AddToSet ''active_user_ids'' (BInt32 uid)] d = Some d' \<and>
     represents d' (b\<lparr>b_active := Some (add_user uid xs)\<rparr>)"
  by (auto simp: single_op represents_def add_user_def)

lemma update_quit:
  "represents d b \<Longrightarrow> \<exists>d'. apply_update [Pull ''active_user_ids'' (BInt32 uid)] d = Some d' \<and>
     represents d' (b\<lparr>b_active := map_option (filter (\<lambda>x. x \<noteq> uid)) (b_active b)\<rparr>)"
  by (cases "b_active b") (simp_all add: single_op represents_def filter_BInt32)

lemma update_add:
  "represents d b \<Longrightarrow> \<exists>d'. apply_update [Push ''elements'' (BString e)] d = Some d' \<and>
     represents d' (b\<lparr>b_elems := b_elems b @ [e]\<rparr>)"
  by (simp add: single_op represents_def)

lemma holds_find:
  assumes "holds V d B"
  shows "v_wbs V d i = None \<longleftrightarrow> B i = None"
    and "B i = Some b \<Longrightarrow> \<exists>doc. v_wbs V d i = Some doc \<and> represents doc b"
  using assms [unfolded holds_def, rule_format, of i]
  by (auto elim: option.rel_cases)

lemma holds_upd: "holds V d B \<Longrightarrow> v_wbs V d' = (v_wbs V d)(i \<mapsto> doc) \<Longrightarrow> represents doc b \<Longrightarrow> holds V d' (B(i \<mapsto> b))"
  by (simp add: holds_def)

lemma holds_del: "holds V d B \<Longrightarrow> v_wbs V d' = (v_wbs V d)(i := None) \<Longrightarrow> holds V d' (B(i := None))"
  by (simp add: holds_def)

lemma holds_same: "holds V d B \<Longrightarrow> v_wbs V d' = v_wbs V d \<Longrightarrow> holds V d' B"
  by (simp add: holds_def)

text \<open>What the calls do to a state that holds boards.\<close>

lemma find_board:
  assumes "find_laws M V" and "holds V (db s) B" and "B i = Some b"
  obtains doc where "db_call (find_wb M i) s = (Inr (Some doc), s)" and "represents doc b"
  using holds_find(2) [OF assms(2,3)] db_call_find_wb [OF assms(1), of i s] by auto

lemma find_no_board:
  "find_laws M V \<Longrightarrow> holds V (db s) B \<Longrightarrow> B i = None \<Longrightarrow> db_call (find_wb M i) s = (Inr None, s)"
  using holds_find(1) [of V "db s" B i] by (simp add: db_call_find_wb)

lemma update_board:
  assumes "update_laws M V" and "holds V (db s) B" and "B i = Some b"
    and "\<And>doc. represents doc b \<Longrightarrow> \<exists>doc'. apply_update us doc = Some doc' \<and> represents doc' b'"
  obtains d' where "db_call (update_wb M i us) s = (Inr (), s\<lparr>db := d'\<rparr>)" and "holds V d' (B(i \<mapsto> b'))"
proof -
  obtain doc where doc: "v_wbs V (db s) i = Some doc" "represents doc b"
    using holds_find(2) [OF assms(2,3)] by blast
  with assms(4) obtain doc' where doc': "apply_update us doc = Some doc'" "represents doc' b'" by blast
  from db_call_update_some [OF assms(1) doc(1) doc'(1)] obtain d' where
    "db_call (update_wb M i us) s = (Inr (), s\<lparr>db := d'\<rparr>)" "v_wbs V d' = (v_wbs V (db s))(i \<mapsto> doc')" .
  with assms(2) doc'(2) show ?thesis by (blast intro: that holds_upd)
qed

lemma update_no_board:
  "update_laws M V \<Longrightarrow> holds V (db s) B \<Longrightarrow> B i = None \<Longrightarrow> \<not> conflicting us \<Longrightarrow>
     db_call (update_wb M i us) s = (Inr (), s)"
  using holds_find(1) [of V "db s" B i] by (simp add: db_call_update_none)

lemma not_conflicting_single [simp]: "\<not> conflicting [u]"
  by (simp add: conflicting_def)

section \<open>What the handlers read\<close>

lemma make_oid_some: "oid_of_string (env_mongo E) wid = Some i \<Longrightarrow> make_oid E wid = ret i"
  by (simp add: make_oid_def)

lemma make_oid_none: "oid_of_string (env_mongo E) wid = None \<Longrightarrow> make_oid E wid = throw Exn_bson"
  by (simp add: make_oid_def)

lemma owner_check: "represents doc b \<Longrightarrow> int32_field_eq doc ''uid'' uid = ret (b_owner b = uid)"
  by (simp add: int32_field_eq_def represents_fields of_sum_def)

lemma int32_in_map: "int32_in (map BInt32 xs) x = ret (x \<in> set xs)"
  by (induction xs) (auto simp: of_sum_def)

lemma string_in_map: "string_in (map BString xs) x = ret (x \<in> set xs)"
  by (induction xs) (auto simp: of_sum_def)

lemma active_check:
  "represents doc b \<Longrightarrow> user_in_active_user_ids doc uid =
     ret (case b_active b of None \<Rightarrow> False | Some xs \<Rightarrow> uid \<in> set xs)"
  by (cases "b_active b")
    (simp_all add: user_in_active_user_ids_def represents_fields int32_in_map of_sum_def)

lemma elements_read:
  "represents doc b \<Longrightarrow> board_elements E doc = ret (map (parse_element (env_rt E)) (b_elems b))"
  by (rule ext) (simp add: board_elements_def represents_fields of_sum_def parse_strings)

lemma share_check: "bnd (shared wid) (\<lambda>b. if b then handle_broadcast E wid else ret ()) = handle_broadcast E wid"
  by (rule ext) (simp add: handle_broadcast_def act_at shared_def)

lemma db_after_send [simp]:
  "db (snd (send_packet E k w s)) = db s" "db (snd (respond E k p ok msg s)) = db s"
  by (simp_all add: respond_def send_packet_def)

lemmas reads = make_oid_some owner_check active_check elements_read string_in_map

section \<open>The handlers on boards\<close>

text \<open>Creating a whiteboard, once the user has a number.\<close>

definition create_step :: "'db env \<Rightarrow> pb_packet \<Rightarrow> socket \<Rightarrow> u32 \<Rightarrow> ('db, unit) handler" where
  "create_step E p k user_id =
     bnd (draw (env_now E)) (\<lambda>now.
     bnd (db_call (insert_wb (env_mongo E)
            [(''uid'', BInt32 user_id), (''elements'', BArray []), (''created_at'', BDate now)]))
       (\<lambda>r. case r of
          Some doc_id \<Rightarrow> respond E k p True (string_of_oid (env_mongo E) doc_id)
        | None \<Rightarrow> respond E k p False ''Fail to create whiteboard document''))"

lemma create_whiteboard_eq:
  "handle_create_whiteboard_request E p k = bnd
     (if createwhiteboard (action_of p) = 0 then handle_assign_user_id E k
      else ret (createwhiteboard (action_of p))) (create_step E p k)"
proof -
  have "(\<lambda>r. send_packet E k (case r of
        Some doc_id \<Rightarrow> new_action_response True (string_of_oid (env_mongo E) doc_id)
          (new_wb_packet server_version T_actionResponse (pk_id p))
      | None \<Rightarrow> new_action_response False ''Fail to create whiteboard document''
          (new_wb_packet server_version T_actionResponse (pk_id p)))) =
    (\<lambda>r. case r of
        Some doc_id \<Rightarrow> respond E k p True (string_of_oid (env_mongo E) doc_id)
      | None \<Rightarrow> respond E k p False ''Fail to create whiteboard document'')"
    by (rule ext) (simp add: respond_def split: option.split)
  then show ?thesis
    by (simp add: handle_create_whiteboard_request_def create_step_def [abs_def] Let_def)
qed

lemma create_step_at:
  assumes laws: "mongo_laws (env_mongo E) V" and B: "holds V (db s) B"
  obtains i d' where "B i = None" and "holds V d' (B(i \<mapsto> new_board uid))"
    and "create_step E p k uid s = respond E k p True (string_of_oid (env_mongo E) i)
      (s\<lparr>tick := Suc (tick s), db := d'\<rparr>)"
proof -
  let ?doc = "[(''uid'', BInt32 uid), (''elements'', BArray []), (''created_at'', BDate (env_now E (tick s)))]"
  have "field ?doc ''_id'' = None" by simp
  from db_call_insert_wb [OF mongo_laws_parts(2) [OF laws] this, of "s\<lparr>tick := Suc (tick s)\<rparr>"] obtain i d' where
    ins: "db_call (insert_wb (env_mongo E) ?doc) (s\<lparr>tick := Suc (tick s)\<rparr>) =
      (Inr (Some i), s\<lparr>tick := Suc (tick s)\<rparr>\<lparr>db := d'\<rparr>)"
    and new: "v_wbs V (db (s\<lparr>tick := Suc (tick s)\<rparr>)) i = None"
    and upd': "v_wbs V d' = (v_wbs V (db (s\<lparr>tick := Suc (tick s)\<rparr>)))(i \<mapsto> (''_id'', BOid i) # ?doc)" .
  from upd' have upd: "v_wbs V d' = (v_wbs V (db s))(i \<mapsto> (''_id'', BOid i) # ?doc)" by simp
  have "represents ((''_id'', BOid i) # ?doc) (new_board uid)"
    by (simp add: represents_def new_board_def)
  from holds_upd [OF B upd this] new holds_find(1) [OF B, of i] ins show ?thesis
    by (intro that [of i d']) (simp_all add: create_step_def act_at)
qed

text \<open>Opening a session: the answer and the effect depend on the board and the owner.\<close>

definition open_answer :: "u32 \<Rightarrow> board option \<Rightarrow> bool \<times> string" where
  "open_answer uid b = (case b of
      None \<Rightarrow> (False, ''Whiteboard not found'')
    | Some b \<Rightarrow> if b_owner b = uid then (True, ''Session created successfully'')
        else (False, ''User ID does not match''))"

lemma create_session_at:
  assumes laws: "mongo_laws (env_mongo E) V" and B: "holds V (db s) B"
    and i: "oid_of_string (env_mongo E) (rq_whiteboard_id (createsession (action_of p))) = Some i"
  obtains d' where "holds V d' (spec_open (rq_user_id (createsession (action_of p))) i B)"
    and "handle_create_session_request E p k s =
      (case open_answer (rq_user_id (createsession (action_of p))) (B i) of (ok, msg) \<Rightarrow>
        respond E k p ok msg (s\<lparr>whiteboard_sessions :=
          (if ok then add_socket_to_whiteboard (rq_whiteboard_id (createsession (action_of p))) k (whiteboard_sessions s)
           else whiteboard_sessions s), db := d'\<rparr>))"
proof (cases "B i")
  case None
  with B show ?thesis
    by (intro that [of "db s"])
      (simp_all add: handle_create_session_request_def Let_def reads i act_at open_answer_def spec_open_def
        find_no_board [OF mongo_laws_parts(1) [OF laws]])
next
  case (Some b)
  let ?uid = "rq_user_id (createsession (action_of p))" and ?wid = "rq_whiteboard_id (createsession (action_of p))"
  obtain doc where find: "db_call (find_wb (env_mongo E) i) s = (Inr (Some doc), s)" and doc: "represents doc b"
    by (rule find_board [OF mongo_laws_parts(1) [OF laws] B Some])
  show ?thesis
  proof (cases "b_owner b = ?uid")
    case True
    let ?s = "s\<lparr>whiteboard_sessions := add_socket_to_whiteboard ?wid k (whiteboard_sessions s)\<rparr>"
    have "holds V (db ?s) B" using B by simp
    from update_board [OF mongo_laws_parts(3) [OF laws] this Some update_open] obtain d' where
      "db_call (update_wb (env_mongo E) i [SetField ''active_user_ids'' (BArray [BInt32 ?uid])]) ?s
         = (Inr (), ?s\<lparr>db := d'\<rparr>)" "holds V d' (B(i \<mapsto> b\<lparr>b_active := Some [?uid]\<rparr>))" .
    with Some True find doc show ?thesis
      by (intro that [of d'])
        (simp_all add: handle_create_session_request_def Let_def reads i act_at open_answer_def
          spec_open_def add_socket_def)
  next
    case False
    with Some find doc B show ?thesis
      by (intro that [of "db s"])
        (simp_all add: handle_create_session_request_def Let_def reads i act_at open_answer_def spec_open_def)
  qed
qed

text \<open>Joining, once the user has a number.\<close>

definition join_step :: "'db env \<Rightarrow> pb_packet \<Rightarrow> socket \<Rightarrow> u32 \<Rightarrow> ('db, unit) handler" where
  "join_step E p k user_id =
     (let whiteboard_id = rq_whiteboard_id (joinsession (action_of p))
      in bnd (make_oid E whiteboard_id) (\<lambda>i.
         bnd (db_call (find_wb (env_mongo E) i)) (\<lambda>result.
         case result of
           Some whiteboard_doc \<Rightarrow>
             (case field whiteboard_doc ''active_user_ids'' of
                Some _ \<Rightarrow>
                  seq (add_socket whiteboard_id k) (
                  seq (db_call (update_wb (env_mongo E) i
                         [AddToSet ''active_user_ids'' (BInt32 user_id)])) (
                  bnd (shared whiteboard_id) (\<lambda>is_shared.
                  seq (if is_shared then handle_unicast E whiteboard_id k else ret ())
                      (respond E k p True whiteboard_id))))
              | None \<Rightarrow> respond E k p False ''Whiteboard is not in shared status'')
         | None \<Rightarrow> respond E k p False ''Whiteboard not found'')))"

lemma join_session_eq:
  "handle_join_session_request E p k = bnd
     (if rq_user_id (joinsession (action_of p)) = 0 then handle_assign_user_id E k
      else ret (rq_user_id (joinsession (action_of p)))) (join_step E p k)"
  by (simp add: handle_join_session_request_def join_step_def [abs_def] Let_def)

definition elements_packet :: "'db env \<Rightarrow> nat \<Rightarrow> board \<Rightarrow> wb_packet" where
  "elements_packet E t b = new_broadcast (map (parse_element (env_rt E)) (b_elems b))
     (new_wb_packet server_version T_broadcast (env_rand E t))"

lemma unicast_at:
  assumes laws: "find_laws (env_mongo E) V" and B: "holds V (db s) B" and b: "B i = Some b"
    and i: "oid_of_string (env_mongo E) wid = Some i" and S: "whiteboard_sessions s wid = Some S"
  shows "handle_unicast E wid k s = send_packet E k (elements_packet E (tick s) b) (s\<lparr>tick := Suc (tick s)\<rparr>)"
proof -
  obtain doc where "db_call (find_wb (env_mongo E) i) s = (Inr (Some doc), s)" "represents doc b"
    by (rule find_board [OF laws B b])
  with S show ?thesis
    by (simp add: handle_unicast_def reads i act_at shared_def is_whiteboard_shared_def elements_packet_def)
qed

lemma broadcast_at:
  assumes laws: "find_laws (env_mongo E) V" and B: "holds V (db s) B" and b: "B i = Some b"
    and i: "oid_of_string (env_mongo E) wid = Some i" and S: "whiteboard_sessions s wid = Some S"
  shows "handle_broadcast E wid s = for_each (sorted_list_of_set S)
    (\<lambda>k. send_packet E k (elements_packet E (tick s) b)) (s\<lparr>tick := Suc (tick s)\<rparr>)"
proof -
  obtain doc where "db_call (find_wb (env_mongo E) i) s = (Inr (Some doc), s)" "represents doc b"
    by (rule find_board [OF laws B b])
  with S show ?thesis
    by (simp add: handle_broadcast_def reads i act_at shared_def is_whiteboard_shared_def
        elements_packet_def Let_def session_sockets_def)
qed

lemma join_step_at:
  assumes laws: "mongo_laws (env_mongo E) V" and B: "holds V (db s) B"
    and i: "oid_of_string (env_mongo E) wid = Some i" and wid: "wid = rq_whiteboard_id (joinsession (action_of p))"
  obtains d' where "holds V d' (spec_join uid i B)"
    and "join_step E p k uid s =
      (case B i of
         None \<Rightarrow> respond E k p False ''Whiteboard not found'' s
       | Some b \<Rightarrow> (case b_active b of
           None \<Rightarrow> respond E k p False ''Whiteboard is not in shared status'' s
         | Some xs \<Rightarrow> seq (send_packet E k (elements_packet E (tick s) b)) (respond E k p True wid)
             (s\<lparr>whiteboard_sessions := add_socket_to_whiteboard wid k (whiteboard_sessions s),
                db := d', tick := Suc (tick s)\<rparr>)))"
proof (cases "B i")
  case None
  with B show ?thesis
    by (intro that [of "db s"])
      (simp_all add: join_step_def Let_def reads i act_at spec_join_def wid [symmetric]
        find_no_board [OF mongo_laws_parts(1) [OF laws]])
next
  case (Some b)
  obtain doc where find: "db_call (find_wb (env_mongo E) i) s = (Inr (Some doc), s)" and doc: "represents doc b"
    by (rule find_board [OF mongo_laws_parts(1) [OF laws] B Some])
  show ?thesis
  proof (cases "b_active b")
    case None
    with Some find doc B show ?thesis
      by (intro that [of "db s"])
        (simp_all add: join_step_def Let_def reads i act_at spec_join_def represents_fields wid [symmetric])
  next
    case act: (Some xs)
    let ?s = "s\<lparr>whiteboard_sessions := add_socket_to_whiteboard wid k (whiteboard_sessions s)\<rparr>"
    have "holds V (db ?s) B" using B by simp
    from update_board [OF mongo_laws_parts(3) [OF laws] this Some update_join [OF _ act]] obtain d' where
      d': "db_call (update_wb (env_mongo E) i [AddToSet ''active_user_ids'' (BInt32 uid)]) ?s
         = (Inr (), ?s\<lparr>db := d'\<rparr>)" and B': "holds V d' (B(i \<mapsto> b\<lparr>b_active := Some (add_user uid xs)\<rparr>))" .
    have "whiteboard_sessions (?s\<lparr>db := d'\<rparr>) wid \<noteq> None"
      by (simp add: add_socket_to_whiteboard_def)
    then obtain S where S: "whiteboard_sessions (?s\<lparr>db := d'\<rparr>) wid = Some S" by blast
    have "handle_unicast E wid k (?s\<lparr>db := d'\<rparr>) = send_packet E k
        (elements_packet E (tick (?s\<lparr>db := d'\<rparr>)) (b\<lparr>b_active := Some (add_user uid xs)\<rparr>))
        (?s\<lparr>db := d'\<rparr>\<lparr>tick := Suc (tick (?s\<lparr>db := d'\<rparr>))\<rparr>)"
      using B' by (intro unicast_at [where B = "B(i \<mapsto> b\<lparr>b_active := Some (add_user uid xs)\<rparr>)",
            OF mongo_laws_parts(1) [OF laws] _ _ i S]) simp_all
    then have "handle_unicast E wid k (?s\<lparr>db := d'\<rparr>) =
        send_packet E k (elements_packet E (tick s) b) (?s\<lparr>db := d', tick := Suc (tick s)\<rparr>)"
      by (simp add: elements_packet_def)
    with Some act find doc d' B' show ?thesis
      by (intro that [of d'])
        (simp_all add: join_step_def Let_def reads i act_at spec_join_def represents_fields add_socket_def
          wid [symmetric] shared_def is_whiteboard_shared_def add_socket_to_whiteboard_def)
  qed
qed

text \<open>Leaving: the answer does not depend on anything.\<close>

lemma quit_session_at:
  assumes laws: "mongo_laws (env_mongo E) V" and B: "holds V (db s) B"
    and i: "oid_of_string (env_mongo E) (rq_whiteboard_id (quitsession (action_of p))) = Some i"
  obtains d' where "holds V d' (spec_quit (rq_user_id (quitsession (action_of p))) i B)"
    and "handle_quit_session_request E p k s = respond E k p True ''Quit session successfully''
      (s\<lparr>whiteboard_sessions := remove_socket_from_whiteboard
           (rq_whiteboard_id (quitsession (action_of p))) k (whiteboard_sessions s), db := d'\<rparr>)"
proof -
  let ?uid = "rq_user_id (quitsession (action_of p))" and ?wid = "rq_whiteboard_id (quitsession (action_of p))"
  let ?s = "s\<lparr>whiteboard_sessions := remove_socket_from_whiteboard ?wid k (whiteboard_sessions s)\<rparr>"
  have B': "holds V (db ?s) B" using B by simp
  show ?thesis
  proof (cases "B i")
    case None
    with B B' show ?thesis
      by (intro that [of "db s"])
        (simp_all add: handle_quit_session_request_def Let_def reads i act_at spec_quit_def remove_socket_def
          find_no_board [OF mongo_laws_parts(1) [OF laws]] update_no_board [OF mongo_laws_parts(3) [OF laws]])
  next
    case (Some b)
    let ?b = "b\<lparr>b_active := map_option (filter (\<lambda>x. x \<noteq> ?uid)) (b_active b)\<rparr>"
    from update_board [OF mongo_laws_parts(3) [OF laws] B' Some update_quit] obtain d1 where
      d1: "db_call (update_wb (env_mongo E) i [Pull ''active_user_ids'' (BInt32 ?uid)]) ?s
         = (Inr (), ?s\<lparr>db := d1\<rparr>)" and B1: "holds V d1 (B(i \<mapsto> ?b))" .
    have "holds V (db (?s\<lparr>db := d1\<rparr>)) (B(i \<mapsto> ?b))" and "(B(i \<mapsto> ?b)) i = Some ?b" using B1 by simp_all
    then obtain doc where find: "db_call (find_wb (env_mongo E) i) (?s\<lparr>db := d1\<rparr>) = (Inr (Some doc), ?s\<lparr>db := d1\<rparr>)"
      and doc: "represents doc ?b"
      by (rule find_board [OF mongo_laws_parts(1) [OF laws]])
    from db_call_delete_wb [OF mongo_laws_parts(3) [OF laws], of i "?s\<lparr>db := d1\<rparr>"] obtain d2 where
      d2: "db_call (delete_wb (env_mongo E) i) (?s\<lparr>db := d1\<rparr>) = (Inr (), ?s\<lparr>db := d1\<rparr>\<lparr>db := d2\<rparr>)"
        "v_wbs V d2 = (v_wbs V (db (?s\<lparr>db := d1\<rparr>)))(i := None)" .
    have B2: "holds V d2 (B(i := None))"
      using holds_del [OF B1, of d2 i] d2(2) by simp
    show ?thesis
    proof (cases "b_active b")
      case None
      with Some find doc d1 B1 show ?thesis
        by (intro that [of d1])
          (simp_all add: handle_quit_session_request_def Let_def reads i act_at spec_quit_def remove_socket_def
            represents_fields fun_upd_idem)
    next
      case act: (Some xs)
      show ?thesis
      proof (cases "filter (\<lambda>x. x \<noteq> ?uid) xs")
        case Nil
        with Some act find doc d1 d2 B2 show ?thesis
          by (intro that [of d2])
            (simp_all add: handle_quit_session_request_def Let_def reads i act_at spec_quit_def remove_socket_def
              represents_fields of_sum_def)
      next
        case (Cons y ys)
        with Some act find doc d1 B1 show ?thesis
          by (intro that [of d1])
            (simp_all add: handle_quit_session_request_def Let_def reads i act_at spec_quit_def remove_socket_def
              represents_fields of_sum_def)
      qed
    qed
  qed
qed

text \<open>Adding an element; the string stored is the serialised element of the request.\<close>

definition added_string :: "'db env \<Rightarrow> pb_packet \<Rightarrow> string" where
  "added_string E p = ser_element (env_rt E) (element_of (add_element (addelement (action_of p))))"

lemma add_element_at:
  assumes laws: "mongo_laws (env_mongo E) V" and B: "holds V (db s) B"
    and i: "oid_of_string (env_mongo E) (add_whiteboard_id (addelement (action_of p))) = Some i"
  obtains d' where "holds V d' (spec_add (add_user_id (addelement (action_of p))) (added_string E p) i B)"
    and "handle_add_element_request E p k s =
      (case B i of
         None \<Rightarrow> respond E k p False ''User is not authorized to add element or whiteboard not found'' s
       | Some b \<Rightarrow> seq
           (if may_add b (add_user_id (addelement (action_of p)))
            then respond E k p True ''Element added successfully'' else ret ())
           (handle_broadcast E (add_whiteboard_id (addelement (action_of p)))) (s\<lparr>db := d'\<rparr>))"
proof (cases "B i")
  case None
  with B show ?thesis
    by (intro that [of "db s"])
      (simp_all add: handle_add_element_request_def Let_def reads i act_at spec_add_def
        find_no_board [OF mongo_laws_parts(1) [OF laws]])
next
  case (Some b)
  let ?uid = "add_user_id (addelement (action_of p))"
  obtain doc where find: "db_call (find_wb (env_mongo E) i) s = (Inr (Some doc), s)" and doc: "represents doc b"
    by (rule find_board [OF mongo_laws_parts(1) [OF laws] B Some])
  have allowed: "(if (case b_active b of None \<Rightarrow> False | Some xs \<Rightarrow> ?uid \<in> set xs) then ret True
      else int32_field_eq doc ''uid'' ?uid) = ret (may_add b ?uid)"
    by (simp add: may_add_def owner_check [OF doc])
  show ?thesis
  proof (cases "may_add b ?uid")
    case True
    from update_board [OF mongo_laws_parts(3) [OF laws] B Some update_add [of _ _ "added_string E p"]]
    obtain d' where "db_call (update_wb (env_mongo E) i [Push ''elements'' (BString (added_string E p))]) s
         = (Inr (), s\<lparr>db := d'\<rparr>)" "holds V d' (B(i \<mapsto> b\<lparr>b_elems := b_elems b @ [added_string E p]\<rparr>))" .
    with Some find doc True show ?thesis
      by (intro that [of d'])
        (simp_all add: handle_add_element_request_def Let_def reads i act_at spec_add_def allowed share_check
          added_string_def)
  next
    case False
    with Some find doc B show ?thesis
      by (intro that [of "db s"])
        (simp_all add: handle_add_element_request_def Let_def reads i act_at spec_add_def allowed share_check)
  qed
qed

text \<open>
  Modifying: the one update the handler would make names \<open>elements\<close> in two operators, which
  the database refuses.
\<close>

definition orig_string :: "'db env \<Rightarrow> pb_packet \<Rightarrow> string" where
  "orig_string E p = ser_element (env_rt E) (element_of (mod_orig_element (modifyelement (action_of p))))"

lemma modify_conflicts: "conflicting [Pull f x, Push f y]"
  by (simp add: conflicting_def)

lemma modify_element_at:
  assumes laws: "mongo_laws (env_mongo E) V" and B: "holds V (db s) B"
    and i: "oid_of_string (env_mongo E) (mod_whiteboard_id (modifyelement (action_of p))) = Some i"
  shows "handle_modify_element_request E p k s =
      (case B i of
         None \<Rightarrow> respond E k p False ''User is not authorized to modify element or whiteboard not found'' s
       | Some b \<Rightarrow>
           if mod_user_id (modifyelement (action_of p)) \<notin> (case b_active b of None \<Rightarrow> {} | Some xs \<Rightarrow> set xs)
           then (Inr (), s)
           else if orig_string E p \<in> set (b_elems b) then (Inl Exn_mongo, s)
           else respond E k p False ''Original element is not in the database'' s)"
proof (cases "B i")
  case None
  with B show ?thesis
    by (simp add: handle_modify_element_request_def Let_def reads i act_at
        find_no_board [OF mongo_laws_parts(1) [OF laws]])
next
  case (Some b)
  obtain doc where "db_call (find_wb (env_mongo E) i) s = (Inr (Some doc), s)" "represents doc b"
    by (rule find_board [OF mongo_laws_parts(1) [OF laws] B Some])
  with Some show ?thesis
    by (cases "b_active b")
      (simp_all add: handle_modify_element_request_def Let_def reads i act_at represents_fields of_sum_def
        orig_string_def db_call_update_conflict [OF mongo_laws_parts(3) [OF laws] modify_conflicts])
qed

section \<open>Refinement of runs\<close>

text \<open>One step of the specification.\<close>

inductive board_step :: "boards \<Rightarrow> boards \<Rightarrow> bool" where
  created: "B i = None \<Longrightarrow> board_step B (B(i \<mapsto> new_board uid))"
| opened: "board_step B (spec_open uid i B)"
| joined_by: "board_step B (spec_join uid i B)"
| quitted: "board_step B (spec_quit uid i B)"
| added: "board_step B (spec_add uid e i B)"

lemmas board_steps = created opened joined_by quitted added

definition reaches :: "'db mongo_view \<Rightarrow> boards \<Rightarrow> 'db \<Rightarrow> bool" where
  "reaches V B d \<longleftrightarrow> (\<exists>B'. holds V d B' \<and> (B' = B \<or> board_step B B'))"

lemma reaches_refl: "holds V d B \<Longrightarrow> reaches V B d"
  unfolding reaches_def by blast

lemma reaches_step: "holds V d B' \<Longrightarrow> board_step B B' \<Longrightarrow> reaches V B d"
  unfolding reaches_def by blast

lemma db_after_for_each_send: "db (snd (for_each ks (\<lambda>k. send_packet E k w) s)) = db s"
proof -
  have "preserves db (for_each ks (\<lambda>k. send_packet E k w))"
    by (auto simp: preserves_def intro!: keeps_intros away_from_db)
  then show ?thesis by (rule preserves_snd)
qed

lemma db_after_seq: "preserves db f \<Longrightarrow> preserves db g \<Longrightarrow> db (snd (seq f g s)) = db s"
  by (rule preserves_snd) (simp add: preserves_def keeps_seq)

lemma preserves_ret: "preserves obs (ret x)"
  by (simp add: preserves_def keeps_ret)

lemma keeps_find_wb: "find_laws M V \<Longrightarrow> keeps (\<lambda>s. db s = d) (db_call (find_wb M i))"
  by (simp add: keeps_def db_call_find_wb)

lemma keeps_find_user: "find_laws M V \<Longrightarrow> keeps (\<lambda>s. db s = d) (db_call (find_user M u))"
  by (simp add: keeps_def db_call_find_user)

lemma preserves_reading:
  assumes "find_laws (env_mongo E) V"
  shows "preserves db (respond E k p ok msg)" and "preserves db (send_packet E k w)"
    and "preserves db (handle_broadcast E wid)" and "preserves db (handle_login_request E p k)"
  unfolding preserves_def handle_broadcast_def handle_login_request_def
  by (intro allI keeps_intros away_from_db keeps_find_wb [OF assms] keeps_find_user [OF assms])+

text \<open>Each handler is a step, or none.\<close>

lemma assign_keeps_boards:
  assumes "mongo_laws (env_mongo E) V"
  shows "v_wbs V (db (snd (handle_assign_user_id E k s))) = v_wbs V (db s)"
  using assign_db [OF assms, of s k] by (simp add: adds_user_def)

lemma after_assign:
  assumes laws: "mongo_laws (env_mongo E) V" and B: "holds V (db s) B"
    and step: "\<And>t uid. holds V (db t) B \<Longrightarrow> reaches V B (db (snd (step uid t)))"
  shows "reaches V B (db (snd (bnd (if c then handle_assign_user_id E k else ret uid) step s)))"
proof -
  have "holds V (db (snd (handle_assign_user_id E k s))) B"
    by (rule holds_same [OF B assign_keeps_boards [OF laws]])
  then show ?thesis
    using step reaches_refl B by (auto simp: act_at split: prod.split sum.split)
qed

lemma create_refines:
  assumes laws: "mongo_laws (env_mongo E) V" and B: "holds V (db s) B"
  shows "reaches V B (db (snd (handle_create_whiteboard_request E p k s)))"
  unfolding create_whiteboard_eq
proof (rule after_assign [OF laws B])
  fix t :: "'a server" and uid assume "holds V (db t) B"
  then obtain i d' where "B i = None" "holds V d' (B(i \<mapsto> new_board uid))"
      "create_step E p k uid t = respond E k p True (string_of_oid (env_mongo E) i)
        (t\<lparr>tick := Suc (tick t), db := d'\<rparr>)"
    by (rule create_step_at [OF laws])
  then show "reaches V B (db (snd (create_step E p k uid t)))"
    by (auto intro: reaches_step created)
qed

lemma open_refines:
  assumes laws: "mongo_laws (env_mongo E) V" and B: "holds V (db s) B"
  shows "reaches V B (db (snd (handle_create_session_request E p k s)))"
proof (cases "oid_of_string (env_mongo E) (rq_whiteboard_id (createsession (action_of p)))")
  case None
  then show ?thesis
    using B by (simp add: handle_create_session_request_def Let_def make_oid_none act_at reaches_refl)
next
  case (Some i)
  show ?thesis
    by (rule create_session_at [OF laws B Some, of k])
      (auto intro: reaches_step opened split: prod.split)
qed

lemma join_refines:
  assumes laws: "mongo_laws (env_mongo E) V" and B: "holds V (db s) B"
  shows "reaches V B (db (snd (handle_join_session_request E p k s)))"
  unfolding join_session_eq
proof (rule after_assign [OF laws B])
  fix t :: "'a server" and uid assume t: "holds V (db t) B"
  show "reaches V B (db (snd (join_step E p k uid t)))"
  proof (cases "oid_of_string (env_mongo E) (rq_whiteboard_id (joinsession (action_of p)))")
    case None
    with t show ?thesis
      by (simp add: join_step_def Let_def make_oid_none act_at reaches_refl)
  next
    case (Some i)
    obtain d' where d': "holds V d' (spec_join uid i B)"
      and run: "join_step E p k uid t =
      (case B i of
         None \<Rightarrow> respond E k p False ''Whiteboard not found'' t
       | Some b \<Rightarrow> (case b_active b of
           None \<Rightarrow> respond E k p False ''Whiteboard is not in shared status'' t
         | Some xs \<Rightarrow> seq (send_packet E k (elements_packet E (tick t) b))
             (respond E k p True (rq_whiteboard_id (joinsession (action_of p))))
             (t\<lparr>whiteboard_sessions := add_socket_to_whiteboard (rq_whiteboard_id (joinsession (action_of p))) k
                (whiteboard_sessions t), db := d', tick := Suc (tick t)\<rparr>)))"
      by (rule join_step_at [OF laws t Some refl])
    show ?thesis
      using d' t unfolding run
      by (auto simp: db_after_seq preserves_reading [OF mongo_laws_parts(1) [OF laws]]
          intro: reaches_refl reaches_step joined_by split: option.split)
  qed
qed

lemma quit_refines:
  assumes laws: "mongo_laws (env_mongo E) V" and B: "holds V (db s) B"
  shows "reaches V B (db (snd (handle_quit_session_request E p k s)))"
proof (cases "oid_of_string (env_mongo E) (rq_whiteboard_id (quitsession (action_of p)))")
  case None
  then show ?thesis
    using B by (simp add: handle_quit_session_request_def Let_def make_oid_none act_at reaches_refl remove_socket_def)
next
  case (Some i)
  show ?thesis
    by (rule quit_session_at [OF laws B Some, of k]) (auto intro: reaches_step quitted)
qed

lemma add_refines:
  assumes laws: "mongo_laws (env_mongo E) V" and B: "holds V (db s) B"
  shows "reaches V B (db (snd (handle_add_element_request E p k s)))"
proof (cases "oid_of_string (env_mongo E) (add_whiteboard_id (addelement (action_of p)))")
  case None
  then show ?thesis
    using B by (simp add: handle_add_element_request_def Let_def make_oid_none act_at reaches_refl)
next
  case (Some i)
  show ?thesis
    by (rule add_element_at [OF laws B Some, of k])
      (auto simp: db_after_seq preserves_ret preserves_reading [OF mongo_laws_parts(1) [OF laws]] B
        intro: reaches_refl reaches_step added split: option.split)
qed

lemma modify_refines:
  assumes laws: "mongo_laws (env_mongo E) V" and B: "holds V (db s) B"
  shows "reaches V B (db (snd (handle_modify_element_request E p k s)))"
proof (cases "oid_of_string (env_mongo E) (mod_whiteboard_id (modifyelement (action_of p)))")
  case None
  then show ?thesis
    using B by (simp add: handle_modify_element_request_def Let_def make_oid_none act_at reaches_refl)
next
  case (Some i)
  show ?thesis
    using B by (auto simp: modify_element_at [OF laws B Some] intro: reaches_refl split: option.split)
qed

lemma register_refines:
  assumes laws: "mongo_laws (env_mongo E) V" and B: "holds V (db s) B"
  shows "reaches V B (db (snd (handle_register_request E p k s)))"
  using register_db [OF laws, of p s k] B
  by (auto simp: adds_user_def split: if_splits intro!: reaches_refl intro: holds_same)

lemma dispatch_refines:
  assumes laws: "mongo_laws (env_mongo E) V" and B: "holds V (db s) B"
  shows "reaches V B (db (snd (dispatch E p k s)))"
proof (cases "type_of_code (pk_type p)")
  case (Some t)
  note handlers = create_refines open_refines join_refines quit_refines add_refines modify_refines register_refines
  have login: "db (snd (handle_login_request E p k s)) = db s"
    by (rule preserves_snd [OF preserves_reading(4) [OF mongo_laws_parts(1) [OF laws]]])
  from Some show ?thesis
    by (cases t) (simp_all add: dispatch_def handlers [OF laws B] login reaches_refl [OF B] ret_at)
qed (simp add: dispatch_def ret_at reaches_refl [OF B])

interpretation board_runs: dispatch_invariant E
    "\<lambda>d. mongo_laws (env_mongo E) V \<longrightarrow> (\<exists>B. holds V d B \<and> rtranclp board_step Bs B)"
  for E :: "'db env" and V and Bs
proof (unfold_locales, rule keepsI, rule impI)
  fix p k and s :: "'db server"
  assume "mongo_laws (env_mongo E) V \<longrightarrow> (\<exists>B. holds V (db s) B \<and> rtranclp board_step Bs B)"
    and laws: "mongo_laws (env_mongo E) V"
  then obtain B where B: "holds V (db s) B" "rtranclp board_step Bs B" by blast
  from dispatch_refines [OF laws B(1), of p k] obtain B' where
    "holds V (db (snd (dispatch E p k s))) B'" "B' = B \<or> board_step B B'"
    unfolding reaches_def by blast
  with B(2) show "\<exists>B. holds V (db (snd (dispatch E p k s))) B \<and> rtranclp board_step Bs B"
    by (blast intro: rtranclp.rtrancl_into_rtrancl)
qed


section \<open>Invariants of the boards\<close>

inductive_cases board_stepE: "board_step B B'"

lemmas spec_defs = spec_open_def spec_join_def spec_quit_def spec_add_def

definition wf_board :: "board \<Rightarrow> bool" where
  "wf_board b \<longleftrightarrow> (case b_active b of None \<Rightarrow> True | Some xs \<Rightarrow> xs \<noteq> [] \<and> distinct xs)"

definition wf_boards :: "boards \<Rightarrow> bool" where
  "wf_boards B \<longleftrightarrow> (\<forall>b \<in> ran B. wf_board b)"

lemma wf_boards_upd: "wf_boards B \<Longrightarrow> wf_board b \<Longrightarrow> wf_boards (B(i \<mapsto> b))"
  by (auto simp: wf_boards_def ran_def split: if_splits)

lemma wf_boards_del: "wf_boards B \<Longrightarrow> wf_boards (B(i := None))"
  by (auto simp: wf_boards_def ran_def split: if_splits)

lemma wf_boardsD: "wf_boards B \<Longrightarrow> B i = Some b \<Longrightarrow> wf_board b"
  by (auto simp: wf_boards_def ran_def)

lemma distinct_filter_Cons: "filter P xs = y # ys \<Longrightarrow> distinct xs \<Longrightarrow> y \<notin> set ys \<and> distinct ys"
  by (metis distinct_filter distinct.simps(2))

lemma wf_boards_step: "board_step B B' \<Longrightarrow> wf_boards B \<Longrightarrow> wf_boards B'"
proof (induction rule: board_step.induct)
  case (created B i uid)
  then show ?case by (intro wf_boards_upd) (simp_all add: wf_board_def new_board_def)
next
  case (opened B uid i)
  then show ?case
    by (auto simp: spec_open_def wf_board_def intro!: wf_boards_upd split: option.split)
next
  case (joined_by B uid i)
  then show ?case
    using wf_boardsD [of B i]
    by (auto simp: spec_join_def wf_board_def add_user_def intro!: wf_boards_upd
        split: option.splits)
next
  case (quitted B uid i)
  then show ?case
    using wf_boardsD [of B i]
    by (auto simp: spec_quit_def wf_board_def intro!: wf_boards_upd wf_boards_del
        split: option.splits list.splits dest!: distinct_filter_Cons)
next
  case (added B uid e i)
  then show ?case
    using wf_boardsD [of B i]
    by (auto simp: spec_add_def wf_board_def intro!: wf_boards_upd split: option.splits)
qed

lemma wf_boards_steps: "rtranclp board_step B B' \<Longrightarrow> wf_boards B \<Longrightarrow> wf_boards B'"
  by (induction rule: rtranclp_induct) (simp_all add: wf_boards_step)

lemma step_appends:
  assumes "board_step B B'" and "B i = Some b" and "B' i = Some b'"
  shows "b_owner b' = b_owner b \<and> (b_elems b' = b_elems b \<or> (\<exists>e. b_elems b' = b_elems b @ [e]))"
  using assms by (elim board_stepE) (auto simp: spec_defs split: option.splits if_splits list.splits)

end
