(* ===== verification/Board_Props.thy ===== *)
theory Board_Props
  imports Server_Boards
begin

text \<open>
  The properties of whiteboards and sessions: what every run keeps, what each request does
  to boards, sessions and sockets (unknown ids and users without rights included), and two
  scenarios that span several requests.
\<close>

section \<open>Concrete boards and requests\<close>

definition sample_board :: board where
  "sample_board = \<lparr>b_owner = 7, b_elems = [], b_active = Some [7]\<rparr>"

definition sample_boards :: boards where
  "sample_boards = [1 \<mapsto> sample_board]"

lemma sample_holds: "holds mem_view (db (sample_server live js)) sample_boards"
  by (simp add: holds_def sample_server_def mem_view_def mem_empty_def sample_boards_def sample_board_def represents_def sample_doc_def)

lemma sample_oid: "oid_of_string (env_mongo mem_env) sample_wid = Some 1"
  by (simp add: mem_mongo_def sample_wid_def mem_oid_round_trip)

lemmas sample_oids = sample_oid sample_oid [simplified]

lemma empty_holds: "holds mem_view mem_empty Map.empty"
  by (simp add: holds_def mem_view_def mem_empty_def)

definition request :: "pb_action \<Rightarrow> pb_packet" where
  "request a = \<lparr>pk_version = 1, pk_type = (case action_type a of Some t \<Rightarrow> type_code t | None \<Rightarrow> 0),
     pk_id = 1, pk_action = Some a\<rparr>"

lemma action_of_request [simp]: "action_of (request a) = a"
  by (simp add: request_def action_of_def)

section \<open>Properties\<close>



text \<open>
  C23: in every run, a stored whiteboard whose session was opened has active users, each
  listed once: there is always someone left who can add, and a board whose last user
  leaves is gone. (Hypotheses: the laws of the database, and that it starts so.)
\<close>

theorem run_keeps_boards_wf:
  assumes "mongo_laws (env_mongo E) V" and "holds V d B0" and "wf_boards B0"
  shows "\<exists>B. holds V (db (snd (server_run E events (server_init d)))) B \<and> wf_boards B"
  using board_runs.run_keeps [where V = V and Bs = B0 and s = "server_init d" and E = E and events = events] assms wf_boards_steps
  by (fastforce simp: server_init_def)

theorem run_keeps_boards_wf_witness:
  "\<exists>B. holds mem_view (db (snd (server_run mem_env [Connect 3, Receive 3 (Read_ok [5]), Receive 3 Read_eof] (server_init mem_empty)))) B \<and> wf_boards B"
  by (rule run_keeps_boards_wf [OF mem_env_laws empty_holds]) (simp add: wf_boards_def)

text \<open>
  Serving a packet of any kind leaves each whiteboard with its owner and its elements
  in their order, with at most one element more at the end, or deletes it. (Hypotheses: the
  laws of the database, and well-typed boards.)
\<close>

theorem request_appends_elements:
  assumes "mongo_laws (env_mongo E) V" and "holds V (db s) B" and "B i = Some b"
  shows "\<exists>B'. holds V (db (snd (dispatch E p k s))) B' \<and> (case B' i of
     None \<Rightarrow> True
   | Some b' \<Rightarrow> b_owner b' = b_owner b \<and> (b_elems b' = b_elems b \<or> (\<exists>e. b_elems b' = b_elems b @ [e])))"
proof -
  from dispatch_refines [OF assms(1,2), of p k] obtain B' where
    B': "holds V (db (snd (dispatch E p k s))) B'" "B' = B \<or> board_step B B'"
    unfolding reaches_def by blast
  then show ?thesis
    using assms(3) step_appends [of B B' i b] by (intro exI [of _ B']) (auto split: option.split)
qed

theorem request_appends_elements_witness:
  "\<exists>B'. holds mem_view (db (snd (dispatch mem_env (request (ActQuitSession \<lparr>rq_user_id = 8, rq_whiteboard_id = sample_wid\<rparr>)) 3 (sample_server {3} {3})))) B' \<and> (case B' 1 of
     None \<Rightarrow> True
   | Some b' \<Rightarrow> b_owner b' = b_owner sample_board \<and> (b_elems b' = b_elems sample_board \<or>
       (\<exists>e. b_elems b' = b_elems sample_board @ [e])))"
  using request_appends_elements [OF mem_env_laws sample_holds, of 1 sample_board 
      "request (ActQuitSession \<lparr>rq_user_id = 8, rq_whiteboard_id = sample_wid\<rparr>)" 3 "{3}" "{3}"]
  by (simp add: sample_boards_def)

text \<open>
  C9: opening a session succeeds for the owner of the whiteboard and for nobody else. Then
  the owner becomes the only active user, whoever was active before, and the socket enters
  the session; a refused request changes neither the boards nor the sessions. (Hypotheses:
  the laws of the database, well-typed boards, an id that parses.)
\<close>

theorem open_session_only_by_owner:
  assumes "mongo_laws (env_mongo E) V" and "holds V (db s) B"
    and "oid_of_string (env_mongo E) (rq_whiteboard_id (createsession (action_of p))) = Some i"
  shows "\<exists>d'. holds V d' (spec_open (rq_user_id (createsession (action_of p))) i B) \<and>
    handle_create_session_request E p k s =
      (case open_answer (rq_user_id (createsession (action_of p))) (B i) of (ok, msg) \<Rightarrow>
        respond E k p ok msg (s\<lparr>whiteboard_sessions :=
          (if ok then add_socket_to_whiteboard (rq_whiteboard_id (createsession (action_of p))) k (whiteboard_sessions s)
           else whiteboard_sessions s), db := d'\<rparr>))"
  by (rule create_session_at [OF assms, of k]) blast

theorem open_session_only_by_owner_witness:
  "\<exists>d'. holds mem_view d' (spec_open 8 1 sample_boards) \<and>
    handle_create_session_request mem_env
      (request (ActCreateSession \<lparr>rq_user_id = 8, rq_whiteboard_id = sample_wid\<rparr>)) 3 (sample_server {3} {}) =
    respond mem_env 3 (request (ActCreateSession \<lparr>rq_user_id = 8, rq_whiteboard_id = sample_wid\<rparr>))
      False ''User ID does not match'' ((sample_server {3} {})\<lparr>db := d'\<rparr>)"
  using open_session_only_by_owner [OF mem_env_laws sample_holds, of
      "request (ActCreateSession \<lparr>rq_user_id = 8, rq_whiteboard_id = sample_wid\<rparr>)" 1 3 "{3}" "{}"]
  by (simp add: sample_oids open_answer_def sample_boards_def sample_board_def)

text \<open>
  C11: a request to join a whiteboard with a session makes the user active, once, puts the
  socket into the session, and sends it the elements and then the answer, in this order; a
  whiteboard without a session and an unknown one are refused and nothing changes.
  (Hypotheses: the laws of the database, well-typed boards, an id that parses, a user that
  has a number.)
\<close>

theorem join_session_behaviour:
  assumes "mongo_laws (env_mongo E) V" and "holds V (db s) B"
    and "oid_of_string (env_mongo E) (rq_whiteboard_id (joinsession (action_of p))) = Some i"
    and "rq_user_id (joinsession (action_of p)) \<noteq> 0"
  shows "\<exists>d'. holds V d' (spec_join (rq_user_id (joinsession (action_of p))) i B) \<and>
    handle_join_session_request E p k s =
      (case B i of
         None \<Rightarrow> respond E k p False ''Whiteboard not found'' s
       | Some b \<Rightarrow> (case b_active b of
           None \<Rightarrow> respond E k p False ''Whiteboard is not in shared status'' s
         | Some xs \<Rightarrow> seq (send_packet E k (elements_packet E (tick s) b))
             (respond E k p True (rq_whiteboard_id (joinsession (action_of p))))
             (s\<lparr>whiteboard_sessions := add_socket_to_whiteboard
                  (rq_whiteboard_id (joinsession (action_of p))) k (whiteboard_sessions s),
                db := d', tick := Suc (tick s)\<rparr>)))"
  by (rule join_step_at [OF assms(1,2,3) refl, of "rq_user_id (joinsession (action_of p))" k])
    (simp add: join_session_eq assms(4), blast)

theorem join_session_behaviour_witness:
  "\<exists>d'. holds mem_view d' (spec_join 9 1 sample_boards) \<and>
    handle_join_session_request mem_env
      (request (ActJoinSession \<lparr>rq_user_id = 9, rq_whiteboard_id = sample_wid\<rparr>)) 4 (sample_server {3, 4} {3}) =
    seq (send_packet mem_env 4 (elements_packet mem_env 0 sample_board))
      (respond mem_env 4 (request (ActJoinSession \<lparr>rq_user_id = 9, rq_whiteboard_id = sample_wid\<rparr>)) True sample_wid)
      (sample_server {3, 4} {3, 4}\<lparr>db := d', tick := 1\<rparr>)"
proof -
  have "[sample_wid \<mapsto> {4, 3}] = [sample_wid \<mapsto> {3, 4 :: nat}]" by (simp add: insert_commute)
  then show ?thesis
    using join_session_behaviour [OF mem_env_laws sample_holds, of
      "request (ActJoinSession \<lparr>rq_user_id = 9, rq_whiteboard_id = sample_wid\<rparr>)" 1 4 "{3, 4}" "{3}"]
    by (simp add: sample_oids sample_board_def sample_boards_def sample_server_def add_socket_to_whiteboard_def)
qed

text \<open>
  C12: a request to leave takes the socket out of the session and the user out of the active
  users, deletes the whiteboard if that was the last one, and is always answered with
  success, also for a whiteboard that does not exist or a user who is not in it. (Hypotheses: the
  laws of the database, well-typed boards, an id that parses.)
\<close>

theorem quit_session_behaviour:
  assumes "mongo_laws (env_mongo E) V" and "holds V (db s) B"
    and "oid_of_string (env_mongo E) (rq_whiteboard_id (quitsession (action_of p))) = Some i"
  shows "\<exists>d'. holds V d' (spec_quit (rq_user_id (quitsession (action_of p))) i B) \<and>
    handle_quit_session_request E p k s = respond E k p True ''Quit session successfully''
      (s\<lparr>whiteboard_sessions := remove_socket_from_whiteboard
           (rq_whiteboard_id (quitsession (action_of p))) k (whiteboard_sessions s), db := d'\<rparr>)"
  by (rule quit_session_at [OF assms, of k]) blast

theorem quit_session_behaviour_witness:
  "\<exists>d'. holds mem_view d' Map.empty \<and>
    handle_quit_session_request mem_env
      (request (ActQuitSession \<lparr>rq_user_id = 7, rq_whiteboard_id = sample_wid\<rparr>)) 3 (sample_server {3} {3}) =
    respond mem_env 3 (request (ActQuitSession \<lparr>rq_user_id = 7, rq_whiteboard_id = sample_wid\<rparr>))
      True ''Quit session successfully'' (sample_server {3} {3}\<lparr>whiteboard_sessions := Map.empty, db := d'\<rparr>)"
  using quit_session_behaviour [OF mem_env_laws sample_holds, of
      "request (ActQuitSession \<lparr>rq_user_id = 7, rq_whiteboard_id = sample_wid\<rparr>)" 1 3 "{3}" "{3}"]
  by (simp add: sample_oids sample_board_def sample_boards_def spec_quit_def sample_server_def remove_socket_from_whiteboard_def)

text \<open>
  C10: an element is stored exactly if the user owns the whiteboard or is active in it, and
  only then is the request answered with success; a user without rights gets no answer at
  all, and an unknown whiteboard a refusal. In both of the first two cases the whole list
  of elements is then broadcast to the session. (Hypotheses: the laws of the database,
  well-typed boards, an id that parses.)
\<close>

theorem add_element_authorised:
  assumes "mongo_laws (env_mongo E) V" and "holds V (db s) B"
    and "oid_of_string (env_mongo E) (add_whiteboard_id (addelement (action_of p))) = Some i"
  shows "\<exists>d'. holds V d' (spec_add (add_user_id (addelement (action_of p))) (added_string E p) i B) \<and>
    handle_add_element_request E p k s =
      (case B i of
         None \<Rightarrow> respond E k p False ''User is not authorized to add element or whiteboard not found'' s
       | Some b \<Rightarrow> seq
           (if may_add b (add_user_id (addelement (action_of p)))
            then respond E k p True ''Element added successfully'' else ret ())
           (handle_broadcast E (add_whiteboard_id (addelement (action_of p)))) (s\<lparr>db := d'\<rparr>))"
  by (rule add_element_at [OF assms, of k]) blast

definition add_packet :: "u32 \<Rightarrow> pb_packet" where
  "add_packet uid = request (ActAddElement
     \<lparr>add_user_id = uid, add_whiteboard_id = sample_wid, add_element = None\<rparr>)"

lemma add_packet_fields [simp]:
  "addelement (action_of (add_packet uid)) =
     \<lparr>add_user_id = uid, add_whiteboard_id = sample_wid, add_element = None\<rparr>"
  "pk_id (add_packet uid) = 1"
  by (simp_all add: add_packet_def) (simp add: request_def)

theorem add_element_authorised_witness:
  "\<exists>d'. holds mem_view d' sample_boards \<and>
    handle_add_element_request mem_env (add_packet 8) 3 (sample_server {3} {}) =
      handle_broadcast mem_env sample_wid (sample_server {3} {}\<lparr>db := d'\<rparr>)"
  using add_element_authorised [OF mem_env_laws sample_holds, of "add_packet 8" 1 3 "{3}" "{}"]
  by (simp add: sample_oids sample_board_def sample_boards_def spec_add_def may_add_def act_at)

lemma for_each_sends:
  assumes "set ks \<subseteq> live_sockets s" and "\<And>t k. env_write_ok E t k"
  shows "for_each ks (\<lambda>k. send_packet E k w) s =
    (Inr (), s\<lparr>sent := sent s @ map (\<lambda>k. (k, w)) ks, tick := tick s + length ks\<rparr>)"
  using assms(1)
proof (induction ks arbitrary: s)
  case (Cons k ks)
  then show ?case
    using assms(2) Cons.IH [of "s\<lparr>sent := sent s @ [(k, w)], tick := Suc (tick s)\<rparr>"]
    by (simp add: act_at send_packet_def)
qed (simp add: ret_at)

text \<open>The writes of an authorised add.\<close>

lemma added_element_sends:
  assumes laws: "mongo_laws (env_mongo E) V" and B: "holds V (db s) B"
    and i: "oid_of_string (env_mongo E) (add_whiteboard_id (addelement (action_of p))) = Some i"
    and b: "B i = Some b" "may_add b (add_user_id (addelement (action_of p)))"
    and S: "whiteboard_sessions s (add_whiteboard_id (addelement (action_of p))) = Some S" "finite S"
    and live: "insert k S \<subseteq> live_sockets s" and writes: "\<And>t j. env_write_ok E t j"
  shows "sent (snd (handle_add_element_request E p k s)) = sent s @
    [(k, new_action_response True ''Element added successfully''
       (new_wb_packet server_version T_actionResponse (pk_id p)))] @
    map (\<lambda>j. (j, new_broadcast (map (parse_element (env_rt E)) (b_elems b @ [added_string E p]))
       (new_wb_packet server_version T_broadcast (env_rand E (Suc (tick s)))))) (sorted_list_of_set S)"
proof -
  let ?wid = "add_whiteboard_id (addelement (action_of p))" and ?b = "b\<lparr>b_elems := b_elems b @ [added_string E p]\<rparr>"
  let ?w = "new_action_response True ''Element added successfully''
       (new_wb_packet server_version T_actionResponse (pk_id p))"
  obtain d' where d': "holds V d' (B(i \<mapsto> ?b))" and
    run: "handle_add_element_request E p k s =
      seq (respond E k p True ''Element added successfully'') (handle_broadcast E ?wid) (s\<lparr>db := d'\<rparr>)"
    by (rule add_element_at [OF laws B i, of k]) (use b in \<open>simp add: spec_add_def\<close>)
  let ?t = "s\<lparr>db := d', sent := sent s @ [(k, ?w)], tick := Suc (tick s)\<rparr>"
  have answer: "respond E k p True ''Element added successfully'' (s\<lparr>db := d'\<rparr>) = (Inr (), ?t)"
    using live writes by (simp add: respond_def send_packet_def)
  have "handle_broadcast E ?wid ?t = for_each (sorted_list_of_set S)
      (\<lambda>j. send_packet E j (elements_packet E (tick ?t) ?b)) (?t\<lparr>tick := Suc (tick ?t)\<rparr>)"
    using d' S by (intro broadcast_at [where B = "B(i \<mapsto> ?b)", OF mongo_laws_parts(1) [OF laws] _ _ i]) simp_all
  moreover have "set (sorted_list_of_set S) \<subseteq> live_sockets (?t\<lparr>tick := Suc (tick ?t)\<rparr>)"
    using live S(2) by simp
  ultimately have "sent (snd (handle_broadcast E ?wid ?t)) = sent s @ [(k, ?w)] @
      map (\<lambda>j. (j, elements_packet E (tick ?t) ?b)) (sorted_list_of_set S)"
    using for_each_sends [OF _ writes, of "sorted_list_of_set S" "?t\<lparr>tick := Suc (tick ?t)\<rparr>"
        "elements_packet E (tick ?t) ?b"] by simp
  then show ?thesis
    unfolding run by (simp add: seq_at answer elements_packet_def)
qed

text \<open>
  C4: when a user adds an element to a whiteboard with a session, what is written is the
  answer to the sender, and then, once to every socket of the session and to nobody else,
  one packet with all elements of the whiteboard including the new one, in order.
  (Hypotheses: the laws of the database, well-typed boards, an id that parses, the user may
  add, the sockets involved are open and their writes succeed.)
\<close>

theorem added_element_reaches_session:
  assumes laws: "mongo_laws (env_mongo E) V" and B: "holds V (db s) B"
    and i: "oid_of_string (env_mongo E) (add_whiteboard_id (addelement (action_of p))) = Some i"
    and b: "B i = Some b" "may_add b (add_user_id (addelement (action_of p)))"
    and S: "whiteboard_sessions s (add_whiteboard_id (addelement (action_of p))) = Some S" "finite S"
    and live: "insert k S \<subseteq> live_sockets s" and writes: "\<And>t j. env_write_ok E t j"
  shows "\<exists>rid. sent (snd (handle_add_element_request E p k s)) = sent s @
    [(k, new_action_response True ''Element added successfully''
       (new_wb_packet server_version T_actionResponse (pk_id p)))] @
    map (\<lambda>j. (j, new_broadcast (map (parse_element (env_rt E)) (b_elems b @ [added_string E p]))
       (new_wb_packet server_version T_broadcast rid))) (sorted_list_of_set S)"
  using added_element_sends [OF assms] by blast

theorem added_element_reaches_session_witness:
  "\<exists>rid. sent (snd (handle_add_element_request mem_env (add_packet 7) 3 (sample_server {3, 4} {3, 4}))) =
    [(3, new_action_response True ''Element added successfully'' (new_wb_packet server_version T_actionResponse 1)),
     (3, new_broadcast [ElementNotSet] (new_wb_packet server_version T_broadcast rid)),
     (4, new_broadcast [ElementNotSet] (new_wb_packet server_version T_broadcast rid))]"
proof -
  have "sorted_list_of_set {3, 4 :: nat} = [3, 4]" by simp
  moreover have "parse_element sample_rt [] = ElementNotSet" "added_string mem_env (add_packet 7) = []"
    by (simp_all add: sample_rt_def table_rt_def added_string_def)
  ultimately show ?thesis
    using added_element_reaches_session [OF mem_env_laws sample_holds, of "add_packet 7" 1
        "sample_board" "{3, 4}" "{3, 4}" "{3, 4}" 3]
    by (simp add: sample_oids sample_board_def sample_boards_def may_add_def sample_server_def)
qed

text \<open>
  C18: no element is ever modified. For an active user and an element that is stored, the
  update the handler makes is refused by the database, because it pulls from and pushes to
  the same field: the handler throws before it answers and the connection is closed. In the
  other cases it answers with a refusal, or not at all; the database is never changed.
  (Hypotheses: the laws of the database, well-typed boards, an id that parses.)
\<close>

theorem modify_never_changes:
  assumes "mongo_laws (env_mongo E) V" and "holds V (db s) B"
    and "oid_of_string (env_mongo E) (mod_whiteboard_id (modifyelement (action_of p))) = Some i"
  shows "db (snd (handle_modify_element_request E p k s)) = db s \<and>
    handle_modify_element_request E p k s =
      (case B i of
         None \<Rightarrow> respond E k p False ''User is not authorized to modify element or whiteboard not found'' s
       | Some b \<Rightarrow>
           if mod_user_id (modifyelement (action_of p)) \<notin> (case b_active b of None \<Rightarrow> {} | Some xs \<Rightarrow> set xs)
           then (Inr (), s)
           else if orig_string E p \<in> set (b_elems b) then (Inl Exn_mongo, s)
           else respond E k p False ''Original element is not in the database'' s)"
  unfolding modify_element_at [OF assms] by (simp split: option.split)

definition modify_packet :: pb_packet where
  "modify_packet = request (ActModifyElement \<lparr>mod_user_id = 7, mod_whiteboard_id = sample_wid,
     mod_orig_element = None, mod_modi_element = None\<rparr>)"

definition board_with_element :: "memdb server" where
  "board_with_element = (sample_server {3} {3})\<lparr>db := mem_empty\<lparr>mem_wbs :=
     [(1, AList.update ''elements'' (BArray [BString []]) sample_doc)]\<rparr>\<rparr>"

theorem modify_never_changes_witness:
  "handle_modify_element_request mem_env modify_packet 3 board_with_element = (Inl Exn_mongo, board_with_element)"
proof -
  let ?b = "sample_board\<lparr>b_elems := [[]]\<rparr>"
  have h: "holds mem_view (db board_with_element) [1 \<mapsto> ?b]"
    by (simp add: holds_def board_with_element_def mem_view_def mem_empty_def sample_board_def represents_def
        sample_doc_def)
  have o: "orig_string mem_env modify_packet = []"
    by (simp add: orig_string_def sample_rt_def table_rt_def)
  have w: "modifyelement (action_of modify_packet) = \<lparr>mod_user_id = 7, mod_whiteboard_id = sample_wid,
      mod_orig_element = None, mod_modi_element = None\<rparr>"
    by (simp add: modify_packet_def)
  show ?thesis
    using modify_never_changes [OF mem_env_laws h, of modify_packet 1 3] o w
    by (simp add: sample_oids sample_board_def)
qed

text \<open>
  A whiteboard id that is no ObjectId makes every handler that reads it throw, without
  an answer and without touching the database; only leaving has already taken the socket
  out of the session of that name. (Hypothesis: the id does not parse.)
\<close>

theorem bad_whiteboard_id:
  assumes "oid_of_string (env_mongo E) wid = None"
  shows "handle_create_session_request E
      (request (ActCreateSession \<lparr>rq_user_id = uid, rq_whiteboard_id = wid\<rparr>)) k s = (Inl Exn_bson, s) \<and>
    handle_quit_session_request E
      (request (ActQuitSession \<lparr>rq_user_id = uid, rq_whiteboard_id = wid\<rparr>)) k s = (Inl Exn_bson,
        s\<lparr>whiteboard_sessions := remove_socket_from_whiteboard wid k (whiteboard_sessions s)\<rparr>) \<and>
    handle_add_element_request E
      (request (ActAddElement \<lparr>add_user_id = uid, add_whiteboard_id = wid, add_element = e\<rparr>)) k s =
        (Inl Exn_bson, s) \<and>
    handle_modify_element_request E
      (request (ActModifyElement \<lparr>mod_user_id = uid, mod_whiteboard_id = wid, mod_orig_element = e,
        mod_modi_element = e'\<rparr>)) k s = (Inl Exn_bson, s)"
  using make_oid_none [OF assms]
  by (simp add: handle_create_session_request_def handle_quit_session_request_def
      handle_add_element_request_def handle_modify_element_request_def Let_def act_at remove_socket_def)

theorem bad_whiteboard_id_witness:
  "handle_create_session_request mem_env
     (request (ActCreateSession \<lparr>rq_user_id = 7, rq_whiteboard_id = ''board''\<rparr>)) 3 (sample_server {3} {}) =
     (Inl Exn_bson, sample_server {3} {})"
  using bad_whiteboard_id [of mem_env "''board''" 7 3 "sample_server {3} {}"]
  by (simp add: mem_mongo_def mem_oid_of_string_def)

text \<open>
  Creating a whiteboard stores an empty one of that owner, under an id no other has, and
  answers with the id; a request to open a session that quotes the answer then succeeds for
  the same user, whose session is recorded, and is refused for every other. (Hypotheses:
  the laws of the database, well-typed boards, a user with a number, an open socket whose
  writes succeed.)
\<close>

theorem created_board_can_be_opened:
  assumes laws: "mongo_laws (env_mongo E) V" and B: "holds V (db s) B"
    and uid: "createwhiteboard (action_of p) \<noteq> 0"
    and live: "k \<in> live_sockets s" and writes: "\<And>t j. env_write_ok E t j"
  shows "\<exists>i wid. B i = None \<and>
    (let s1 = snd (handle_create_whiteboard_request E p k s);
         q = request (ActCreateSession \<lparr>rq_user_id = uid', rq_whiteboard_id = wid\<rparr>);
         s2 = snd (handle_create_session_request E q k s1);
         same = (uid' = createwhiteboard (action_of p)) in
     sent s1 = sent s @ [(k, new_action_response True wid
       (new_wb_packet server_version T_actionResponse (pk_id p)))] \<and>
     holds V (db s1) (B(i \<mapsto> new_board (createwhiteboard (action_of p)))) \<and>
     sent s2 = sent s1 @ [(k, new_action_response same
       (if same then ''Session created successfully'' else ''User ID does not match'')
       (new_wb_packet server_version T_actionResponse 1))] \<and>
     holds V (db s2) (B(i \<mapsto> (new_board (createwhiteboard (action_of p)))
       \<lparr>b_active := (if same then Some [uid'] else None)\<rparr>)))"
proof -
  let ?uid = "createwhiteboard (action_of p)"
  obtain i d' where i: "B i = None" and B1: "holds V d' (B(i \<mapsto> new_board ?uid))"
    and run: "create_step E p k ?uid s = respond E k p True (string_of_oid (env_mongo E) i)
      (s\<lparr>tick := Suc (tick s), db := d'\<rparr>)"
    by (rule create_step_at [OF laws B])
  define wid where "wid = string_of_oid (env_mongo E) i"
  have oid: "oid_of_string (env_mongo E) wid = Some i"
    using mongo_laws_parts(1) [OF laws] by (simp add: wid_def find_laws_def)
  define q where "q = request (ActCreateSession \<lparr>rq_user_id = uid', rq_whiteboard_id = wid\<rparr>)"
  have q: "createsession (action_of q) = \<lparr>rq_user_id = uid', rq_whiteboard_id = wid\<rparr>" "pk_id q = 1"
    by (simp add: q_def, simp add: q_def request_def)
  define s1 where "s1 = snd (handle_create_whiteboard_request E p k s)"
  have s1: "s1 = s\<lparr>tick := Suc (Suc (tick s)), db := d', sent := sent s @ [(k, new_action_response True wid
       (new_wb_packet server_version T_actionResponse (pk_id p)))]\<rparr>"
    using uid run live writes
    by (simp add: s1_def create_whiteboard_eq respond_def send_packet_def wid_def)
  have B1': "holds V (db s1) (B(i \<mapsto> new_board ?uid))" using B1 by (simp add: s1)
  obtain d2 where d2: "holds V d2 (spec_open (rq_user_id (createsession (action_of q))) i (B(i \<mapsto> new_board ?uid)))" and
    run2: "handle_create_session_request E q k s1 =
      (case open_answer (rq_user_id (createsession (action_of q))) ((B(i \<mapsto> new_board ?uid)) i) of (ok, msg) \<Rightarrow>
        respond E k q ok msg (s1\<lparr>whiteboard_sessions :=
          (if ok then add_socket_to_whiteboard (rq_whiteboard_id (createsession (action_of q))) k (whiteboard_sessions s1)
           else whiteboard_sessions s1), db := d2\<rparr>))"
    by (rule create_session_at [OF laws B1', of q i k]) (simp add: q oid)
  define same where "same = (uid' = ?uid)"
  have parts: "sent s1 = sent s @ [(k, new_action_response True wid (new_wb_packet server_version T_actionResponse (pk_id p)))]"
      "k \<in> live_sockets s1"
    using live by (simp_all add: s1)
  have "db (snd (handle_create_session_request E q k s1)) = d2"
    unfolding run2 by (simp split: prod.split)
  moreover have "spec_open (rq_user_id (createsession (action_of q))) i (B(i \<mapsto> new_board ?uid)) =
      B(i \<mapsto> (new_board ?uid)\<lparr>b_active := (if same then Some [uid'] else None)\<rparr>)"
    by (auto simp: spec_open_def q same_def new_board_def)
  moreover have "sent (snd (handle_create_session_request E q k s1)) = sent s1 @ [(k, new_action_response same
       (if same then ''Session created successfully'' else ''User ID does not match'')
       (new_wb_packet server_version T_actionResponse 1))]"
    unfolding run2 using parts(2) writes
    by (auto simp: open_answer_def new_board_def q same_def respond_def send_packet_def)
  ultimately show ?thesis
    using i d2 parts(1) B1' unfolding Let_def
    by (intro exI [of _ i] exI [of _ wid], fold s1_def q_def same_def) simp
qed

theorem created_board_can_be_opened_witness:
  "\<exists>wid. sent (snd (handle_create_whiteboard_request mem_env (request (ActCreateWhiteBoard 7)) 3
      ((server_init mem_empty)\<lparr>live_sockets := {3}\<rparr>))) =
    [(3, new_action_response True wid (new_wb_packet server_version T_actionResponse 1))]"
proof -
  have "holds mem_view (db ((server_init mem_empty)\<lparr>live_sockets := {3}\<rparr>)) Map.empty"
    by (simp add: server_init_def empty_holds)
  from created_board_can_be_opened [OF mem_env_laws this, of "request (ActCreateWhiteBoard 7)" 3 7]
  obtain wid where "sent (snd (handle_create_whiteboard_request mem_env (request (ActCreateWhiteBoard 7)) 3
      ((server_init mem_empty)\<lparr>live_sockets := {3}\<rparr>))) =
    sent ((server_init mem_empty)\<lparr>live_sockets := {3}\<rparr>) @
    [(3, new_action_response True wid (new_wb_packet server_version T_actionResponse
       (pk_id (request (ActCreateWhiteBoard 7)))))]"
    by (auto simp: Let_def)
  then show ?thesis
    by (intro exI [of _ wid]) (simp add: server_init_def request_def)
qed

text \<open>Giving an anonymous user a number.\<close>

lemma assign_at:
  assumes laws: "mongo_laws (env_mongo E) V" and n: "next_uid V (db s) < 2 ^ 31"
    and fresh: "\<forall>old \<in> set (v_users V (db s)). field old ''_id'' \<noteq> Some (BInt32 (word_of_nat (next_uid V (db s))))"
    and k: "k \<in> live_sockets s"
  obtains t where "handle_assign_user_id E k s = (Inr (word_of_nat (next_uid V (db s))), t)"
    and "v_wbs V (db t) = v_wbs V (db s)" and "live_sockets t = live_sockets s"
proof -
  let ?uid = "word_of_nat (next_uid V (db s)) :: u32" and ?doc = "anonymous_doc (word_of_nat (next_uid V (db s)))"
  from getNextSequence_uid [OF mongo_laws_parts(3) [OF laws], of s] n obtain d1 where
    d1: "getNextSequence E s = (Inr ?uid, s\<lparr>db := d1\<rparr>)" "v_wbs V d1 = v_wbs V (db s)" "v_users V d1 = v_users V (db s)"
    by auto
  have "\<forall>old \<in> set (v_users V (db (s\<lparr>db := d1\<rparr>))). field old ''_id'' \<noteq> field ?doc ''_id''"
    using fresh d1 by simp
  from db_call_insert_user [OF mongo_laws_parts(2) [OF laws] this] obtain d2 where
    d2: "db_call (insert_user (env_mongo E) ?doc) (s\<lparr>db := d1\<rparr>) = (Inr (Some 1), s\<lparr>db := d1\<rparr>\<lparr>db := d2\<rparr>)"
      "v_wbs V d2 = v_wbs V (db (s\<lparr>db := d1\<rparr>))" .
  let ?t = "snd (handle_assign_user_id E k s)"
  have "handle_assign_user_id E k s = (Inr ?uid, ?t)" "db ?t = d2" "live_sockets ?t = live_sockets s"
    using d1(1) d2(1) k by (simp_all add: assign_eq act_at send_packet_def)
  with d1 d2 show ?thesis by (intro that [of ?t]) simp_all
qed

text \<open>
  C39: numbers start at 0, which also means "anonymous": the first user to register on an
  empty database is answered with the number 0, and a whiteboard this user then creates
  belongs to the next number, 1, not to the user. (Hypotheses: the laws of the database,
  which is empty; an open socket.)
\<close>

theorem first_user_does_not_own:
  assumes laws: "mongo_laws (env_mongo E) V" and B: "holds V d Map.empty"
    and users: "v_users V d = []" "v_seq V d = None"
    and uid: "createwhiteboard (action_of p) = 0"
  shows "let s = (server_init d)\<lparr>live_sockets := {k}\<rparr>;
      s1 = snd (handle_register_request E q k s);
      s2 = snd (handle_create_whiteboard_request E p k s1)
    in (\<exists>d'. handle_register_request E q k s =
        send_packet E k (id_answer 0 (pk_id q)) (s\<lparr>tick := Suc (tick s), db := d'\<rparr>)) \<and>
      (\<exists>i. holds V (db s2) [i \<mapsto> new_board 1])"
proof -
  define s where "s = (server_init d)\<lparr>live_sockets := {k}\<rparr>"
  let ?t = "s\<lparr>tick := Suc (tick s)\<rparr>"
  have s: "db s = d" "live_sockets s = {k}" by (simp_all add: s_def server_init_def)
  have n: "next_uid V d = 0" by (simp add: next_uid_def seq_value_def users)
  have "\<forall>old \<in> set (v_users V (db ?t)). field old ''_id'' \<noteq> Some (BInt32 (word_of_nat (next_uid V (db ?t))))"
    and n': "next_uid V (db ?t) < 2 ^ 31"
    using s n by (simp_all add: users)
  from register_step_new [OF laws n' this(1), of q k "salt_of E s"] obtain d1 where
    step: "register_step E q k (salt_of E s) ?t = send_packet E k (id_answer (word_of_nat (next_uid V (db ?t))) (pk_id q)) (?t\<lparr>db := d1\<rparr>)"
    and d1: "v_users V d1 = v_users V (db ?t) @ [account_doc (word_of_nat (next_uid V (db ?t)))
      (acc_username (registerrequest (action_of q))) (salt_of E s) (acc_password_hash (registerrequest (action_of q)))]"
      "v_seq V d1 = Some (Suc (next_uid V (db ?t)))" "v_wbs V d1 = v_wbs V (db ?t)" .
  have free: "find (is_user (acc_username (registerrequest (action_of q)))) (v_users V (db s)) = None"
    by (simp add: s users)
  have reg: "handle_register_request E q k s = send_packet E k (id_answer 0 (pk_id q)) (s\<lparr>tick := Suc (tick s), db := d1\<rparr>)"
    using register_free [OF mongo_laws_parts(1) [OF laws] free, of k] step by (simp add: s n)
  define s1 where "s1 = snd (handle_register_request E q k s)"
  have s1: "db s1 = d1" "live_sockets s1 = {k}" by (simp_all add: s1_def reg s send_packet_def)
  have n1: "next_uid V (db s1) = 1" using d1(2) by (simp add: next_uid_def seq_value_def s1 s n [unfolded next_uid_def seq_value_def])
  have "\<forall>old \<in> set (v_users V (db s1)). field old ''_id'' \<noteq> Some (BInt32 (word_of_nat (next_uid V (db s1))))"
    unfolding n1 using d1(1) by (simp add: s1 s n users)
  moreover have "next_uid V (db s1) < 2 ^ 31" "k \<in> live_sockets s1" using n1 s1(2) by simp_all
  ultimately obtain t where "handle_assign_user_id E k s1 = (Inr (word_of_nat (next_uid V (db s1))), t)"
    and t2: "v_wbs V (db t) = v_wbs V (db s1)"
    using assign_at [OF laws] by metis
  with n1 have t: "handle_assign_user_id E k s1 = (Inr 1, t)" by simp
  have Bt: "holds V (db t) Map.empty"
    using B d1(3) by (intro holds_same [OF B]) (simp add: t2 s1 s)
  obtain i d2 where "holds V d2 [i \<mapsto> new_board 1]"
    "create_step E p k 1 t = respond E k p True (string_of_oid (env_mongo E) i) (t\<lparr>tick := Suc (tick t), db := d2\<rparr>)"
    by (rule create_step_at [OF laws Bt])
  then have "\<exists>i. holds V (db (snd (handle_create_whiteboard_request E p k s1))) [i \<mapsto> new_board 1]"
    using uid t by (auto simp: create_whiteboard_eq bnd_at)
  with reg show ?thesis
    unfolding Let_def s_def [symmetric] s1_def [symmetric] by blast
qed

theorem first_user_does_not_own_witness:
  "let s = (server_init mem_empty)\<lparr>live_sockets := {3}\<rparr>;
      s1 = snd (handle_register_request mem_env (register_packet ''ann'' ''pw'') 3 s);
      s2 = snd (handle_create_whiteboard_request mem_env (create_packet 1) 3 s1)
    in \<exists>i. holds mem_view (db s2) [i \<mapsto> new_board 1]"
  using first_user_does_not_own [OF mem_env_laws empty_holds, of "create_packet 1" 3 "register_packet ''ann'' ''pw''"]
  by (simp add: mem_view_def mem_empty_def create_packet_def action_of_def Let_def)

end
