(* ===== verification/Client.thy ===== *)
theory Client
  imports Packet Sha256_Props
begin

text \<open>
  The class \<open>WhiteboardClient\<close> of \<open>src/client/client.hpp\<close> and \<open>src/client/client.cpp\<close>: the
  members that carry its state as a record, the requests it sends, what it does with what it
  receives, closing, and the connection attempts with their deadline. The theorems are in
  \<open>Client_Props\<close>.
\<close>

section \<open>State and environment\<close>

text \<open>
  \<open>send_queue\<close> maps the id of a request to its type, a number as in the \<open>enum class\<close>.
  \<open>cl_wire\<close> is what was written to the socket, one entry per write; \<open>cl_posted\<close> counts the
  closing tasks handed to the \<open>io_context\<close>; \<open>cl_reading\<close> says that an asynchronous read is
  outstanding. A deadline is a time, or never.
\<close>

datatype deadline = Pos_infin | Expires_at int

record client =
  cl_user_id :: u32
  cl_whiteboard_id :: string
  cl_packet_counter :: u32
  cl_connected :: bool
  cl_send_queue :: "u32 \<rightharpoonup> u32"
  cl_received_queue :: "wb_packet list"
  cl_input_buffer :: "u8 list"
  cl_deadline :: deadline
  cl_socket_open :: bool
  cl_reading :: bool
  cl_posted :: nat
  cl_wire :: "u8 list list"

datatype client_error =
    ClientReceiveServerSideFail string
  | ClientReceivedWrongPacketType
  | System_error
  | Element_error element_error

type_synonym 'a client_act = "(client, client_error, 'a) act"

text \<open>
  What the client calls and does not define: protobuf, what unread memory holds (a message
  length and the rest of the stream, a new element, a packet object made from a message),
  what parsing leaves in the persistent buffer, whether the n-th write succeeds, the clock.
\<close>

record client_env =
  ce_rt :: pb_runtime
  ce_junk :: "u32 \<times> u8 list"
  ce_mem :: elements
  ce_packet_mem :: "u32 \<times> u32"
  ce_leftover :: "u8 list \<Rightarrow> u8 list"
  ce_write_ok :: "nat \<Rightarrow> bool"
  ce_now :: int

definition client_version :: u32 where
  "client_version = 1"

text \<open>The constructor; \<open>user_id\<close> has no initialiser and keeps what the memory held.\<close>

definition new_client :: "u32 \<Rightarrow> client" where
  "new_client mem = \<lparr>cl_user_id = mem, cl_whiteboard_id = [], cl_packet_counter = 0,
     cl_connected = True, cl_send_queue = Map.empty, cl_received_queue = [], cl_input_buffer = [],
     cl_deadline = Pos_infin, cl_socket_open = True, cl_reading = False, cl_posted = 0, cl_wire = []\<rparr>"

section \<open>Requests\<close>

text \<open>The request is recorded before it is written; a failed write throws.\<close>

definition client_send_packet :: "client_env \<Rightarrow> wb_packet \<Rightarrow> unit client_act" where
  "client_send_packet E packet = (\<lambda>c.
     let c1 = c\<lparr>cl_send_queue := (cl_send_queue c)(get_packet_id packet \<mapsto> get_packet_type packet)\<rparr>
     in if ce_write_ok E (length (cl_wire c1))
        then (Inr (), c1\<lparr>cl_wire := cl_wire c1 @ [serialize_coded (ce_rt E) packet]\<rparr>)
        else (Inl System_error, c1))"

text \<open>\<open>WhiteboardPacket packet(version, type, ++packet_counter)\<close>.\<close>

definition make_packet :: "packet_type \<Rightarrow> wb_packet client_act" where
  "make_packet t = (\<lambda>c. let n = cl_packet_counter c + 1
     in (Inr (new_wb_packet client_version t n), c\<lparr>cl_packet_counter := n\<rparr>))"

definition of_element_result :: "element_error + 'a \<Rightarrow> 'a client_act" where
  "of_element_result r = (case r of Inl e \<Rightarrow> throw (Element_error e) | Inr x \<Rightarrow> ret x)"

definition send_create_whiteboard_request :: "client_env \<Rightarrow> unit client_act" where
  "send_create_whiteboard_request E =
     bnd (make_packet T_createWhiteboard) (\<lambda>packet.
     bnd (get_st cl_user_id) (\<lambda>user_id.
     client_send_packet E (new_create_whiteboard_request user_id packet)))"

definition send_create_session_request :: "client_env \<Rightarrow> unit client_act" where
  "send_create_session_request E =
     bnd (make_packet T_createSession) (\<lambda>packet.
     bnd (get_st (\<lambda>c. (cl_user_id c, cl_whiteboard_id c))) (\<lambda>(user_id, whiteboard_id).
     client_send_packet E (new_create_session_request user_id whiteboard_id packet)))"

definition send_join_session_request :: "client_env \<Rightarrow> string \<Rightarrow> unit client_act" where
  "send_join_session_request E wid =
     bnd (make_packet T_joinSession) (\<lambda>packet.
     bnd (get_st cl_user_id) (\<lambda>user_id.
     client_send_packet E (new_join_session_request user_id wid packet)))"

definition send_quit_session_request :: "client_env \<Rightarrow> unit client_act" where
  "send_quit_session_request E =
     bnd (make_packet T_quitSession) (\<lambda>packet.
     bnd (get_st (\<lambda>c. (cl_user_id c, cl_whiteboard_id c))) (\<lambda>(user_id, whiteboard_id).
     client_send_packet E (new_quit_session_request user_id whiteboard_id packet)))"

definition send_add_element_request :: "client_env \<Rightarrow> elements \<Rightarrow> unit client_act" where
  "send_add_element_request E ele =
     bnd (make_packet T_addElement) (\<lambda>packet.
     bnd (get_st (\<lambda>c. (cl_user_id c, cl_whiteboard_id c))) (\<lambda>(user_id, whiteboard_id).
     bnd (of_element_result (new_add_element_request user_id whiteboard_id ele packet)) (\<lambda>packet.
     client_send_packet E packet)))"

definition send_login_request :: "client_env \<Rightarrow> string \<Rightarrow> string \<Rightarrow> unit client_act" where
  "send_login_request E username password =
     bnd (make_packet T_loginRequest) (\<lambda>packet.
     let password_hash = hash_hex password
     in client_send_packet E (new_login_request username password_hash packet))"

definition send_register_request :: "client_env \<Rightarrow> string \<Rightarrow> string \<Rightarrow> unit client_act" where
  "send_register_request E username password =
     bnd (make_packet T_registerRequest) (\<lambda>packet.
     let password_hash = hash_hex password
     in client_send_packet E (new_register_request username password_hash packet))"

section \<open>Answers\<close>

text \<open>\<open>send_queue[packet_id]\<close> makes an entry, with the value 0 no enumerator has, if there is none.\<close>

definition queued_type :: "u32 \<Rightarrow> u32 client_act" where
  "queued_type i = (\<lambda>c. case cl_send_queue c i of
      Some t \<Rightarrow> (Inr t, c)
    | None \<Rightarrow> (Inr 0, c\<lparr>cl_send_queue := (cl_send_queue c)(i \<mapsto> 0)\<rparr>))"

definition require :: "bool \<Rightarrow> string \<Rightarrow> unit client_act" where
  "require success msg = (if \<not> success then throw (ClientReceiveServerSideFail msg) else ret ())"

definition handle_action_response :: "pb_packet \<Rightarrow> unit client_act" where
  "handle_action_response packet =
     (let response = actionresponse (action_of packet);
          ok = resp_success response
      in bnd (queued_type (pk_id packet)) (\<lambda>t. case type_of_code t of
          Some T_createWhiteboard \<Rightarrow>
            if ok then mod_st (\<lambda>c. c\<lparr>cl_whiteboard_id := resp_message response\<rparr>)
            else throw (ClientReceiveServerSideFail ''Server fail to create a whiteboard'')
        | Some T_createSession \<Rightarrow> require ok ''Server fail to create a session''
        | Some T_joinSession \<Rightarrow>
            if ok then mod_st (\<lambda>c. c\<lparr>cl_whiteboard_id := resp_message response\<rparr>)
            else throw (ClientReceiveServerSideFail ''Server fail to join a session'')
        | Some T_quitSession \<Rightarrow> require ok ''Server fail to quit a session''
        | Some T_addElement \<Rightarrow> require ok ''Server fail to add an element''
        | Some T_modifyElement \<Rightarrow> require ok ''Server fail to modify an element''
        | Some T_deleteElement \<Rightarrow> require ok ''Server fail to delete an element''
        | Some T_saveWhiteboard \<Rightarrow> require ok ''Server help you save the whiteboard''
        | Some T_loginRequest \<Rightarrow> require ok ''Server fail to login the user''
        | Some T_registerRequest \<Rightarrow> require ok ''Server fail to register the user''
        | _ \<Rightarrow> ret ()))"

definition handle_temp_id_response :: "pb_packet \<Rightarrow> unit client_act" where
  "handle_temp_id_response packet =
     (let response = tempidresponse (action_of packet); uid = temp_user_id response
      in if temp_success response then mod_st (\<lambda>c. c\<lparr>cl_user_id := uid\<rparr>)
         else throw (ClientReceiveServerSideFail ''Server fail to create user_id''))"

text \<open>\<open>temp.from_protobuf(ele)\<close> returns the new element; the result is not used.\<close>

definition client_handle_broadcast :: "client_env \<Rightarrow> pb_packet \<Rightarrow> elements list client_act" where
  "client_handle_broadcast E packet =
     ret (foldl (\<lambda>element ele.
            let temp = new_elements (ce_mem E);
                unused = from_protobuf temp (ce_mem E) ele
            in element @ [temp]) [] (broadcast_elements (action_of packet)))"

text \<open>The \<open>switch\<close> on the packet type and the queueing, the same in the two receivers.\<close>

definition process_packet :: "client_env \<Rightarrow> pb_packet \<Rightarrow> unit client_act" where
  "process_packet E received_packet =
     seq (case type_of_code (pk_type received_packet) of
            Some T_actionResponse \<Rightarrow> handle_action_response received_packet
          | Some T_tempIdResponse \<Rightarrow> handle_temp_id_response received_packet
          | Some T_broadcast \<Rightarrow>
              bnd (client_handle_broadcast E received_packet) (\<lambda>elements. ret ())
          | _ \<Rightarrow> throw ClientReceivedWrongPacketType)
       (case ce_packet_mem E of (ver, i) \<Rightarrow>
          mod_st (\<lambda>c. c\<lparr>cl_received_queue := cl_received_queue c @ [fst (packet_of_ref ver i received_packet)]\<rparr>))"

text \<open>\<open>read_until\<close> returns the number of bytes up to and including the newline.\<close>

definition bytes_until_newline :: "u8 list \<Rightarrow> nat" where
  "bytes_until_newline buffer = length (takeWhile (\<lambda>b. b \<noteq> 10) buffer) + 1"

definition handle_receive :: "client_env \<Rightarrow> read_result \<Rightarrow> bool client_act" where
  "handle_receive E r = (case r of
      Read_eof \<Rightarrow> ret False
    | Read_error \<Rightarrow> throw System_error
    | Read_ok buffer \<Rightarrow>
        if bytes_until_newline buffer = 0 then ret False
        else seq (process_packet E (parse_packet (ce_rt E) (ce_junk E) buffer)) (ret True))"

definition handle_receive_async :: "client_env \<Rightarrow> unit client_act" where
  "handle_receive_async E = mod_st (\<lambda>c. c\<lparr>cl_deadline := Expires_at (ce_now E + 3), cl_reading := True\<rparr>)"

text \<open>
  The completion of an asynchronous read: \<open>arrived\<close> was appended to the persistent buffer,
  or the read failed (\<open>None\<close>).
\<close>

definition handle_single_packet :: "client_env \<Rightarrow> u8 list option \<Rightarrow> unit client_act" where
  "handle_single_packet E arrived =
     seq (mod_st (\<lambda>c. c\<lparr>cl_reading := False, cl_input_buffer :=
            cl_input_buffer c @ (case arrived of None \<Rightarrow> [] | Some bytes \<Rightarrow> bytes)\<rparr>)) (
     bnd (get_st (\<lambda>c. (cl_connected c, cl_input_buffer c))) (\<lambda>(connected, buffer).
     if \<not> connected then ret ()
     else (case arrived of
         None \<Rightarrow> ret ()
       | Some _ \<Rightarrow>
           seq (mod_st (\<lambda>c. c\<lparr>cl_input_buffer := ce_leftover E buffer\<rparr>)) (
           seq (process_packet E (parse_packet (ce_rt E) (ce_junk E) buffer)) (
           handle_receive_async E)))))"

section \<open>Connecting and closing\<close>

definition close :: "unit client_act" where
  "close = mod_st (\<lambda>c. if cl_connected c
     then c\<lparr>cl_connected := False, cl_posted := Suc (cl_posted c)\<rparr> else c)"

text \<open>The task \<open>close\<close> posts; \<open>shutdown_ok\<close> is whether the socket could be shut down.\<close>

definition run_posted_close :: "bool \<Rightarrow> unit client_act" where
  "run_posted_close shutdown_ok = mod_st (\<lambda>c.
     if shutdown_ok then c\<lparr>cl_socket_open := False\<rparr> else c)"

definition check_deadline :: "client_env \<Rightarrow> unit client_act" where
  "check_deadline E = mod_st (\<lambda>c.
     if \<not> cl_connected c then c
     else (case cl_deadline c of
         Pos_infin \<Rightarrow> c
       | Expires_at t \<Rightarrow>
           if t \<le> ce_now E then c\<lparr>cl_socket_open := False, cl_deadline := Pos_infin\<rparr> else c))"

text \<open>
  \<open>start_connect\<close> with the endpoints from \<open>endpoint_iter\<close> on: it returns the endpoint the
  asynchronous connect was started for (which opens the socket), or closes the client.
\<close>

definition start_connect :: "client_env \<Rightarrow> 'ep list \<Rightarrow> 'ep option client_act" where
  "start_connect E endpoint_iter = (case endpoint_iter of
      endpoint # _ \<Rightarrow>
        seq (mod_st (\<lambda>c. c\<lparr>cl_deadline := Expires_at (ce_now E + 60), cl_socket_open := True\<rparr>))
            (ret (Some endpoint))
    | [] \<Rightarrow> seq close (ret None))"

text \<open>\<open>handle_connect\<close>; \<open>failed\<close> is the error code. \<open>Inr\<close> of the next attempt, if one was started.\<close>

definition handle_connect :: "client_env \<Rightarrow> bool \<Rightarrow> 'ep list \<Rightarrow> 'ep option client_act" where
  "handle_connect E failed endpoint_iter =
     bnd (get_st cl_socket_open) (\<lambda>is_open.
     if \<not> is_open then start_connect E (tl endpoint_iter)
     else if failed then
       seq (mod_st (\<lambda>c. c\<lparr>cl_socket_open := False\<rparr>)) (start_connect E (tl endpoint_iter))
     else seq (handle_receive_async E) (ret None))"

text \<open>
  \<open>start\<close> runs the attempts: per endpoint, the deadline passes first (and \<open>check_deadline\<close>
  closes the socket), the connect fails, or it succeeds. The result is the endpoints tried.
\<close>

datatype attempt = Timed_out | Refused | Accepted

fun connect_from :: "client_env \<Rightarrow> ('ep \<Rightarrow> attempt) \<Rightarrow> 'ep list \<Rightarrow> 'ep list client_act" where
  "connect_from E outcome [] = ret []"
| "connect_from E outcome (ep # eps) =
     seq (if outcome ep = Timed_out then check_deadline (E\<lparr>ce_now := ce_now E + 60\<rparr>) else ret ()) (
     bnd (handle_connect E (outcome ep \<noteq> Accepted) (ep # eps)) (\<lambda>next_attempt. case next_attempt of
       Some _ \<Rightarrow> bnd (connect_from E outcome eps) (\<lambda>tried. ret (ep # tried))
     | None \<Rightarrow> ret [ep]))"

definition start :: "client_env \<Rightarrow> ('ep \<Rightarrow> attempt) \<Rightarrow> 'ep list \<Rightarrow> 'ep list client_act" where
  "start E outcome iter = bnd (start_connect E iter) (\<lambda>_. connect_from E outcome iter)"

end
