(* ===== verification/Client_Props.thy ===== *)
theory Client_Props
  imports Client
begin

text \<open>
  The properties of the client: its requests are numbered, recorded and written in order,
  what an answer does depends on the request of its number, a broadcast leaves nothing but
  empty elements, and the connection attempts end.
\<close>

section \<open>Requests\<close>

text \<open>The calls of the seven \<open>send_...\<close> methods, with the action each puts into its packet.\<close>

datatype call =
    Create_whiteboard
  | Create_session
  | Join_session string
  | Quit_session
  | Add_element elements
  | Log_in string string
  | Sign_up string string

fun send_call :: "client_env \<Rightarrow> call \<Rightarrow> unit client_act" where
  "send_call E Create_whiteboard = send_create_whiteboard_request E"
| "send_call E Create_session = send_create_session_request E"
| "send_call E (Join_session wid) = send_join_session_request E wid"
| "send_call E Quit_session = send_quit_session_request E"
| "send_call E (Add_element e) = send_add_element_request E e"
| "send_call E (Log_in u pw) = send_login_request E u pw"
| "send_call E (Sign_up u pw) = send_register_request E u pw"

fun call_type :: "call \<Rightarrow> packet_type" where
  "call_type Create_whiteboard = T_createWhiteboard"
| "call_type Create_session = T_createSession"
| "call_type (Join_session wid) = T_joinSession"
| "call_type Quit_session = T_quitSession"
| "call_type (Add_element e) = T_addElement"
| "call_type (Log_in u pw) = T_loginRequest"
| "call_type (Sign_up u pw) = T_registerRequest"

fun call_action :: "u32 \<Rightarrow> string \<Rightarrow> call \<Rightarrow> pb_action" where
  "call_action uid wid Create_whiteboard = ActCreateWhiteBoard uid"
| "call_action uid wid Create_session = ActCreateSession \<lparr>rq_user_id = uid, rq_whiteboard_id = wid\<rparr>"
| "call_action uid wid (Join_session w) = ActJoinSession \<lparr>rq_user_id = uid, rq_whiteboard_id = w\<rparr>"
| "call_action uid wid Quit_session = ActQuitSession \<lparr>rq_user_id = uid, rq_whiteboard_id = wid\<rparr>"
| "call_action uid wid (Add_element e) = ActAddElement \<lparr>add_user_id = uid, add_whiteboard_id = wid,
     add_element = Some (pb_of_shape (shape_of e))\<rparr>"
| "call_action uid wid (Log_in u pw) = ActLogin \<lparr>acc_username = u, acc_password_hash = hash_hex pw\<rparr>"
| "call_action uid wid (Sign_up u pw) = ActRegister \<lparr>acc_username = u, acc_password_hash = hash_hex pw\<rparr>"

text \<open>The packet of a call with its number.\<close>

definition call_packet :: "u32 \<Rightarrow> string \<Rightarrow> u32 \<Rightarrow> call \<Rightarrow> wb_packet" where
  "call_packet uid wid n call =
     sealed (call_type call) (call_action uid wid call) (new_wb_packet client_version (call_type call) n)"

lemma send_call_at:
  "send_call E call c = client_send_packet E
     (call_packet (cl_user_id c) (cl_whiteboard_id c) (cl_packet_counter c + 1) call)
     (c\<lparr>cl_packet_counter := cl_packet_counter c + 1\<rparr>)"
  by (cases call) (simp_all add: send_create_whiteboard_request_def send_create_session_request_def
      send_join_session_request_def send_quit_session_request_def send_add_element_request_def
      send_login_request_def send_register_request_def act_at make_packet_def Let_def builder_defs
      new_packet_sealed to_protobuf_shape of_element_result_def call_packet_def)

lemma call_packet_fields [simp]:
  "get_packet_id (call_packet uid wid n call) = n"
  "get_packet_type (call_packet uid wid n call) = type_code (call_type call)"
  "wp_packet (call_packet uid wid n call) = \<lparr>pk_version = client_version,
     pk_type = type_code (call_type call), pk_id = n, pk_action = Some (call_action uid wid call)\<rparr>"
  by (simp_all add: call_packet_def sealed_def new_wb_packet_def get_packet_id_def get_packet_type_def)

lemma for_each_append: "for_each (xs @ ys) f s = seq (for_each xs f) (for_each ys f) s"
  by (induction xs arbitrary: s) (simp_all add: act_at split: prod.split sum.split)

text \<open>The state after a list of calls, all written.\<close>

definition after_calls :: "client_env \<Rightarrow> call list \<Rightarrow> client \<Rightarrow> client" where
  "after_calls E cs c = c\<lparr>cl_packet_counter := cl_packet_counter c + word_of_nat (length cs),
     cl_send_queue := foldl (\<lambda>m i. m(cl_packet_counter c + word_of_nat (Suc i) \<mapsto> type_code (call_type (cs ! i))))
       (cl_send_queue c) [0..<length cs],
     cl_wire := cl_wire c @ map (\<lambda>i. serialize_coded (ce_rt E)
       (call_packet (cl_user_id c) (cl_whiteboard_id c) (cl_packet_counter c + word_of_nat (Suc i)) (cs ! i)))
       [0..<length cs]\<rparr>"

lemma foldl_cong_upt: "(\<And>i x. i < n \<Longrightarrow> f x i = g x i) \<Longrightarrow> foldl f a [0..<n] = foldl g a [0..<n]"
  by (intro foldl_cong) auto

lemma calls_run:
  assumes "\<And>n. ce_write_ok E n"
  shows "for_each cs (send_call E) c = (Inr (), after_calls E cs c)"
proof (induction cs rule: rev_induct)
  case Nil
  then show ?case by (simp add: ret_at after_calls_def)
next
  case (snoc x xs)
  have nth: "i < length xs \<Longrightarrow> (xs @ [x]) ! i = xs ! i" for i
    by (simp add: nth_append)
  have "foldl (\<lambda>m i. m(cl_packet_counter c + word_of_nat (Suc i) \<mapsto> type_code (call_type ((xs @ [x]) ! i))))
      (cl_send_queue c) [0..<length xs] =
    foldl (\<lambda>m i. m(cl_packet_counter c + word_of_nat (Suc i) \<mapsto> type_code (call_type (xs ! i))))
      (cl_send_queue c) [0..<length xs]"
    by (rule foldl_cong_upt) (simp add: nth)
  then show ?case
    using snoc assms
    by (simp add: for_each_append act_at send_call_at client_send_packet_def after_calls_def nth
        ac_simps cong: map_cong)
qed

lemma foldl_upd_lookup:
  assumes "inj_on g (set is)" and "i \<in> set is" and "distinct is"
  shows "foldl (\<lambda>m i. m(g i \<mapsto> h i)) m0 is (g i) = Some (h i)"
  using assms
proof (induction "is" rule: rev_induct)
  case (snoc x xs)
  then show ?case by (auto simp: inj_on_def)
qed simp

text \<open>
  C31: the requests of a client are numbered 1, 2, 3, ... in the order of the calls; each is
  written once and whole, as the packet of that call with its number, and recorded under its
  number with its type, so that within $2^{32} - 1$ requests every answer finds the request
  it belongs to. (Hypotheses: the writes succeed; the calls are fewer than $2^{32}$.)
\<close>

theorem requests_numbered_and_recorded:
  assumes "\<And>n. ce_write_ok E n" and "length cs < 2 ^ 32"
  shows "fst (for_each cs (send_call E) (new_client mem)) = Inr () \<and>
    cl_wire (snd (for_each cs (send_call E) (new_client mem))) =
      map (\<lambda>i. serialize_coded (ce_rt E) (call_packet mem [] (word_of_nat (Suc i)) (cs ! i))) [0..<length cs] \<and>
    list_all (\<lambda>i. cl_send_queue (snd (for_each cs (send_call E) (new_client mem))) (word_of_nat (Suc i)) =
      Some (type_code (call_type (cs ! i)))) [0..<length cs]"
proof -
  have inj: "inj_on (\<lambda>i. word_of_nat (Suc i) :: u32) (set [0..<length cs])"
  proof (rule inj_onI)
    fix i j assume "i \<in> set [0..<length cs]" "j \<in> set [0..<length cs]"
      and eq: "(word_of_nat (Suc i) :: u32) = word_of_nat (Suc j)"
    then have "Suc i < 2 ^ 32" "Suc j < 2 ^ 32" using assms(2) by simp_all
    then have "unat (word_of_nat (Suc i) :: u32) = Suc i" "unat (word_of_nat (Suc j) :: u32) = Suc j"
      by (simp_all add: unat_of_nat del: of_nat_Suc)
    with eq show "i = j" by simp
  qed
  show ?thesis
    using foldl_upd_lookup [OF inj, of _ "\<lambda>i. type_code (call_type (cs ! i))" Map.empty]
    by (simp add: calls_run [OF assms(1)] after_calls_def new_client_def list_all_iff)
qed

definition sample_client_env :: "client_env" where
  "sample_client_env = \<lparr>ce_rt = \<lparr>ser_packet = (\<lambda>p. (True, [])), parse_packet_bytes = (\<lambda>bs. (True, default_packet)),
       write_varint32 = (\<lambda>n. []), read_varint32 = (\<lambda>bs. None), read_raw = (\<lambda>n bs. (True, [])),
       ser_element = (\<lambda>e. []), parse_element = (\<lambda>s. ElementNotSet)\<rparr>,
     ce_junk = (0, []), ce_mem = \<lparr>etype = Null, pos1 = \<lparr>pt_x = 0, pt_y = 0\<rparr>, pos2 = \<lparr>pt_x = 0, pt_y = 0\<rparr>,
       pos3 = \<lparr>pt_x = 0, pt_y = 0\<rparr>, side1 = 0, points = [], content = [], filename = []\<rparr>,
     ce_packet_mem = (0, 0), ce_leftover = (\<lambda>bs. []), ce_write_ok = (\<lambda>n. True), ce_now = 0\<rparr>"

theorem requests_numbered_and_recorded_witness:
  "cl_send_queue (snd (for_each [Log_in ''ann'' ''pw'', Create_whiteboard] (send_call sample_client_env)
     (new_client 9))) 2 = Some (type_code T_createWhiteboard)"
  using requests_numbered_and_recorded [of sample_client_env "[Log_in ''ann'' ''pw'', Create_whiteboard]" 9]
  by (simp add: sample_client_env_def)

section \<open>Answers\<close>

text \<open>
  What an answer does depends only on the request recorded under its number. If there is
  none, the answer is ignored, whatever it says, and the lookup leaves an entry behind that
  keeps it ignored. A refusal of a request throws ClientReceiveServerSideFail and changes
  nothing; a success of creating or joining takes the message as the whiteboard's id, and
  any other success changes nothing.
\<close>

theorem answers_follow_requests:
  "let r = actionresponse (action_of p);
       kinds = {T_actionResponse, T_broadcast, T_tempIdResponse};
       q = (cl_send_queue c)(pk_id p \<mapsto> 0) in
   case cl_send_queue c (pk_id p) of
     None \<Rightarrow> handle_action_response p c = (Inr (), c\<lparr>cl_send_queue := q\<rparr>) \<and>
       handle_action_response p (c\<lparr>cl_send_queue := q\<rparr>) = (Inr (), c\<lparr>cl_send_queue := q\<rparr>)
   | Some t \<Rightarrow> (case type_of_code t of
       None \<Rightarrow> handle_action_response p c = (Inr (), c)
     | Some ty \<Rightarrow>
         (if ty \<in> kinds then handle_action_response p c = (Inr (), c)
          else if \<not> resp_success r
            then \<exists>msg. handle_action_response p c = (Inl (ClientReceiveServerSideFail msg), c)
          else handle_action_response p c = (Inr (), if ty = T_createWhiteboard \<or> ty = T_joinSession
            then c\<lparr>cl_whiteboard_id := resp_message r\<rparr> else c)))"
proof (cases "cl_send_queue c (pk_id p)")
  case None
  have "type_of_code 0 = None" by (simp add: type_of_code_def all_packet_types_def)
  with None show ?thesis
    by (simp add: handle_action_response_def Let_def act_at queued_type_def)
next
  case (Some t)
  then show ?thesis
    by (cases "type_of_code t")
      (auto simp: handle_action_response_def Let_def act_at queued_type_def require_def split: packet_type.split)
qed

text \<open>
  C40: of a broadcast with any elements the client makes as many elements, all empty: what
  from_protobuf returns is dropped. Only the queued packet holds the elements, under a
  packet id that is not the one received.
\<close>

theorem broadcast_elements_are_lost:
  "(\<exists>es. client_handle_broadcast E p c = (Inr es, c) \<and>
     map shape_of es = replicate (length (broadcast_elements (action_of p))) SNull)"
proof -
  have "foldl (\<lambda>element ele. let temp = new_elements (ce_mem E); unused = from_protobuf temp (ce_mem E) ele
      in element @ [temp]) acc eles = acc @ replicate (length eles) (new_elements (ce_mem E))" for acc eles
    by (induction eles arbitrary: acc) (simp_all add: replicate_app_Cons_same)
  moreover have "shape_of (new_elements m) = SNull" for m
    by (simp add: shape_of_def new_elements_def)
  ultimately show ?thesis
    by (simp add: client_handle_broadcast_def ret_at)
qed

text \<open>
  C32: a packet of a type no server sends makes the client throw
  ClientReceivedWrongPacketType before it is queued and without any other effect; a packet
  of one of the three types is queued exactly if its handler does not throw. (Hypothesis: a
  read has delivered a buffer.)
\<close>

theorem received_packets_queued:
  assumes "r = Read_ok buffer"
  shows "let p = parse_packet (ce_rt E) (ce_junk E) buffer; (res, c') = handle_receive E r c in
    (if type_of_code (pk_type p) \<notin> {Some T_actionResponse, Some T_broadcast, Some T_tempIdResponse}
     then res = Inl ClientReceivedWrongPacketType \<and> c' = c
     else (case res of
         Inl e \<Rightarrow> (\<exists>msg. e = ClientReceiveServerSideFail msg) \<and> cl_received_queue c' = cl_received_queue c
       | Inr go_on \<Rightarrow> go_on \<and> (\<exists>w. wp_packet w = p\<lparr>pk_id := snd (ce_packet_mem E)\<rparr> \<and>
           cl_received_queue c' = cl_received_queue c @ [w])))"
proof -
  define p where "p = parse_packet (ce_rt E) (ce_junk E) buffer"
  have queue: "cl_received_queue (snd (handle_action_response p c)) = cl_received_queue c"
      "cl_received_queue (snd (handle_temp_id_response p c)) = cl_received_queue c"
    "\<And>e. fst (handle_action_response p c) = Inl e \<Longrightarrow> \<exists>msg. e = ClientReceiveServerSideFail msg"
    "\<And>e. fst (handle_temp_id_response p c) = Inl e \<Longrightarrow> \<exists>msg. e = ClientReceiveServerSideFail msg"
    by (auto simp: handle_action_response_def handle_temp_id_response_def Let_def act_at queued_type_def
        require_def split: option.splits packet_type.splits if_splits)
  obtain ver i where mem: "ce_packet_mem E = (ver, i)" by fastforce
  have "type_of_code (pk_type p) \<notin> {Some T_actionResponse, Some T_broadcast, Some T_tempIdResponse} \<Longrightarrow>
      process_packet E p c = (Inl ClientReceivedWrongPacketType, c)"
    by (cases "type_of_code (pk_type p)") (auto simp: process_packet_def act_at split: packet_type.split)
  moreover have "type_of_code (pk_type p) \<in> {Some T_actionResponse, Some T_broadcast, Some T_tempIdResponse} \<Longrightarrow>
      (case process_packet E p c of
         (Inl e, c') \<Rightarrow> (\<exists>msg. e = ClientReceiveServerSideFail msg) \<and> cl_received_queue c' = cl_received_queue c
       | (Inr _, c') \<Rightarrow> \<exists>w. wp_packet w = p\<lparr>pk_id := i\<rparr> \<and> cl_received_queue c' = cl_received_queue c @ [w])"
    using queue by (auto simp: process_packet_def act_at mem client_handle_broadcast_def packet_of_ref_def Let_def
        split: prod.splits sum.splits)
  moreover have "handle_receive E r c = (case process_packet E p c of
      (Inl e, c') \<Rightarrow> (Inl e, c') | (Inr _, c') \<Rightarrow> (Inr True, c'))"
    using assms by (simp add: handle_receive_def act_at p_def bytes_until_newline_def split: prod.split sum.split)
  ultimately show ?thesis
    unfolding Let_def p_def [symmetric] mem snd_conv
    by (cases "type_of_code (pk_type p) \<in> {Some T_actionResponse, Some T_broadcast, Some T_tempIdResponse}";
        cases "process_packet E p c"; cases "fst (process_packet E p c)") simp_all
qed

theorem received_packets_queued_witness:
  "handle_receive sample_client_env (Read_ok [10]) (new_client 0) =
     (Inl ClientReceivedWrongPacketType, new_client 0)"
  using received_packets_queued [of "Read_ok [10]" "[10]" sample_client_env "new_client 0"]
  by (simp add: sample_client_env_def parse_packet_def default_packet_def type_of_code_def
      all_packet_types_def Let_def split: prod.splits)

section \<open>Connecting\<close>

fun tried_until :: "('ep \<Rightarrow> attempt) \<Rightarrow> 'ep list \<Rightarrow> 'ep list" where
  "tried_until outcome [] = []"
| "tried_until outcome (ep # eps) = ep # (if outcome ep = Accepted then [] else tried_until outcome eps)"

lemma connect_from_outcome:
  assumes "cl_connected c" and "eps \<noteq> [] \<Longrightarrow> cl_socket_open c \<and> cl_deadline c = Expires_at (ce_now E + 60)"
    and "eps \<noteq> []"
  shows "\<exists>c'. connect_from E outcome eps c = (Inr (tried_until outcome eps), c') \<and>
    (if \<exists>ep \<in> set eps. outcome ep = Accepted
     then cl_connected c' \<and> cl_socket_open c' \<and> cl_reading c' \<and> cl_deadline c' = Expires_at (ce_now E + 3)
     else \<not> cl_connected c' \<and> \<not> cl_socket_open c' \<and> cl_posted c' = Suc (cl_posted c))"
  using assms
proof (induction eps arbitrary: c)
  case (Cons ep eps)
  let ?start = "\<lambda>c. c\<lparr>cl_deadline := Expires_at (ce_now E + 60), cl_socket_open := True\<rparr>"
  have closed: "snd (start_connect E eps d) = (if eps = []
      then d\<lparr>cl_connected := False, cl_posted := Suc (cl_posted d)\<rparr> else ?start d)"
    "fst (start_connect E eps d) = Inr (case eps of [] \<Rightarrow> None | e # _ \<Rightarrow> Some e)" if "cl_connected d" for d
    using that by (auto simp: start_connect_def act_at close_def split: list.split)
  show ?case
  proof (cases "outcome ep")
    case Accepted
    with Cons.prems show ?thesis
      by (simp add: act_at handle_connect_def handle_receive_async_def)
  next
    case Refused
    show ?thesis
    proof (cases eps)
      case Nil
      with Refused Cons.prems show ?thesis
        by (simp add: act_at handle_connect_def start_connect_def close_def)
    next
      case (Cons e es)
      with Refused Cons.prems Cons.IH [of "?start (c\<lparr>cl_socket_open := False\<rparr>)"] show ?thesis
        by (auto simp: act_at handle_connect_def start_connect_def split: if_splits)
    qed
  next
    case Timed_out
    show ?thesis
    proof (cases eps)
      case Nil
      with Timed_out Cons.prems show ?thesis
        by (simp add: act_at handle_connect_def start_connect_def close_def check_deadline_def)
    next
      case (Cons e es)
      with Timed_out Cons.prems Cons.IH [of "?start (c\<lparr>cl_socket_open := False, cl_deadline := Pos_infin\<rparr>)"]
      show ?thesis
        by (auto simp: act_at handle_connect_def start_connect_def check_deadline_def split: if_splits)
    qed
  qed
qed simp

text \<open>
  C33: connecting ends: the endpoints are tried in their order, each at most once, up to the
  first that accepts; then the client reads with a deadline of three seconds, or, if none
  accepts, whether by refusal or by timeout, it closes and posts the shutdown of its socket
  once. (Hypothesis: the client has not been closed before.)
\<close>

theorem connecting_ends:
  assumes "cl_connected c"
  shows "\<exists>c'. start E outcome eps c = (Inr (tried_until outcome eps), c') \<and>
    (if \<exists>ep \<in> set eps. outcome ep = Accepted
     then cl_connected c' \<and> cl_socket_open c' \<and> cl_reading c' \<and> cl_deadline c' = Expires_at (ce_now E + 3)
     else \<not> cl_connected c' \<and> cl_posted c' = Suc (cl_posted c))"
proof (cases eps)
  case Nil
  with assms show ?thesis by (simp add: start_def start_connect_def close_def act_at)
next
  case (Cons ep rest)
  define c0 where "c0 = c\<lparr>cl_deadline := Expires_at (ce_now E + 60), cl_socket_open := True\<rparr>"
  have run: "start E outcome eps c = connect_from E outcome eps c0"
    by (simp add: start_def start_connect_def act_at c0_def Cons)
  have "cl_connected c0" "cl_socket_open c0 \<and> cl_deadline c0 = Expires_at (ce_now E + 60)" "eps \<noteq> []"
      "cl_posted c0 = cl_posted c"
    using assms Cons by (simp_all add: c0_def)
  with connect_from_outcome [of c0 eps E outcome] obtain c' where
    "connect_from E outcome eps c0 = (Inr (tried_until outcome eps), c')"
    "if \<exists>ep \<in> set eps. outcome ep = Accepted
     then cl_connected c' \<and> cl_socket_open c' \<and> cl_reading c' \<and> cl_deadline c' = Expires_at (ce_now E + 3)
     else \<not> cl_connected c' \<and> \<not> cl_socket_open c' \<and> cl_posted c' = Suc (cl_posted c0)"
    by blast
  with \<open>cl_posted c0 = cl_posted c\<close> show ?thesis
    unfolding run by (intro exI [of _ c']) (simp split: if_splits)
qed

theorem connecting_ends_witness:
  "\<exists>c'. start sample_client_env (\<lambda>ep. if ep = 2 then Accepted else if ep = 0 then Refused else Timed_out)
     [0, 1, 2, 3 :: nat] (new_client 0) = (Inr [0, 1, 2], c') \<and> cl_reading c'"
  using connecting_ends [of "new_client 0" sample_client_env
      "\<lambda>ep. if ep = 2 then Accepted else if ep = 0 then Refused else Timed_out" "[0, 1, 2, 3 :: nat]"]
  by (auto simp: new_client_def)

end
