(* ===== verification/Client_Loop.thy ===== *)
theory Client_Loop
  imports Client_Props Instance
begin

text \<open>
  What \<open>WhiteboardClient::start\<close> sets in motion: \<open>io_context.run()\<close> calls the handlers of
  \<open>src/client/client.cpp\<close> as their operations complete, in any order and at any time. An
  operation that is not outstanding does not complete. The handlers themselves are those of
  \<open>Client\<close>.
\<close>

section \<open>The event loop\<close>

text \<open>
  A connect that is over (and failed or not), a wait for the deadline that is over (because
  it passed or was cancelled), a read that brought bytes or failed, the posted task of
  \<open>close\<close>.
\<close>

datatype client_event =
    Connect_done bool
  | Timer
  | Arrived "u8 list"
  | Read_failed
  | Posted_close bool

text \<open>
  What is outstanding besides the state of the object: the endpoints from the one that is
  tried on, and whether the read was started on an open socket. Only such a read can still
  bring bytes; it may do so even after the socket was closed, when its completion was
  already on the way.
\<close>

record 'ep outstanding =
  lp_connecting :: "'ep list option"
  lp_live :: bool

definition new_read :: "'ep outstanding \<Rightarrow> 'ep outstanding client_act" where
  "new_read l = bnd (get_st (\<lambda>c. cl_reading c \<and> cl_socket_open c)) (\<lambda>live. ret (l\<lparr>lp_live := live\<rparr>))"

fun serve_event :: "client_env \<Rightarrow> client_event \<Rightarrow> 'ep outstanding \<Rightarrow> 'ep outstanding client_act" where
  "serve_event E (Connect_done failed) l = (case lp_connecting l of
      None \<Rightarrow> ret l
    | Some endpoint_iter \<Rightarrow> bnd (handle_connect E failed endpoint_iter) (\<lambda>next_attempt.
        new_read (l\<lparr>lp_connecting := (case next_attempt of
          Some _ \<Rightarrow> Some (tl endpoint_iter) | None \<Rightarrow> None)\<rparr>)))"
| "serve_event E Timer l = seq (check_deadline E) (ret l)"
| "serve_event E (Arrived bytes) l =
     bnd (get_st cl_reading) (\<lambda>reading.
     if reading \<and> lp_live l then seq (handle_single_packet E (Some bytes)) (new_read l) else ret l)"
| "serve_event E Read_failed l =
     bnd (get_st cl_reading) (\<lambda>reading.
     if reading then seq (handle_single_packet E None) (ret (l\<lparr>lp_live := False\<rparr>)) else ret l)"
| "serve_event E (Posted_close shutdown_ok) l =
     bnd (get_st cl_posted) (\<lambda>n. if n = 0 then ret l else seq (run_posted_close shutdown_ok) (ret l))"

text \<open>An exception of a handler leaves \<open>run\<close>; the loop ends there.\<close>

fun event_loop :: "client_env \<Rightarrow> (int \<times> client_event) list \<Rightarrow> 'ep outstanding \<Rightarrow> 'ep outstanding client_act" where
  "event_loop E [] l = ret l"
| "event_loop E ((now, ev) # evs) l = bnd (serve_event (E\<lparr>ce_now := now\<rparr>) ev l) (event_loop E evs)"

definition run_client :: "client_env \<Rightarrow> int \<Rightarrow> 'ep list \<Rightarrow> (int \<times> client_event) list \<Rightarrow> 'ep outstanding client_act" where
  "run_client E now iter evs =
     bnd (start_connect (E\<lparr>ce_now := now\<rparr>) iter) (\<lambda>attempt.
     event_loop E evs \<lparr>lp_connecting = (case attempt of Some _ \<Rightarrow> Some iter | None \<Rightarrow> None), lp_live = False\<rparr>)"

lemma event_loop_append: "event_loop E (xs @ ys) l = bnd (event_loop E xs l) (event_loop E ys)"
proof (induction xs arbitrary: l)
  case (Cons e xs)
  then have "event_loop E (xs @ ys) = (\<lambda>l :: 'a outstanding. bnd (event_loop E xs l) (event_loop E ys))"
    by (intro ext) simp
  then show ?case by (cases e) (simp add: bnd_assoc)
qed simp

text \<open>What the handlers of received packets leave alone.\<close>

definition io_state :: "client \<Rightarrow> bool \<times> bool \<times> deadline \<times> bool \<times> nat \<times> u8 list" where
  "io_state c = (cl_connected c, cl_socket_open c, cl_deadline c, cl_reading c, cl_posted c, cl_input_buffer c)"

lemma answers_keep:
  "io_state (snd (handle_action_response p c)) = io_state c \<and>
     cl_received_queue (snd (handle_action_response p c)) = cl_received_queue c"
  "io_state (snd (handle_temp_id_response p c)) = io_state c \<and>
     cl_received_queue (snd (handle_temp_id_response p c)) = cl_received_queue c"
  by (auto simp: handle_action_response_def handle_temp_id_response_def Let_def act_at queued_type_def
      require_def io_state_def split: option.splits packet_type.splits if_splits)

lemma process_packet_keeps:
  "io_state (snd (process_packet E p c)) = io_state c \<and>
   (\<exists>ws. length ws \<le> 1 \<and> cl_received_queue (snd (process_packet E p c)) = cl_received_queue c @ ws)"
proof -
  obtain ver i where mem: "ce_packet_mem E = (ver, i)" by fastforce
  let ?pushed = "\<lambda>d. d\<lparr>cl_received_queue := cl_received_queue d @ [fst (packet_of_ref ver i p)]\<rparr>"
  have "snd (process_packet E p c) \<in> {c, ?pushed c,
      snd (handle_action_response p c), ?pushed (snd (handle_action_response p c)),
      snd (handle_temp_id_response p c), ?pushed (snd (handle_temp_id_response p c))}"
    by (auto simp: process_packet_def act_at mem client_handle_broadcast_def
        split: prod.splits sum.splits option.split packet_type.split)
  moreover have "io_state (d\<lparr>cl_received_queue := q\<rparr>) = io_state d" for d q by (simp add: io_state_def)
  ultimately show ?thesis
    using answers_keep [of p c] by (elim insertE emptyE) (auto intro: exI [of _ "[]"] exI [of _ "[_]"])
qed

section \<open>An idle client\<close>

lemma single_packet_closed:
  assumes "cl_connected c" and "\<not> cl_socket_open c"
  shows "cl_connected (snd (handle_single_packet E a c)) \<and> \<not> cl_socket_open (snd (handle_single_packet E a c)) \<and>
    (\<exists>ws. length ws \<le> (if a = None then 0 else 1) \<and>
      cl_received_queue (snd (handle_single_packet E a c)) = cl_received_queue c @ ws)"
proof (cases a)
  case None
  with assms show ?thesis by (simp add: handle_single_packet_def act_at)
next
  case (Some bytes)
  define d where "d = c\<lparr>cl_reading := False, cl_input_buffer := ce_leftover E (cl_input_buffer c @ bytes)\<rparr>"
  let ?p = "parse_packet (ce_rt E) (ce_junk E) (cl_input_buffer c @ bytes)"
  have "io_state (snd (process_packet E ?p d)) = io_state d"
    "\<exists>ws. length ws \<le> 1 \<and> cl_received_queue (snd (process_packet E ?p d)) = cl_received_queue d @ ws"
    using process_packet_keeps by blast+
  with assms Some show ?thesis
    by (cases "process_packet E ?p d")
      (auto simp: handle_single_packet_def act_at handle_receive_async_def d_def io_state_def split: sum.split)
qed

text \<open>Once the socket is closed and no connect is under way, one more packet at most arrives.\<close>

definition still_to_come :: "'ep outstanding \<Rightarrow> nat" where
  "still_to_come l = (if lp_live l then 1 else 0)"

lemma closed_event:
  assumes "\<not> cl_socket_open c" and "cl_connected c" and "lp_connecting l = None"
    and run: "serve_event E ev l c = (r, d)"
  shows "cl_connected d" and "\<not> cl_socket_open d"
    and "\<exists>ws. length ws + (case r of Inl e \<Rightarrow> 0 | Inr l' \<Rightarrow> still_to_come l') \<le> still_to_come l \<and>
      cl_received_queue d = cl_received_queue c @ ws"
    and "r = Inr l' \<Longrightarrow> lp_connecting l' = None"
proof -
  have "cl_connected d \<and> \<not> cl_socket_open d \<and>
    (\<exists>ws. length ws + (case r of Inl e \<Rightarrow> 0 | Inr l' \<Rightarrow> still_to_come l') \<le> still_to_come l \<and>
      cl_received_queue d = cl_received_queue c @ ws) \<and> (\<forall>l'. r = Inr l' \<longrightarrow> lp_connecting l' = None)"
  proof (cases ev)
    case (Arrived bytes)
    obtain q e where one: "handle_single_packet E (Some bytes) c = (q, e)" by fastforce
    have "cl_connected e" "\<not> cl_socket_open e"
      "\<exists>ws. length ws \<le> 1 \<and> cl_received_queue e = cl_received_queue c @ ws"
      using single_packet_closed [of c E "Some bytes"] assms(1,2) one by simp_all
    then show ?thesis
      using assms one Arrived
      by (cases "cl_reading c \<and> lp_live l"; cases q) (auto simp: act_at new_read_def still_to_come_def)
  next
    case Read_failed
    then show ?thesis
      using assms by (auto simp: act_at handle_single_packet_def still_to_come_def split: if_splits)
  qed (use assms in \<open>auto simp: act_at check_deadline_def run_posted_close_def split: if_splits deadline.splits\<close>)
  then show "cl_connected d" "\<not> cl_socket_open d"
    "\<exists>ws. length ws + (case r of Inl e \<Rightarrow> 0 | Inr l' \<Rightarrow> still_to_come l') \<le> still_to_come l \<and>
      cl_received_queue d = cl_received_queue c @ ws"
    "r = Inr l' \<Longrightarrow> lp_connecting l' = None"
    by auto
qed

lemma closed_loop:
  assumes "\<not> cl_socket_open c" and "cl_connected c" and "lp_connecting l = None"
  shows "let c' = snd (event_loop E evs l c) in cl_connected c' \<and> \<not> cl_socket_open c' \<and>
    (\<exists>ws. length ws \<le> still_to_come l \<and> cl_received_queue c' = cl_received_queue c @ ws)"
  using assms
proof (induction evs arbitrary: l c)
  case (Cons e evs)
  obtain now ev where e: "e = (now, ev)" by fastforce
  obtain r d where run: "serve_event (E\<lparr>ce_now := now\<rparr>) ev l c = (r, d)" by fastforce
  note step = closed_event [OF Cons.prems run]
  obtain ws where ws: "cl_received_queue d = cl_received_queue c @ ws"
      "length ws + (case r of Inl e \<Rightarrow> 0 | Inr l' \<Rightarrow> still_to_come l') \<le> still_to_come l"
    using step(3) by blast
  show ?case
  proof (cases r)
    case (Inl x)
    with step(1,2) ws run show ?thesis by (simp add: e act_at)
  next
    case (Inr l')
    with Cons.IH [OF step(2,1) step(4)] ws run show ?thesis
      by (fastforce simp: e act_at Let_def intro: exI [of _ "ws @ _"])
  qed
qed (simp add: ret_at)

lemma waiting_loop:
  assumes "list_all (\<lambda>e. snd e = Timer) evs" and "cl_connected c" and "lp_connecting l = None"
    and "cl_deadline c = Expires_at d \<or> \<not> cl_socket_open c"
  shows "\<exists>c'. event_loop E evs l c = (Inr l, c') \<and> cl_connected c' \<and> cl_received_queue c' = cl_received_queue c \<and>
    (cl_deadline c' = Expires_at d \<or> \<not> cl_socket_open c')"
  using assms
proof (induction evs arbitrary: c)
  case (Cons e evs)
  obtain now where e: "e = (now, Timer)" using Cons.prems by (cases e) simp
  define c1 where "c1 = snd (check_deadline (E\<lparr>ce_now := now\<rparr>) c)"
  have "cl_connected c1 \<and> cl_received_queue c1 = cl_received_queue c \<and>
      (cl_deadline c1 = Expires_at d \<or> \<not> cl_socket_open c1)"
    using Cons.prems by (auto simp: c1_def check_deadline_def act_at split: deadline.split)
  then show ?case using Cons.IH [of c1] Cons.prems by (simp add: e act_at c1_def check_deadline_def)
qed (simp add: ret_at)


section \<open>A client that hears from its session\<close>

text \<open>
  No wait for the deadline is over after it has passed; each arrival moves it to three seconds
  later.
\<close>

fun punctual :: "int \<Rightarrow> (int \<times> client_event) list \<Rightarrow> bool" where
  "punctual d [] = True"
| "punctual d ((now, Timer) # evs) = (now < d \<and> punctual d evs)"
| "punctual d ((now, Arrived bytes) # evs) = punctual (now + 3) evs"
| "punctual d (_ # evs) = False"

fun arrivals :: "(int \<times> client_event) list \<Rightarrow> u8 list list" where
  "arrivals [] = []"
| "arrivals ((now, Arrived bytes) # evs) = bytes # arrivals evs"
| "arrivals (_ # evs) = arrivals evs"

definition receiving :: "int \<Rightarrow> client \<Rightarrow> bool" where
  "receiving d c \<longleftrightarrow> cl_connected c \<and> cl_reading c \<and> cl_socket_open c \<and> cl_input_buffer c = [] \<and>
     cl_deadline c = Expires_at d"

definition actions :: "wb_packet list \<Rightarrow> pb_action option list" where
  "actions ws = map (\<lambda>w. pk_action (wp_packet w)) ws"

lemma actions_append [simp]: "actions (xs @ ys) = actions xs @ actions ys"
  by (simp add: actions_def)

lemma broadcast_arrives:
  assumes "framing_laws (ce_rt E)" and "\<And>bs. ce_leftover E bs = []" and "receiving d c" and "lp_live l"
    and "transmits (ce_rt E) (wp_packet w)" and "pk_type (wp_packet w) = type_code T_broadcast"
  shows "\<exists>c'. serve_event (E\<lparr>ce_now := now\<rparr>) (Arrived (serialize_coded (ce_rt E) w)) l c = (Inr l, c') \<and>
    receiving (now + 3) c' \<and> actions (cl_received_queue c') = actions (cl_received_queue c) @ actions [w]"
proof -
  obtain ver i where mem: "ce_packet_mem E = (ver, i)" by fastforce
  have "parse_packet (ce_rt E) (ce_junk E) (serialize_coded (ce_rt E) w) = wp_packet w"
    using parse_serialize [OF assms(1,5), of "ce_junk E" "[]"] by simp
  then show ?thesis
    using assms(2-4,6)
    by (simp add: act_at handle_single_packet_def receiving_def process_packet_def mem client_handle_broadcast_def
        handle_receive_async_def new_read_def packet_of_ref_def Let_def actions_def)
qed


section \<open>Connecting\<close>

fun is_connect :: "client_event \<Rightarrow> bool" where
  "is_connect (Connect_done failed) = True"
| "is_connect _ = False"

definition connect_completions :: "(int \<times> client_event) list \<Rightarrow> nat" where
  "connect_completions evs = length (filter (is_connect \<circ> snd) evs)"

definition untried :: "'ep outstanding \<Rightarrow> nat" where
  "untried l = (case lp_connecting l of None \<Rightarrow> 0 | Some q \<Rightarrow> length q)"

text \<open>
  Before the attempts are over the client is connected in its own eyes and reads nothing;
  after them it has closed once, or a connect went through.
\<close>

definition connecting_inv :: "nat \<Rightarrow> bool \<Rightarrow> 'ep outstanding \<Rightarrow> client \<Rightarrow> bool" where
  "connecting_inv posted went_through l c = (case lp_connecting l of
      Some q \<Rightarrow> q \<noteq> [] \<and> cl_connected c \<and> \<not> cl_reading c \<and> cl_posted c = posted
    | None \<Rightarrow> if cl_connected c then went_through \<and> cl_posted c = posted else cl_posted c = Suc posted)"

lemma single_packet_keeps:
  "cl_connected (snd (handle_single_packet E a c)) = cl_connected c"
  "cl_posted (snd (handle_single_packet E a c)) = cl_posted c"
proof -
  have "io_state (snd (process_packet E p d)) = io_state d" for p d
    using process_packet_keeps by blast
  then have "cl_connected (snd (process_packet E p d)) = cl_connected d \<and>
      cl_posted (snd (process_packet E p d)) = cl_posted d" for p d
    by (simp add: io_state_def)
  from this [of "parse_packet (ce_rt E) (ce_junk E) (cl_input_buffer c @ (case a of None \<Rightarrow> [] | Some bytes \<Rightarrow> bytes))"
      "c\<lparr>cl_reading := False, cl_input_buffer :=
        ce_leftover E (cl_input_buffer c @ (case a of None \<Rightarrow> [] | Some bytes \<Rightarrow> bytes))\<rparr>"]
  show "cl_connected (snd (handle_single_packet E a c)) = cl_connected c"
    "cl_posted (snd (handle_single_packet E a c)) = cl_posted c"
    by (auto simp: handle_single_packet_def act_at handle_receive_async_def split: option.splits prod.splits sum.splits)
qed

lemma handle_connect_at:
  assumes "cl_connected c"
  shows "handle_connect E failed q c =
    (if cl_socket_open c \<and> \<not> failed
     then (Inr None, c\<lparr>cl_deadline := Expires_at (ce_now E + 3), cl_reading := True\<rparr>)
     else (case tl q of
         [] \<Rightarrow> (Inr None, c\<lparr>cl_socket_open := False, cl_connected := False, cl_posted := Suc (cl_posted c)\<rparr>)
       | ep # _ \<Rightarrow> (Inr (Some ep), c\<lparr>cl_deadline := Expires_at (ce_now E + 60), cl_socket_open := True\<rparr>)))"
  using assms
  by (cases "cl_socket_open c"; cases failed; cases "tl q")
    (simp_all add: handle_connect_def act_at start_connect_def close_def handle_receive_async_def)

lemma connecting_event:
  assumes inv: "connecting_inv posted went_through l c" and run: "serve_event E ev l c = (Inr l', c')"
  shows "connecting_inv posted (went_through \<or> ev = Connect_done False) l' c'"
    and "untried l' \<le> untried l - (if is_connect ev then 1 else 0)"
proof -
  have "connecting_inv posted (went_through \<or> ev = Connect_done False) l' c' \<and>
    untried l' \<le> untried l - (if is_connect ev then 1 else 0)"
  proof (cases ev)
    case (Connect_done failed)
    show ?thesis
    proof (cases "lp_connecting l")
      case None
      with Connect_done assms show ?thesis by (auto simp: ret_at connecting_inv_def untried_def)
    next
      case (Some q)
      with inv have q: "q \<noteq> []" and c: "cl_connected c" "\<not> cl_reading c" "cl_posted c = posted"
        by (simp_all add: connecting_inv_def)
      obtain n d where one: "handle_connect E failed q c = (Inr n, d)"
        and d: "case n of Some _ \<Rightarrow> tl q \<noteq> [] \<and> cl_connected d \<and> \<not> cl_reading d \<and> cl_posted d = posted
          | None \<Rightarrow> if cl_connected d then \<not> failed \<and> cl_posted d = posted else cl_posted d = Suc posted"
        using handle_connect_at [OF c(1), of E failed q] c by (fastforce split: list.splits if_splits)
      from q have "length (tl q) = length q - 1" by simp
      with run Connect_done Some one d show ?thesis
        by (cases n) (auto simp: act_at new_read_def connecting_inv_def untried_def)
    qed
  next
    case (Arrived bytes)
    obtain r d where one: "handle_single_packet E (Some bytes) c = (r, d)" by fastforce
    with Arrived assms single_packet_keeps [of E "Some bytes" c] show ?thesis
      by (cases "cl_reading c \<and> lp_live l"; cases r)
        (auto simp: act_at connecting_inv_def new_read_def untried_def split: option.splits)
  next
    case Read_failed
    with assms show ?thesis
      by (cases "cl_reading c")
        (auto simp: act_at connecting_inv_def handle_single_packet_def untried_def split: option.splits if_splits)
  qed (use assms in \<open>auto simp: act_at connecting_inv_def check_deadline_def run_posted_close_def
      split: option.splits if_splits deadline.splits\<close>)
  then show "connecting_inv posted (went_through \<or> ev = Connect_done False) l' c'"
    and "untried l' \<le> untried l - (if is_connect ev then 1 else 0)"
    by simp_all
qed

lemma connecting_loop:
  assumes "connecting_inv posted went_through l c" and "event_loop E evs l c = (Inr l', c')"
  shows "connecting_inv posted (went_through \<or> Connect_done False \<in> snd ` set evs) l' c' \<and>
    untried l' \<le> untried l - connect_completions evs"
  using assms
proof (induction evs arbitrary: went_through l c)
  case Nil
  then show ?case by (simp add: ret_at connect_completions_def)
next
  case (Cons e evs)
  obtain now ev where e: "e = (now, ev)" by fastforce
  obtain l1 c1 where step: "serve_event (E\<lparr>ce_now := now\<rparr>) ev l c = (Inr l1, c1)"
      "event_loop E evs l1 c1 = (Inr l', c')"
    using Cons.prems(2) by (auto simp: e act_at split: prod.splits sum.splits)
  note one = connecting_event [OF Cons.prems(1) step(1)]
  have "(went_through \<or> Connect_done False \<in> snd ` set (e # evs)) =
      ((went_through \<or> ev = Connect_done False) \<or> Connect_done False \<in> snd ` set evs)"
    by (auto simp only: e set_simps image_insert snd_conv insert_iff)
  moreover have "connect_completions (e # evs) =
      (if is_connect ev then 1 else 0) + connect_completions evs"
    by (simp add: connect_completions_def e)
  moreover have "untried l' \<le> untried l1 - connect_completions evs"
    using Cons.IH [OF one(1) step(2)] by simp
  then have "untried l' \<le> untried l - (if is_connect ev then 1 else 0) - connect_completions evs"
    using one(2) diff_le_mono order_trans by blast
  ultimately show ?case
    using Cons.IH [OF one(1) step(2)] by (simp only: diff_diff_left simp_thms)
qed

text \<open>
  C37: connecting comes to an end however the waits for the deadline, which close a socket that
  takes too long, are interleaved: once as many attempts are over as there are endpoints, no
  attempt is outstanding, and the client either has closed, exactly once, or counts as
  connected, and then some connect has succeeded. (Hypotheses: connected and not reading at
  the start, as after the constructor; no handler has thrown.)
\<close>

theorem connecting_is_over:
  assumes "cl_connected c" and "\<not> cl_reading c" and "run_client E now eps evs c = (Inr l', c')"
    and "length eps \<le> connect_completions evs"
  shows "lp_connecting l' = None \<and>
    (if cl_connected c' then Connect_done False \<in> snd ` set evs \<and> cl_posted c' = cl_posted c
     else cl_posted c' = Suc (cl_posted c))"
proof -
  obtain l1 c1 where run: "event_loop E evs l1 c1 = (Inr l', c')"
    and "connecting_inv (cl_posted c) False l1 c1" and "untried l1 = length eps"
    using assms(1-3) by (cases eps) (auto simp: run_client_def act_at start_connect_def close_def
        connecting_inv_def untried_def)
  with connecting_loop [OF _ run] assms(4) show ?thesis
    by (fastforce simp: connecting_inv_def untried_def split: option.splits if_splits)
qed

section \<open>Instances\<close>

definition session_packet :: wb_packet where
  "session_packet = new_broadcast [] (new_wb_packet 1 T_broadcast 5)"

definition loop_env :: client_env where
  "loop_env = sample_client_env\<lparr>ce_rt := table_rt [(wp_packet session_packet, [9])] []\<rparr>"

definition reading_client :: client where
  "reading_client = (new_client 7)\<lparr>cl_reading := True, cl_deadline := Expires_at 3\<rparr>"

definition read_outstanding :: "nat outstanding" where
  "read_outstanding = \<lparr>lp_connecting = None, lp_live = True\<rparr>"

lemma loop_env_framing [simp]: "framing_laws (ce_rt loop_env)"
  by (simp add: loop_env_def table_rt_framing)

lemma loop_env_simps [simp]:
  "ce_leftover loop_env bs = []" "receiving 3 reading_client"
  "transmits (ce_rt loop_env) (wp_packet session_packet)" "lp_live read_outstanding"
  "pk_type (wp_packet session_packet) = 12" "cl_received_queue reading_client = []"
  by (simp_all add: loop_env_def sample_client_env_def receiving_def reading_client_def
      new_client_def transmits_def table_rt_def read_outstanding_def session_packet_def new_broadcast_def
      new_packet_sealed sealed_def new_wb_packet_def)



theorem connecting_is_over_witness:
  "let (r, c') = run_client loop_env 0 [10, 11 :: nat]
      [(60, Timer), (60, Connect_done True), (61, Connect_done False)] (new_client 7)
   in (\<exists>l'. r = Inr l' \<and> lp_connecting l' = None) \<and> cl_connected c' \<and> cl_posted c' = 0"
proof -
  let ?evs = "[(60, Timer), (60, Connect_done True), (61, Connect_done False)]"
  obtain r c' where run: "run_client loop_env 0 [10, 11 :: nat] ?evs (new_client 7) = (r, c')" by fastforce
  moreover from this obtain l' where "r = Inr l'" "cl_connected c'"
    by (auto simp: run_client_def act_at start_connect_def check_deadline_def handle_connect_at new_read_def new_client_def)
  ultimately show ?thesis
    using connecting_is_over [of "new_client 7" loop_env 0 "[10, 11 :: nat]" ?evs l' c']
    by (auto simp: new_client_def connect_completions_def)
qed

end
