(* ===== verification/Pool.thy ===== *)
theory Pool
  imports Main "HOL-Library.Multiset"
begin

text \<open>
  The thread pool of \<open>src/server/thread_pool.hpp\<close> and the loop that feeds it,
  \<open>accept_connections\<close> of \<open>src/server/server.cpp\<close>. A critical section is one step, a
  notification and the run of a task are steps of their own, and the steps of the workers
  interleave in any order.
\<close>

section \<open>State\<close>

text \<open>
  A worker is at the test of its condition (with or about to take the lock), blocked on the
  condition variable, running a task, or has returned. \<open>to_notify\<close> counts the calls of
  \<open>notify_one\<close> and \<open>to_notify_all\<close> says that the call of \<open>notify_all\<close> is still to come.
  \<open>submitted\<close>, \<open>started\<close> and \<open>finished\<close> are histories, which the code does not keep.
\<close>

datatype 't worker = Testing | Waiting | Running 't | Returned

record 't pool =
  workers :: "'t worker list"
  tasks :: "'t list"
  stop :: bool
  to_notify :: nat
  to_notify_all :: bool
  submitted :: "'t list"
  started :: "'t list"
  finished :: "'t list"

definition new_pool :: "nat \<Rightarrow> 't pool" where
  "new_pool num_threads = \<lparr>workers = replicate num_threads Testing, tasks = [], stop = False,
     to_notify = 0, to_notify_all = False, submitted = [], started = [], finished = []\<rparr>"

section \<open>Operations\<close>

definition enqueue :: "'t \<Rightarrow> 't pool \<Rightarrow> 't pool" where
  "enqueue f p = p\<lparr>tasks := tasks p @ [f], to_notify := Suc (to_notify p), submitted := submitted p @ [f]\<rparr>"

text \<open>The critical section of a worker: the test of \<open>wait\<close> and, if it succeeds, what follows.\<close>

definition worker_test :: "nat \<Rightarrow> 't pool \<Rightarrow> 't pool" where
  "worker_test i p =
     (if stop p \<or> tasks p \<noteq> [] then
        (if stop p \<and> tasks p = [] then p\<lparr>workers := (workers p)[i := Returned]\<rparr>
         else p\<lparr>workers := (workers p)[i := Running (hd (tasks p))], tasks := tl (tasks p),
                started := started p @ [hd (tasks p)]\<rparr>)
      else p\<lparr>workers := (workers p)[i := Waiting]\<rparr>)"

definition wake :: "'t worker \<Rightarrow> 't worker" where
  "wake w = (case w of Waiting \<Rightarrow> Testing | _ \<Rightarrow> w)"

text \<open>The first two statements of the destructor; the joins wait until all workers returned.\<close>

definition shutdown :: "'t pool \<Rightarrow> 't pool" where
  "shutdown p = p\<lparr>stop := True, to_notify_all := True\<rparr>"

text \<open>
  The steps. A blocked worker can also wake for no reason. Tasks are enqueued only before the
  destructor is called, as for any object.
\<close>

inductive pool_step :: "'t pool \<Rightarrow> 't pool \<Rightarrow> bool" where
  Enqueue: "\<not> stop p \<Longrightarrow> pool_step p (enqueue f p)"
| Notify_one: "to_notify p = Suc n \<Longrightarrow> i < length (workers p) \<Longrightarrow> workers p ! i = Waiting \<Longrightarrow>
    pool_step p (p\<lparr>to_notify := n, workers := (workers p)[i := Testing]\<rparr>)"
| Notify_none: "to_notify p = Suc n \<Longrightarrow> Waiting \<notin> set (workers p) \<Longrightarrow> pool_step p (p\<lparr>to_notify := n\<rparr>)"
| Spurious: "i < length (workers p) \<Longrightarrow> workers p ! i = Waiting \<Longrightarrow>
    pool_step p (p\<lparr>workers := (workers p)[i := Testing]\<rparr>)"
| Test: "i < length (workers p) \<Longrightarrow> workers p ! i = Testing \<Longrightarrow> pool_step p (worker_test i p)"
| Finish: "i < length (workers p) \<Longrightarrow> workers p ! i = Running t \<Longrightarrow>
    pool_step p (p\<lparr>workers := (workers p)[i := Testing], finished := finished p @ [t]\<rparr>)"
| Stop: "\<not> stop p \<Longrightarrow> pool_step p (shutdown p)"
| Notify_all: "to_notify_all p \<Longrightarrow> pool_step p (p\<lparr>to_notify_all := False, workers := map wake (workers p)\<rparr>)"

inductive_cases pool_stepE: "pool_step p q"

section \<open>Invariants\<close>

fun running :: "'t worker list \<Rightarrow> 't multiset" where
  "running [] = {#}"
| "running (w # ws) = (case w of Running t \<Rightarrow> {#t#} | _ \<Rightarrow> {#}) + running ws"

definition testing :: "'t worker list \<Rightarrow> nat" where
  "testing ws = length (filter (\<lambda>w. w = Testing) ws)"

text \<open>
  Tasks are started in the order they were submitted, each by one worker, and a started task
  is running or finished. A blocked worker is never the only hope of a waiting task. After
  the last return nothing is left.
\<close>

definition pool_inv :: "'t pool \<Rightarrow> bool" where
  "pool_inv p \<longleftrightarrow> submitted p = started p @ tasks p \<and>
     mset (started p) = running (workers p) + mset (finished p) \<and>
     (Waiting \<in> set (workers p) \<longrightarrow> length (tasks p) \<le> to_notify p + testing (workers p)) \<and>
     (Returned \<in> set (workers p) \<longrightarrow> stop p \<and> tasks p = []) \<and>
     (stop p \<and> Waiting \<in> set (workers p) \<longrightarrow> to_notify_all p)"

lemma running_update:
  "i < length ws \<Longrightarrow> running (ws[i := w]) + (case ws ! i of Running t \<Rightarrow> {#t#} | _ \<Rightarrow> {#}) =
     running ws + (case w of Running t \<Rightarrow> {#t#} | _ \<Rightarrow> {#})"
proof (induction ws arbitrary: i)
  case (Cons a ws)
  then show ?case by (cases i) (auto simp: ac_simps)
qed simp

lemma testing_update:
  "i < length ws \<Longrightarrow> testing (ws[i := w]) + (if ws ! i = Testing then 1 else 0) =
     testing ws + (if w = Testing then 1 else 0)"
proof (induction ws arbitrary: i)
  case (Cons a ws)
  then show ?case by (cases i) (fastforce simp: testing_def)+
qed simp

lemma running_wake: "running (map wake ws) = running ws"
  by (induction ws) (simp_all add: wake_def split: worker.split)

lemma set_update_cases: "x \<in> set (ws[i := w]) \<Longrightarrow> x = w \<or> x \<in> set ws"
  by (meson insert_iff set_update_subset_insert subsetD)

lemma set_wake:
  "Waiting \<notin> set (map wake ws)" "Returned \<in> set (map wake ws) \<longleftrightarrow> Returned \<in> set ws"
  by (induction ws) (auto simp: wake_def split: worker.splits)

lemma pool_inv_step: "pool_step p q \<Longrightarrow> pool_inv p \<Longrightarrow> pool_inv q"
proof (induction rule: pool_step.induct)
  case (Enqueue p f)
  then show ?case by (auto simp: pool_inv_def enqueue_def)
next
  case (Notify_one p n i)
  then show ?case
    using running_update [of i "workers p" Testing] testing_update [of i "workers p" Testing]
    by (auto simp: pool_inv_def dest!: set_update_cases dest: nth_mem)
next
  case (Notify_none p n)
  then show ?case by (auto simp: pool_inv_def)
next
  case (Spurious i p)
  then show ?case
    using running_update [of i "workers p" Testing] testing_update [of i "workers p" Testing]
    by (auto simp: pool_inv_def dest!: set_update_cases)
next
  case (Test i p)
  show ?case
  proof (cases "tasks p")
    case Nil
    with Test running_update [of i "workers p"] show ?thesis
      by (auto simp: pool_inv_def worker_test_def dest!: set_update_cases)
  next
    case (Cons a rest)
    from Test have "running ((workers p)[i := Running a]) = running (workers p) + {#a#}"
        "Suc (testing ((workers p)[i := Running a])) = testing (workers p)"
      using running_update [of i "workers p" "Running a"] testing_update [of i "workers p" "Running a"]
      by simp_all
    with Test Cons show ?thesis
      by (auto simp: pool_inv_def worker_test_def dest!: set_update_cases)
  qed
next
  case (Finish i p t)
  then show ?case
    using running_update [of i "workers p" Testing] testing_update [of i "workers p" Testing]
    by (auto simp: pool_inv_def dest!: set_update_cases)
next
  case (Stop p)
  then show ?case by (auto simp: pool_inv_def shutdown_def)
next
  case (Notify_all p)
  then show ?case
    using set_wake [of "workers p"] by (simp add: pool_inv_def running_wake del: set_map)
qed

lemma pool_inv_new: "pool_inv (new_pool n)"
proof -
  have "running (replicate n Testing) = {#}" by (induction n) simp_all
  then show ?thesis by (auto simp: pool_inv_def new_pool_def)
qed

lemma pool_inv_reachable: "rtranclp pool_step (new_pool n) p \<Longrightarrow> pool_inv p"
  by (induction rule: rtranclp_induct) (auto intro: pool_inv_new pool_inv_step)

lemma length_workers_step: "pool_step p q \<Longrightarrow> length (workers q) = length (workers p)"
  by (elim pool_stepE) (auto simp: enqueue_def worker_test_def shutdown_def)

lemma length_workers_reachable: "rtranclp pool_step (new_pool n) p \<Longrightarrow> length (workers p) = n"
  by (induction rule: rtranclp_induct) (simp_all add: new_pool_def length_workers_step)

lemma running_returned: "set ws \<subseteq> {Returned} \<Longrightarrow> running ws = {#}"
  by (induction ws) auto

section \<open>Accepting connections\<close>

text \<open>
  One round of the loop: \<open>accept\<close> throws, the TLS handshake throws, or the connection is
  handed to the pool. The \<open>try\<close> block is around the loop. The result says whether the loop
  waits for the next connection.
\<close>

datatype 'c accept_result = Accept_throws | Handshake_throws 'c | Accepted_connection 'c

fun accept_connections :: "'c accept_result list \<Rightarrow> 'c pool \<Rightarrow> 'c pool \<times> bool" where
  "accept_connections [] p = (p, True)"
| "accept_connections (Accept_throws # _) p = (p, False)"
| "accept_connections (Handshake_throws _ # _) p = (p, False)"
| "accept_connections (Accepted_connection ssl_socket # rest) p =
     accept_connections rest (enqueue ssl_socket p)"

text \<open>The server's pool; \<open>start\<close> runs the loop, and returns when the loop has ended.\<close>

definition server_pool :: "'c pool" where
  "server_pool = new_pool 5"

section \<open>Properties\<close>

text \<open>
  C27: however the workers interleave, tasks are started in the order they were submitted and
  none is lost or run twice: at every moment the submitted tasks are the started ones
  followed by the waiting ones, and the started ones are those that run and those that have
  finished. (Hypothesis: the state is reachable.)
\<close>

theorem pool_is_fifo:
  assumes "rtranclp pool_step (new_pool n) p"
  shows "submitted p = started p @ tasks p \<and> mset (started p) = running (workers p) + mset (finished p)"
  using pool_inv_reachable [OF assms] by (simp add: pool_inv_def)

text \<open>
  C28: no wakeup is lost: while a task waits, some worker is on its way to take it, or
  busy and will look, or a notification that wakes one is still to come. (Hypotheses: the
  state is reachable, and the pool has workers.)
\<close>

theorem waiting_task_is_seen:
  assumes "rtranclp pool_step (new_pool n) p" and "0 < n" and "tasks p \<noteq> []"
  shows "(\<exists>w \<in> set (workers p). w = Testing \<or> (\<exists>t. w = Running t)) \<or> 0 < to_notify p"
proof -
  from assms(2) length_workers_reachable [OF assms(1)] obtain w where w: "w \<in> set (workers p)"
    by (cases "workers p") auto
  from pool_inv_reachable [OF assms(1)] have inv: "pool_inv p" .
  show ?thesis
  proof (rule ccontr)
    assume *: "\<not> ?thesis"
    with inv w assms(3) have "Waiting \<in> set (workers p)"
      by (cases w) (auto simp: pool_inv_def)
    moreover from * have "testing (workers p) = 0" by (auto simp: testing_def filter_empty_conv)
    ultimately show False using inv * assms(3) by (simp add: pool_inv_def)
  qed
qed

text \<open>
  C29: when the destructor returns, that is when every worker has returned, every task that
  was ever submitted has been run to its end, exactly once. (Hypotheses: the state is
  reachable, the pool has workers, and they have returned.)
\<close>

theorem shutdown_runs_all_tasks:
  assumes "rtranclp pool_step (new_pool n) p" and "0 < n" and "set (workers p) \<subseteq> {Returned}"
  shows "stop p \<and> tasks p = [] \<and> mset (finished p) = mset (submitted p)"
proof -
  from assms(2,3) length_workers_reachable [OF assms(1)] have "Returned \<in> set (workers p)"
    by (cases "workers p") auto
  with pool_inv_reachable [OF assms(1)] running_returned [OF assms(3)] show ?thesis
    by (auto simp: pool_inv_def)
qed

lemma busy_step:
  assumes "pool_step p q" and "\<forall>w \<in> set (workers p). \<exists>t. w = Running t" and "finished q = finished p"
  shows "workers q = workers p \<and> started q = started p"
proof -
  from assms(2) have run: "\<exists>t. workers p ! i = Running t" if "i < length (workers p)" for i
    using that nth_mem by blast
  have "map wake (workers p) = workers p"
    using assms(2) by (intro map_idI) (auto simp: wake_def)
  with assms(1,3) run show ?thesis
    by (elim pool_stepE) (fastforce simp: enqueue_def shutdown_def)+
qed


text \<open>
  A single client whose TLS handshake fails ends the service: the connections accepted
  before it are served, but the loop is over, and whoever comes later is never accepted.
\<close>

theorem failed_handshake_ends_accepting:
  "accept_connections (map Accepted_connection cs @ Handshake_throws c # rest) p =
     (foldl (\<lambda>p c. enqueue c p) p cs, False)"
  by (induction cs arbitrary: p) simp_all

section \<open>Instances\<close>

text \<open>One worker, one task, to the end and through the shutdown.\<close>

definition busy_one :: "nat pool" where
  "busy_one = worker_test 0 (enqueue 7 (new_pool 1))"

lemma busy_one_reachable: "rtranclp pool_step (new_pool 1) busy_one"
proof -
  have "pool_step (new_pool 1) (enqueue 7 (new_pool 1 :: nat pool))"
    by (rule Enqueue) (simp add: new_pool_def)
  moreover have "pool_step (enqueue 7 (new_pool 1)) busy_one"
    unfolding busy_one_def by (rule Test) (simp_all add: enqueue_def new_pool_def)
  ultimately show ?thesis by (meson converse_rtranclp_into_rtranclp r_into_rtranclp)
qed

definition finished_one :: "nat pool" where
  "finished_one = worker_test 0 (shutdown (busy_one\<lparr>workers := (workers busy_one)[0 := Testing],
     finished := finished busy_one @ [7]\<rparr>))"

lemma finished_one_reachable: "rtranclp pool_step (new_pool 1) finished_one"
proof -
  let ?p = "busy_one\<lparr>workers := (workers busy_one)[0 := Testing], finished := finished busy_one @ [7]\<rparr>"
  have "pool_step busy_one ?p"
    by (rule Finish) (simp_all add: busy_one_def worker_test_def enqueue_def new_pool_def)
  moreover have "pool_step ?p (shutdown ?p)"
    by (rule Stop) (simp add: busy_one_def worker_test_def enqueue_def new_pool_def)
  moreover have "pool_step (shutdown ?p) finished_one"
    unfolding finished_one_def
    by (rule Test) (simp_all add: busy_one_def worker_test_def enqueue_def new_pool_def shutdown_def)
  ultimately show ?thesis
    using busy_one_reachable by (meson rtranclp.rtrancl_into_rtrancl)
qed

lemmas pool_instance_defs = finished_one_def busy_one_def worker_test_def enqueue_def new_pool_def shutdown_def

theorem pool_is_fifo_witness: "submitted busy_one = [7] \<and> started busy_one @ tasks busy_one = [7]"
  using pool_is_fifo [OF busy_one_reachable] by (simp add: pool_instance_defs)

theorem waiting_task_is_seen_witness:
  "0 < to_notify (enqueue 8 busy_one) \<or> (\<exists>w \<in> set (workers (enqueue 8 busy_one)). w = Testing \<or> (\<exists>t. w = Running t))"
proof -
  have "pool_step busy_one (enqueue 8 busy_one)"
    by (rule Enqueue) (simp add: pool_instance_defs)
  then have "rtranclp pool_step (new_pool 1) (enqueue 8 busy_one)"
    using busy_one_reachable by (meson rtranclp.rtrancl_into_rtrancl)
  from waiting_task_is_seen [OF this] show ?thesis by (simp add: enqueue_def)
qed

theorem shutdown_runs_all_tasks_witness: "mset (finished finished_one) = {#7#}"
  using shutdown_runs_all_tasks [OF finished_one_reachable] by (simp add: pool_instance_defs)


end
