(* ===== verification/Sha256_Vector.thy ===== *)
theory Sha256_Vector
  imports Sha256_Fips
begin

text \<open>
  The test vector of the standard, run through the definitions of the class by the kernel:
  it checks the constants, the byte order and the padding of model and reference alike.
\<close>

text \<open>
  The class hashes the three bytes abc to the digest FIPS 180-4 publishes for them.
\<close>

theorem hash_of_abc:
  "hash_hex ''abc'' = ''ba7816bf8f01cfea414140de5dae2223b00361a396177a9cb410ff61f20015ad''"
  by code_simp

end
