(* ===== verification/Interleaving.thy ===== *)
theory Interleaving
  imports Server_Safety "HOL-Library.Multiset"
begin

text \<open>
  The server handles its connections in the threads of a pool, so the handlers of different
  connections interleave. This theory splits a computation into atomic actions: a \<open>thread\<close>
  is what is left to do, \<open>run_thread\<close> runs it with nobody interfering, and \<open>system_step\<close>
  lets any thread of a list do its next action. The interface \<open>interference\<close> carries a
  relation that every action satisfies through every interleaving.
\<close>

section \<open>Threads\<close>

datatype ('s, 'e, 'a) thread =
    Done "'e + 'a"
  | Step "'s \<Rightarrow> ('s, 'e, 'a) thread \<times> 's"

lemma thread_induct [case_names Done Step]:
  assumes "\<And>r. P (Done r)" and "\<And>f. (\<And>s. P (fst (f s))) \<Longrightarrow> P (Step f)"
  shows "P t"
proof (induction t)
  case (Step f)
  then show ?case by (intro assms(2)) (auto simp: fsts.simps)
qed (rule assms(1))

primrec run_thread :: "('s, 'e, 'a) thread \<Rightarrow> ('s, 'e, 'a) act" where
  "run_thread (Done r) = (\<lambda>s. (r, s))"
| "run_thread (Step f) = (\<lambda>s. case map_prod run_thread id (f s) of (g, t) \<Rightarrow> g t)"

definition tret :: "'a \<Rightarrow> ('s, 'e, 'a) thread" where
  "tret x = Done (Inr x)"

definition tthrow :: "'e \<Rightarrow> ('s, 'e, 'a) thread" where
  "tthrow e = Done (Inl e)"

text \<open>A computation nobody interrupts.\<close>

definition atomic :: "('s, 'e, 'a) act \<Rightarrow> ('s, 'e, 'a) thread" where
  "atomic f = Step (\<lambda>s. map_prod Done id (f s))"

primrec tbind :: "('s, 'e, 'a) thread \<Rightarrow> ('a \<Rightarrow> ('s, 'e, 'b) thread) \<Rightarrow> ('s, 'e, 'b) thread" where
  "tbind (Done r) g = (case r of Inl e \<Rightarrow> Done (Inl e) | Inr x \<Rightarrow> g x)"
| "tbind (Step f) g = Step (\<lambda>s. map_prod (\<lambda>t. tbind t g) id (f s))"

definition tseq :: "('s, 'e, 'a) thread \<Rightarrow> ('s, 'e, 'b) thread \<Rightarrow> ('s, 'e, 'b) thread" where
  "tseq t u = tbind t (\<lambda>_. u)"

primrec tcatch :: "('s, 'e, 'a) thread \<Rightarrow> ('e \<Rightarrow> ('s, 'e, 'a) thread) \<Rightarrow> ('s, 'e, 'a) thread" where
  "tcatch (Done r) h = (case r of Inl e \<Rightarrow> h e | Inr x \<Rightarrow> Done (Inr x))"
| "tcatch (Step f) h = Step (\<lambda>s. map_prod (\<lambda>t. tcatch t h) id (f s))"

fun tfor_each :: "'a list \<Rightarrow> ('a \<Rightarrow> ('s, 'e, unit) thread) \<Rightarrow> ('s, 'e, unit) thread" where
  "tfor_each [] f = tret ()"
| "tfor_each (x # xs) f = tseq (f x) (tfor_each xs f)"

text \<open>Run alone, the combinators of threads are those of computations.\<close>

named_theorems run_alone "what a thread does when nobody interferes"

lemma run_Step: "run_thread (Step f) s = run_thread (fst (f s)) (snd (f s))"
  by (simp add: map_prod_def case_prod_beta)

lemma run_tret [run_alone]: "run_thread (tret x) = ret x"
  by (rule ext) (simp add: tret_def ret_def)

lemma run_tthrow [run_alone]: "run_thread (tthrow e) = throw e"
  by (rule ext) (simp add: tthrow_def throw_def)

lemma run_atomic [run_alone]: "run_thread (atomic f) = f"
  by (rule ext) (simp add: atomic_def run_Step del: run_thread.simps(2))

lemma run_tbind [run_alone]: "run_thread (tbind t g) = bnd (run_thread t) (\<lambda>x. run_thread (g x))"
proof (induction t rule: thread_induct)
  case (Done r)
  then show ?case by (cases r) (simp_all add: fun_eq_iff bnd_def)
next
  case (Step f)
  then show ?case
    by (intro ext) (simp add: run_Step bnd_def del: run_thread.simps(2))
qed

lemma run_tseq [run_alone]: "run_thread (tseq t u) = seq (run_thread t) (run_thread u)"
  by (simp add: tseq_def seq_def run_tbind)

lemma run_tcatch [run_alone]: "run_thread (tcatch t h) = try_catch (run_thread t) (\<lambda>e. run_thread (h e))"
proof (induction t rule: thread_induct)
  case (Done r)
  then show ?case by (cases r) (simp_all add: fun_eq_iff try_catch_def)
next
  case (Step f)
  then show ?case
    by (intro ext) (simp add: run_Step try_catch_def del: run_thread.simps(2))
qed

lemma run_tfor_each [run_alone]: "run_thread (tfor_each xs f) = for_each xs (\<lambda>x. run_thread (f x))"
  by (induction xs) (simp_all add: run_alone)

lemma run_cases [run_alone]:
  "run_thread (if b then t else u) = (if b then run_thread t else run_thread u)"
  "run_thread (case x of None \<Rightarrow> t | Some y \<Rightarrow> f y) = (case x of None \<Rightarrow> run_thread t | Some y \<Rightarrow> run_thread (f y))"
  "run_thread (case p of (a, b) \<Rightarrow> h a b) = (case p of (a, b) \<Rightarrow> run_thread (h a b))"
  by (simp_all split: option.split prod.split)

section \<open>Interleavings\<close>

text \<open>
  A state and the threads working on it. Any thread that has an action left may do it next,
  and a new thread may come, together with a change of the state (\<open>spawn\<close>).
\<close>

inductive system_step ::
  "('s \<Rightarrow> 's \<Rightarrow> ('s, 'e, 'a) thread \<Rightarrow> bool) \<Rightarrow> 's \<times> ('s, 'e, 'a) thread list \<Rightarrow>
   's \<times> ('s, 'e, 'a) thread list \<Rightarrow> bool"
  for spawn where
  Act: "i < length ts \<Longrightarrow> ts ! i = Step f \<Longrightarrow> f s = (t, s') \<Longrightarrow>
     system_step spawn (s, ts) (s', ts[i := t])"
| Spawn: "spawn s s' t \<Longrightarrow> system_step spawn (s, ts) (s', ts @ [t])"

inductive_cases system_stepE: "system_step spawn (s, ts) c"

text \<open>A schedule names the thread that moves; it computes a run of a fixed list of threads.\<close>

fun follow :: "nat list \<Rightarrow> 's \<times> ('s, 'e, 'a) thread list \<Rightarrow> 's \<times> ('s, 'e, 'a) thread list" where
  "follow [] c = c"
| "follow (i # is) (s, ts) = follow is (if i < length ts then
     (case ts ! i of Done r \<Rightarrow> (s, ts) | Step f \<Rightarrow> (case f s of (t, s') \<Rightarrow> (s', ts[i := t]))) else (s, ts))"

lemma follow_steps: "rtranclp (system_step spawn) c (follow is c)"
proof (induction "is" c rule: follow.induct)
  case (2 i "is" s ts)
  let ?c = "if i < length ts then
     (case ts ! i of Done r \<Rightarrow> (s, ts) | Step f \<Rightarrow> (case f s of (t, s') \<Rightarrow> (s', ts[i := t]))) else (s, ts)"
  have "rtranclp (system_step spawn) (s, ts) ?c"
    by (auto intro!: r_into_rtranclp Act split: thread.split prod.split)
  then show ?case unfolding follow.simps using 2 by (rule rtranclp_trans)
qed simp

lemma follow_append: "follow (is @ js) c = follow js (follow is c)"
proof (induction "is" arbitrary: c)
  case (Cons i "is")
  then show ?case by (cases c) simp
qed simp

text \<open>A thread that is scheduled until it is done does what it does alone.\<close>

lemma follow_alone:
  assumes "i < length ts"
  obtains n where "follow (replicate n i) (s, ts) =
    (snd (run_thread (ts ! i) s), ts[i := Done (fst (run_thread (ts ! i) s))])"
proof -
  have "\<exists>n. follow (replicate n i) (s, ts[i := t]) =
      (snd (run_thread t s), ts[i := Done (fst (run_thread t s))])" for t
  proof (induction t arbitrary: s rule: thread_induct)
    case (Done r)
    then show ?case by (intro exI [of _ 0]) simp
  next
    case (Step f)
    obtain n where "follow (replicate n i) (snd (f s), ts[i := fst (f s)]) =
        (snd (run_thread (fst (f s)) (snd (f s))), ts[i := Done (fst (run_thread (fst (f s)) (snd (f s))))])"
      using Step by blast
    then show ?case
      using assms by (intro exI [of _ "Suc n"]) (simp add: run_Step case_prod_beta del: run_thread.simps(2))
  qed
  from this [of "ts ! i"] show ?thesis using that by auto
qed

text \<open>The next action of a thread.\<close>

lemma follow_atomic:
  assumes "i < length ts" and "ts ! i = tbind (atomic f) g"
  shows "follow [i] (s, ts) = (snd (f s), ts[i := (case fst (f s) of Inl e \<Rightarrow> Done (Inl e) | Inr x \<Rightarrow> g x)])"
  using assms by (simp add: atomic_def case_prod_beta)

text \<open>Grouping does not matter.\<close>

lemma tbind_assoc: "tbind (tbind t g) h = tbind t (\<lambda>x. tbind (g x) h)"
proof (induction t rule: thread_induct)
  case (Done r)
  then show ?case by (cases r) simp_all
next
  case (Step f)
  then show ?case by (simp add: fun_eq_iff map_prod_def case_prod_beta)
qed

lemma tbind_tret [simp]: "tbind (tret x) g = g x"
  by (simp add: tret_def)

section \<open>What every action of a thread does\<close>

text \<open>\<open>acts R t\<close>: every action of \<open>t\<close>, from whatever state it finds, is a transition of \<open>R\<close>.\<close>

inductive acts :: "('s \<Rightarrow> 's \<Rightarrow> bool) \<Rightarrow> ('s, 'e, 'a) thread \<Rightarrow> bool" for R where
  acts_Done: "acts R (Done r)"
| acts_Step: "(\<And>s. R s (snd (f s))) \<Longrightarrow> (\<And>s. acts R (fst (f s))) \<Longrightarrow> acts R (Step f)"

inductive_cases acts_StepE: "acts R (Step f)"

named_theorems acts_intros "rules for what the actions of a thread do"

lemma acts_tret [acts_intros]: "acts R (tret x)"
  by (simp add: tret_def acts_Done)

lemma acts_tthrow [acts_intros]: "acts R (tthrow e)"
  by (simp add: tthrow_def acts_Done)

lemma acts_atomic: "(\<And>s. R s (snd (f s))) \<Longrightarrow> acts R (atomic f)"
  unfolding atomic_def by (rule acts_Step) (simp_all add: acts_Done)

lemma acts_tbind [acts_intros]:
  assumes "acts R t" and "\<And>x. acts R (g x)"
  shows "acts R (tbind t g)"
  using assms(1)
proof induction
  case (acts_Done r)
  then show ?case by (cases r) (simp_all add: assms(2) acts.acts_Done)
next
  case (acts_Step f)
  then show ?case by (simp add: acts.acts_Step)
qed

lemma acts_tseq [acts_intros]: "acts R t \<Longrightarrow> acts R u \<Longrightarrow> acts R (tseq t u)"
  by (simp add: tseq_def acts_tbind)

lemma acts_tcatch [acts_intros]:
  assumes "acts R t" and "\<And>e. acts R (h e)"
  shows "acts R (tcatch t h)"
  using assms(1)
proof induction
  case (acts_Done r)
  then show ?case by (cases r) (simp_all add: assms(2) acts.acts_Done)
next
  case (acts_Step f)
  then show ?case by (simp add: acts.acts_Step)
qed

lemma acts_tfor_each [acts_intros]: "(\<And>x. acts R (f x)) \<Longrightarrow> acts R (tfor_each xs f)"
  by (induction xs) (simp_all add: acts_intros)

lemma acts_cases [acts_intros]:
  "(b \<Longrightarrow> acts R t) \<Longrightarrow> (\<not> b \<Longrightarrow> acts R u) \<Longrightarrow> acts R (if b then t else u)"
  "acts R t \<Longrightarrow> (\<And>y. acts R (f y)) \<Longrightarrow> acts R (case x of None \<Rightarrow> t | Some y \<Rightarrow> f y)"
  "(\<And>a b. acts R (h a b)) \<Longrightarrow> acts R (case p of (a, b) \<Rightarrow> h a b)"
  by (simp_all split: option.split prod.split)

text \<open>
  A relation that the actions of every thread and every arrival of a thread satisfy relates
  the states of every interleaving.
\<close>

locale interference =
  fixes R :: "'s \<Rightarrow> 's \<Rightarrow> bool" and spawn :: "'s \<Rightarrow> 's \<Rightarrow> ('s, 'e, 'a) thread \<Rightarrow> bool"
  assumes spawn_R: "spawn s s' t \<Longrightarrow> R s s'"
    and spawn_acts: "spawn s s' t \<Longrightarrow> acts R t"
begin

lemma step_R:
  assumes "system_step spawn c c'" and "list_all (acts R) (snd c)"
  shows "R (fst c) (fst c') \<and> list_all (acts R) (snd c')"
  using assms
proof cases
  case (Act i ts f s t s')
  with assms(2) have "acts R (Step f)" by (auto simp: list_all_length)
  then have "R s (snd (f s))" "acts R (fst (f s))" by (auto elim: acts_StepE)
  with Act assms(2) show ?thesis
    by (auto simp: list_all_length nth_list_update)
next
  case (Spawn s s' t ts)
  with assms(2) show ?thesis by (simp add: spawn_R spawn_acts)
qed

lemma run_R:
  assumes "rtranclp (system_step spawn) c c'" and "list_all (acts R) (snd c)"
  shows "rtranclp R (fst c) (fst c') \<and> list_all (acts R) (snd c')"
  using assms
proof induction
  case (step c1 c2)
  then show ?case using step_R by (meson rtranclp.rtrancl_into_rtrancl)
qed simp

end

section \<open>What a thread still owes\<close>

text \<open>
  \<open>L s es\<close> says that the state shows the list \<open>es\<close>, to which actions append. A thread owes \<open>m\<close> if,
  whatever the others append in between, its remaining actions append \<open>m\<close> in all.
\<close>

inductive owes :: "('s \<Rightarrow> 'x list \<Rightarrow> bool) \<Rightarrow> 'x multiset \<Rightarrow> ('s, 'e, 'a) thread \<Rightarrow> bool" for L where
  owes_Done: "owes L {#} (Done r)"
| owes_Step: "(\<And>s es. L s es \<Longrightarrow> \<exists>new m'. L (snd (f s)) (es @ new) \<and> m = mset new + m' \<and> owes L m' (fst (f s))) \<Longrightarrow>
     owes L m (Step f)"

inductive_cases owes_DoneE: "owes L m (Done r)"

inductive_cases owes_StepE: "owes L m (Step f)"

lemma owes_nothing:
  assumes "acts (\<lambda>s s'. \<forall>es. L s es \<longrightarrow> L s' es) t"
  shows "owes L {#} t"
  using assms
proof induction
  case (acts_Step f)
  show ?case
  proof (rule owes_Step)
    fix s es assume "L s es"
    with acts_Step have "L (snd (f s)) (es @ [])" "owes L {#} (fst (f s))" by auto
    then show "\<exists>new m'. L (snd (f s)) (es @ new) \<and> {#} = mset new + m' \<and> owes L m' (fst (f s))"
      by (intro exI [of _ "[]"] exI [of _ "{#}"]) simp
  qed
qed (rule owes_Done)

lemma owes_atomic:
  assumes "\<And>s es. L s es \<Longrightarrow> L (snd (f s)) (es @ new)"
    and "\<And>s es. L s es \<Longrightarrow> owes L m (case fst (f s) of Inl e \<Rightarrow> Done (Inl e) | Inr x \<Rightarrow> g x)"
  shows "owes L (mset new + m) (tbind (atomic f) g)"
  unfolding atomic_def tbind.simps
  by (rule owes_Step, intro exI [of _ new] exI [of _ m]) (use assms in auto)

lemma sum_list_replace:
  fixes ms :: "'x multiset list"
  shows "i < length ms \<Longrightarrow> ms ! i = a + m \<Longrightarrow> sum_list ms = a + sum_list (ms[i := m])"
proof (induction ms arbitrary: i)
  case (Cons x ms)
  then show ?case by (cases i) (simp_all add: ac_simps)
qed simp

text \<open>What is there and what is owed, together, never change.\<close>

lemma owes_run:
  assumes "rtranclp (system_step (\<lambda>_ _ _. False)) c c'"
    and "L (fst c) es" and "list_all2 (owes L) ms (snd c)"
  shows "\<exists>new ms'. L (fst c') (es @ new) \<and> list_all2 (owes L) ms' (snd c') \<and> sum_list ms = mset new + sum_list ms'"
  using assms
proof induction
  case base
  then show ?case by (intro exI [of _ "[]"] exI [of _ ms]) simp
next
  case (step c1 c2)
  then obtain new ms' where IH: "L (fst c1) (es @ new)" "list_all2 (owes L) ms' (snd c1)"
    "sum_list ms = mset new + sum_list ms'" by blast
  from step(2) show ?case
  proof cases
    case (Act i ts f s t s')
    then have len: "i < length ms'" and "owes L (ms' ! i) (Step f)"
      using IH(2) by (auto simp: list_all2_conv_all_nth)
    with IH(1) Act obtain more m' where m': "L s' ((es @ new) @ more)" "ms' ! i = mset more + m'" "owes L m' t"
      by (force elim: owes_StepE)
    have "sum_list ms' = mset more + sum_list (ms'[i := m'])"
      by (rule sum_list_replace [OF len m'(2)])
    with m' IH Act show ?thesis
      by (intro exI [of _ "new @ more"] exI [of _ "ms'[i := m']"])
        (auto simp: list_all2_update_cong ac_simps)
  qed simp
qed

end
