(* ===== verification/Server_Threads.thy ===== *)
theory Server_Threads
  imports Interleaving
begin

text \<open>
  The handlers of the server as threads: the same code as in \<open>Server\<close>, cut where another
  connection can come in between, that is at every call of the database, every access to
  the session map and every write to a socket. The theorem is that a thread that nobody
  interrupts is the handler.
\<close>

type_synonym ('db, 'a) handler_thread = "('db server, server_error, 'a) thread"

section \<open>Broadcast, unicast and user ids\<close>

definition broadcast_thread :: "'db env \<Rightarrow> string \<Rightarrow> ('db, unit) handler_thread" where
  "broadcast_thread E wid =
     tbind (atomic (shared wid)) (\<lambda>is_shared.
     if \<not> is_shared then tret ()
     else
       tbind (atomic (make_oid E wid)) (\<lambda>i.
       tbind (atomic (db_call (find_wb (env_mongo E) i))) (\<lambda>result.
       case result of
         None \<Rightarrow> tret ()
       | Some whiteboard_doc \<Rightarrow>
           tbind (atomic (board_elements E whiteboard_doc)) (\<lambda>eles.
           tbind (atomic (draw (env_rand E))) (\<lambda>rid.
           let response = new_broadcast eles (new_wb_packet server_version T_broadcast rid)
           in tbind (atomic (session_sockets wid)) (\<lambda>sockets.
              tfor_each sockets (\<lambda>k. (atomic (send_packet E k response)))))))))"

definition unicast_thread :: "'db env \<Rightarrow> string \<Rightarrow> socket \<Rightarrow> ('db, unit) handler_thread" where
  "unicast_thread E wid k =
     tbind (atomic (shared wid)) (\<lambda>is_shared.
     if \<not> is_shared then tret ()
     else
       tbind (atomic (make_oid E wid)) (\<lambda>i.
       tbind (atomic (db_call (find_wb (env_mongo E) i))) (\<lambda>result.
       case result of
         None \<Rightarrow> tret ()
       | Some whiteboard_doc \<Rightarrow>
           tbind (atomic (board_elements E whiteboard_doc)) (\<lambda>eles.
           tbind (atomic (draw (env_rand E))) (\<lambda>rid.
           (atomic (send_packet E k
             (new_broadcast eles (new_wb_packet server_version T_broadcast rid)))))))))"

definition sequence_thread :: "'db env \<Rightarrow> ('db, u32) handler_thread" where
  "sequence_thread E =
     tbind (atomic (db_call (inc_sequence (env_mongo E)))) (\<lambda>maybe_result.
     case maybe_result of
       None \<Rightarrow> tret 0
     | Some doc \<Rightarrow> (case field doc ''seq'' of
           None \<Rightarrow> tret 0
         | Some v \<Rightarrow> (atomic (of_sum (get_int32 v)))))"

definition assign_thread :: "'db env \<Rightarrow> socket \<Rightarrow> ('db, u32) handler_thread" where
  "assign_thread E k =
     tbind (sequence_thread E) (\<lambda>uid.
     tbind (atomic (db_call (insert_user (env_mongo E)
            [(''_id'', BInt32 uid), (''username'', BString []), (''password_hash'', BString [])])))
       (\<lambda>insert_result.
     tbind (atomic (draw (env_rand E))) (\<lambda>rid.
     let success = (case insert_result of Some n \<Rightarrow> n = 1 | None \<Rightarrow> False)
     in tseq (atomic (send_packet E k (new_temp_id_response success uid
               (new_wb_packet server_version T_tempIdResponse rid))))
          (tret uid))))"

section \<open>The handlers\<close>

definition create_whiteboard_thread ::
  "'db env \<Rightarrow> pb_packet \<Rightarrow> socket \<Rightarrow> ('db, unit) handler_thread" where
  "create_whiteboard_thread E packet k =
     (let packet_id = pk_id packet; request_user_id = createwhiteboard (action_of packet)
      in tbind (if request_user_id = 0 then assign_thread E k else tret request_user_id)
           (\<lambda>user_id.
         tbind (atomic (draw (env_now E))) (\<lambda>now.
         tbind (atomic (db_call (insert_wb (env_mongo E)
                [(''uid'', BInt32 user_id), (''elements'', BArray []), (''created_at'', BDate now)])))
           (\<lambda>insert_one_result.
         let response = new_wb_packet server_version T_actionResponse packet_id
         in (atomic (send_packet E k (case insert_one_result of
              Some doc_id \<Rightarrow> new_action_response True (string_of_oid (env_mongo E) doc_id) response
            | None \<Rightarrow> new_action_response False ''Fail to create whiteboard document'' response)))))))"

definition create_session_thread ::
  "'db env \<Rightarrow> pb_packet \<Rightarrow> socket \<Rightarrow> ('db, unit) handler_thread" where
  "create_session_thread E packet k =
     (let request = createsession (action_of packet);
          user_id = rq_user_id request;
          whiteboard_id = rq_whiteboard_id request
      in tbind (atomic (make_oid E whiteboard_id)) (\<lambda>i.
         tbind (atomic (db_call (find_wb (env_mongo E) i))) (\<lambda>result.
         case result of
           Some whiteboard_doc \<Rightarrow>
             tbind (atomic (int32_field_eq whiteboard_doc ''uid'' user_id)) (\<lambda>is_admin.
             if is_admin then
               tseq (atomic (add_socket whiteboard_id k)) (
               tseq (atomic (db_call (update_wb (env_mongo E) i
                      [SetField ''active_user_ids'' (BArray [BInt32 user_id])]))) (
               (atomic (respond E k packet True ''Session created successfully''))))
             else (atomic (respond E k packet False ''User ID does not match'')))
         | None \<Rightarrow> (atomic (respond E k packet False ''Whiteboard not found'')))))"

definition join_session_thread ::
  "'db env \<Rightarrow> pb_packet \<Rightarrow> socket \<Rightarrow> ('db, unit) handler_thread" where
  "join_session_thread E packet k =
     (let request = joinsession (action_of packet)
      in tbind (if rq_user_id request = 0 then assign_thread E k else tret (rq_user_id request))
           (\<lambda>user_id.
         let whiteboard_id = rq_whiteboard_id request
         in tbind (atomic (make_oid E whiteboard_id)) (\<lambda>i.
            tbind (atomic (db_call (find_wb (env_mongo E) i))) (\<lambda>result.
            case result of
              Some whiteboard_doc \<Rightarrow>
                (case field whiteboard_doc ''active_user_ids'' of
                   Some _ \<Rightarrow>
                     tseq (atomic (add_socket whiteboard_id k)) (
                     tseq (atomic (db_call (update_wb (env_mongo E) i
                            [AddToSet ''active_user_ids'' (BInt32 user_id)]))) (
                     tbind (atomic (shared whiteboard_id)) (\<lambda>is_shared.
                     tseq (if is_shared then unicast_thread E whiteboard_id k else tret ()) (
                     (atomic (respond E k packet True whiteboard_id))))))
                 | None \<Rightarrow> (atomic (respond E k packet False ''Whiteboard is not in shared status'')))
            | None \<Rightarrow> (atomic (respond E k packet False ''Whiteboard not found''))))))"

definition quit_session_thread ::
  "'db env \<Rightarrow> pb_packet \<Rightarrow> socket \<Rightarrow> ('db, unit) handler_thread" where
  "quit_session_thread E packet k =
     (let request = quitsession (action_of packet);
          user_id = rq_user_id request;
          whiteboard_id = rq_whiteboard_id request
      in tseq (atomic (remove_socket whiteboard_id k)) (
         tbind (atomic (make_oid E whiteboard_id)) (\<lambda>i.
         tseq (atomic (db_call (update_wb (env_mongo E) i [Pull ''active_user_ids'' (BInt32 user_id)]))) (
         tbind (atomic (db_call (find_wb (env_mongo E) i))) (\<lambda>result.
         tseq (case result of
                None \<Rightarrow> tret ()
              | Some whiteboard_doc \<Rightarrow>
                  (case field whiteboard_doc ''active_user_ids'' of
                     None \<Rightarrow> tret ()
                   | Some active_user_ids_field \<Rightarrow>
                       tbind (atomic (of_sum (get_array active_user_ids_field))) (\<lambda>active_user_ids.
                       let should_delete_whiteboard = (active_user_ids = [])
                       in if should_delete_whiteboard
                          then (atomic (db_call (delete_wb (env_mongo E) i))) else tret ())))
             (atomic (respond E k packet True ''Quit session successfully'')))))))"

definition add_element_thread ::
  "'db env \<Rightarrow> pb_packet \<Rightarrow> socket \<Rightarrow> ('db, unit) handler_thread" where
  "add_element_thread E packet k =
     (let request = addelement (action_of packet);
          user_id = add_user_id request;
          whiteboard_id = add_whiteboard_id request;
          proto_ele_string = ser_element (env_rt E) (element_of (add_element request))
      in tbind (atomic (make_oid E whiteboard_id)) (\<lambda>i.
         tbind (atomic (db_call (find_wb (env_mongo E) i))) (\<lambda>result.
         case result of
           Some whiteboard_doc \<Rightarrow>
             tbind (atomic (user_in_active_user_ids whiteboard_doc user_id)) (\<lambda>active.
             tbind (if active then tret True else (atomic (int32_field_eq whiteboard_doc ''uid'' user_id)))
               (\<lambda>allowed.
             tseq (if allowed then
                    tseq (atomic (db_call (update_wb (env_mongo E) i
                           [Push ''elements'' (BString proto_ele_string)])))
                        (atomic (respond E k packet True ''Element added successfully''))
                  else tret ()) (
             tbind (atomic (shared whiteboard_id)) (\<lambda>is_shared.
             if is_shared then broadcast_thread E whiteboard_id else tret ()))))
         | None \<Rightarrow> (atomic (respond E k packet False
             ''User is not authorized to add element or whiteboard not found'')))))"

definition register_thread ::
  "'db env \<Rightarrow> pb_packet \<Rightarrow> socket \<Rightarrow> ('db, unit) handler_thread" where
  "register_thread E packet k =
     (let request = registerrequest (action_of packet);
          username = acc_username request;
          password_hash = acc_password_hash request
      in tbind (atomic (db_call (find_user (env_mongo E) username))) (\<lambda>result.
         case result of
           Some _ \<Rightarrow> (atomic (respond E k packet False ''Username already exists''))
         | None \<Rightarrow>
             tbind (atomic (draw (\<lambda>n. generate_random_salt (env_salt E n) 16))) (\<lambda>salt_string.
             let salted_password = salt_string @ password_hash;
                 hashed_password_string = hash_hex salted_password
             in tbind (sequence_thread E) (\<lambda>uid.
                let doc_value = [(''_id'', BInt32 uid), (''username'', BString username),
                      (''salt'', BString salt_string),
                      (''password_hash'', BString hashed_password_string)]
                in tcatch
                     (tbind (atomic (db_call (insert_user (env_mongo E) doc_value))) (\<lambda>result.
                      case result of
                        Some _ \<Rightarrow> (atomic (send_packet E k (new_temp_id_response True uid
                          (new_wb_packet server_version T_tempIdResponse (pk_id packet)))))
                      | None \<Rightarrow> (atomic (respond E k packet False ''Failed to register user''))))
                     (\<lambda>e. case e of
                        Dangling_socket j \<Rightarrow> tthrow e
                      | _ \<Rightarrow> (atomic (respond E k packet False
                          ''Exception occurred while registering user'')))))))"

definition login_thread ::
  "'db env \<Rightarrow> pb_packet \<Rightarrow> socket \<Rightarrow> ('db, unit) handler_thread" where
  "login_thread E packet k =
     (let request = loginrequest (action_of packet);
          username = acc_username request;
          password_hash = acc_password_hash request
      in tbind (atomic (db_call (find_user (env_mongo E) username))) (\<lambda>result.
         case result of
           Some user_doc \<Rightarrow>
             tbind (atomic (of_sum (case field user_doc ''_id'' of
                    None \<Rightarrow> Inl Exn_bson | Some v \<Rightarrow> get_int32 v))) (\<lambda>user_id.
             case (field user_doc ''password_hash'', field user_doc ''salt'') of
               (Some stored_password_hash, Some stored_salt) \<Rightarrow>
                 tbind (atomic (of_sum (get_string stored_salt))) (\<lambda>salt.
                 let salted_password = salt @ password_hash;
                     calculated_hash = hash_hex salted_password
                 in tbind (atomic (of_sum (get_string stored_password_hash))) (\<lambda>stored.
                    if calculated_hash = stored
                    then (atomic (send_packet E k (new_temp_id_response True user_id
                           (new_wb_packet server_version T_tempIdResponse (pk_id packet)))))
                    else (atomic (respond E k packet False ''Invalid username or password''))))
             | _ \<Rightarrow> tret ())
         | None \<Rightarrow> (atomic (respond E k packet False ''User not exist''))))"

definition modify_element_thread ::
  "'db env \<Rightarrow> pb_packet \<Rightarrow> socket \<Rightarrow> ('db, unit) handler_thread" where
  "modify_element_thread E packet k =
     (let request = modifyelement (action_of packet);
          orig_element_string = ser_element (env_rt E) (element_of (mod_orig_element request));
          new_element_string = ser_element (env_rt E) (element_of (mod_modi_element request));
          user_id = mod_user_id request;
          whiteboard_id = mod_whiteboard_id request
      in tbind (atomic (make_oid E whiteboard_id)) (\<lambda>i.
         tbind (atomic (db_call (find_wb (env_mongo E) i))) (\<lambda>result.
         case result of
           Some whiteboard_doc \<Rightarrow>
             tbind (atomic (user_in_active_user_ids whiteboard_doc user_id)) (\<lambda>user_found.
             if user_found then
               (case field whiteboard_doc ''elements'' of
                  None \<Rightarrow> tret ()
                | Some elements_field \<Rightarrow>
                    tbind (atomic (of_sum (get_array elements_field))) (\<lambda>elements_array.
                    tbind (atomic (string_in elements_array orig_element_string)) (\<lambda>orig_element_found.
                    if orig_element_found then
                      tseq (atomic (db_call (update_wb (env_mongo E) i
                             [Pull ''elements'' (BString orig_element_string),
                              Push ''elements'' (BString new_element_string)]))) (
                      tseq (atomic (respond E k packet True ''Element modified successfully'')) (
                      tbind (atomic (shared whiteboard_id)) (\<lambda>is_shared.
                      if is_shared then broadcast_thread E whiteboard_id else tret ())))
                    else (atomic (respond E k packet False ''Original element is not in the database'')))))
             else tret ())
         | None \<Rightarrow> (atomic (respond E k packet False
             ''User is not authorized to modify element or whiteboard not found'')))))"

section \<open>Connections\<close>

definition dispatch_thread :: "'db env \<Rightarrow> pb_packet \<Rightarrow> socket \<Rightarrow> ('db, unit) handler_thread" where
  "dispatch_thread E packet k = (case type_of_code (pk_type packet) of
      Some T_createWhiteboard \<Rightarrow> create_whiteboard_thread E packet k
    | Some T_createSession \<Rightarrow> create_session_thread E packet k
    | Some T_joinSession \<Rightarrow> join_session_thread E packet k
    | Some T_quitSession \<Rightarrow> quit_session_thread E packet k
    | Some T_addElement \<Rightarrow> add_element_thread E packet k
    | Some T_modifyElement \<Rightarrow> modify_element_thread E packet k
    | Some T_loginRequest \<Rightarrow> login_thread E packet k
    | Some T_registerRequest \<Rightarrow> register_thread E packet k
    | _ \<Rightarrow> tret ())"

fun round_thread :: "'db env \<Rightarrow> socket \<Rightarrow> read_result \<Rightarrow> ('db, bool) handler_thread" where
  "round_thread E k Read_eof = tret False"
| "round_thread E k Read_error = tthrow Exn_system"
| "round_thread E k (Read_ok buffer) =
     tseq (dispatch_thread E (parse_packet (env_rt E) (env_junk E) buffer) k) (tret True)"

fun loop_thread :: "'db env \<Rightarrow> socket \<Rightarrow> read_result list \<Rightarrow> ('db, bool) handler_thread" where
  "loop_thread E k [] = tret True"
| "loop_thread E k (r # rs) =
     tbind (round_thread E k r) (\<lambda>go_on. if go_on then loop_thread E k rs else tret False)"

definition connection_thread :: "'db env \<Rightarrow> socket \<Rightarrow> read_result list \<Rightarrow> ('db, unit) handler_thread" where
  "connection_thread E k reads =
     tbind (tcatch (loop_thread E k reads)
            (\<lambda>e. case e of Dangling_socket j \<Rightarrow> tthrow e | _ \<Rightarrow> tret False))
       (\<lambda>waiting. if waiting then tret () else (atomic (close_socket k)))"

section \<open>Nobody interferes\<close>

lemma run_of_sum [run_alone]:
  "run_thread (case r of Inl e \<Rightarrow> f e | Inr x \<Rightarrow> g x) = (case r of Inl e \<Rightarrow> run_thread (f e) | Inr x \<Rightarrow> run_thread (g x))"
  by (simp split: sum.split)

lemma run_broadcast [run_alone]: "run_thread (broadcast_thread E wid) = handle_broadcast E wid"
  by (simp add: broadcast_thread_def handle_broadcast_def run_alone Let_def cong: if_cong option.case_cong server_error.case_cong)

lemma run_unicast [run_alone]: "run_thread (unicast_thread E wid k) = handle_unicast E wid k"
  by (simp add: unicast_thread_def handle_unicast_def run_alone cong: if_cong option.case_cong server_error.case_cong)

lemma run_sequence [run_alone]: "run_thread (sequence_thread E) = getNextSequence E"
  by (simp add: sequence_thread_def getNextSequence_def run_alone cong: if_cong option.case_cong server_error.case_cong)

lemma run_assign [run_alone]: "run_thread (assign_thread E k) = handle_assign_user_id E k"
  by (simp add: assign_thread_def handle_assign_user_id_def run_alone Let_def cong: if_cong option.case_cong server_error.case_cong)

lemmas handler_thread_defs = create_whiteboard_thread_def create_session_thread_def
  join_session_thread_def quit_session_thread_def add_element_thread_def register_thread_def
  login_thread_def modify_element_thread_def

lemma run_handlers [run_alone]:
  "run_thread (create_whiteboard_thread E p k) = handle_create_whiteboard_request E p k"
  "run_thread (create_session_thread E p k) = handle_create_session_request E p k"
  "run_thread (join_session_thread E p k) = handle_join_session_request E p k"
  "run_thread (quit_session_thread E p k) = handle_quit_session_request E p k"
  "run_thread (add_element_thread E p k) = handle_add_element_request E p k"
  "run_thread (login_thread E p k) = handle_login_request E p k"
  "run_thread (modify_element_thread E p k) = handle_modify_element_request E p k"
  by (simp_all add: handler_defs handler_thread_defs run_alone Let_def cong: if_cong option.case_cong server_error.case_cong)

lemma run_case_error [run_alone]:
  "run_thread (case e of Exn_bson \<Rightarrow> a | Exn_mongo \<Rightarrow> b | Exn_system \<Rightarrow> c | Dangling_socket j \<Rightarrow> d j) =
   (case e of Exn_bson \<Rightarrow> run_thread a | Exn_mongo \<Rightarrow> run_thread b | Exn_system \<Rightarrow> run_thread c
    | Dangling_socket j \<Rightarrow> run_thread (d j))"
  by (simp split: server_error.split)

lemma run_register [run_alone]: "run_thread (register_thread E p k) = handle_register_request E p k"
  by (simp add: register_thread_def handle_register_request_def run_alone Let_def cong: if_cong option.case_cong server_error.case_cong)

lemma run_dispatch [run_alone]: "run_thread (dispatch_thread E p k) = dispatch E p k"
  by (simp add: dispatch_thread_def dispatch_def run_alone split: option.split packet_type.split)

lemma run_round [run_alone]: "run_thread (round_thread E k r) = connection_round E k r"
  by (cases r) (simp_all add: run_alone)

lemma run_loop [run_alone]: "run_thread (loop_thread E k rs) = connection_loop E k rs"
  by (induction rs) (simp_all add: run_alone cong: if_cong)

lemma run_connection: "run_thread (connection_thread E k rs) = handle_connection E k rs"
  by (simp add: connection_thread_def handle_connection_def run_alone cong: if_cong option.case_cong server_error.case_cong)

end
