(* ===== verification/Server_Interleavings.thy ===== *)
theory Server_Interleavings
  imports Server_Threads Server_Boards
begin

text \<open>
  What the handlers of different connections can do to the boards, the users and the
  answers when they interleave: one relation \<open>server_move\<close> that every atomic action of every
  connection satisfies under the laws of the database, and its consequences for runs.
\<close>

section \<open>Atomic actions on boards\<close>

text \<open>
  The specification \<open>board_step\<close> of whole requests does not hold for interleavings: leaving is
  two actions on the database, and a joining user is added to whatever is there by then.
\<close>

inductive board_act :: "boards \<Rightarrow> boards \<Rightarrow> bool" where
  act_create: "B i = None \<Longrightarrow> board_act B (B(i \<mapsto> new_board uid))"
| act_open: "B i = Some b \<Longrightarrow> board_act B (B(i \<mapsto> b\<lparr>b_active := Some [uid]\<rparr>))"
| act_join: "B i = Some b \<Longrightarrow> board_act B (B(i \<mapsto> b\<lparr>b_active :=
     Some (add_user uid (case b_active b of None \<Rightarrow> [] | Some xs \<Rightarrow> xs))\<rparr>))"
| act_leave: "B i = Some b \<Longrightarrow> board_act B (B(i \<mapsto> b\<lparr>b_active :=
     map_option (filter (\<lambda>x. x \<noteq> uid)) (b_active b)\<rparr>))"
| act_push: "B i = Some b \<Longrightarrow> board_act B (B(i \<mapsto> b\<lparr>b_elems := b_elems b @ [e]\<rparr>))"
| act_delete: "board_act B (B(i := None))"

text \<open>
  An action of a connection: the boards make one such step or none, users are only added, no
  id twice, the counter does not go back, and what is sent are packets of a server.
\<close>

definition boards_move :: "'db mongo_view \<Rightarrow> 'db \<Rightarrow> 'db \<Rightarrow> bool" where
  "boards_move V d d' \<longleftrightarrow>
     (\<forall>B. holds V d B \<longrightarrow> (\<exists>B'. holds V d' B' \<and> (B' = B \<or> board_act B B')))"

definition users_move :: "'db mongo_view \<Rightarrow> 'db \<Rightarrow> 'db \<Rightarrow> bool" where
  "users_move V d d' \<longleftrightarrow> prefix (v_users V d) (v_users V d') \<and> next_uid V d \<le> next_uid V d' \<and>
     (distinct (map (\<lambda>u. field u ''_id'') (v_users V d)) \<longrightarrow>
      distinct (map (\<lambda>u. field u ''_id'') (v_users V d')))"

definition server_move :: "'db mongo_view \<Rightarrow> 'db server \<Rightarrow> 'db server \<Rightarrow> bool" where
  "server_move V s s' \<longleftrightarrow> boards_move V (db s) (db s') \<and> users_move V (db s) (db s') \<and>
     (\<exists>ws. sent s' = sent s @ ws \<and> list_all (\<lambda>x. server_packet (snd x)) ws)"

lemma moves_refl [simp]: "boards_move V d d" "users_move V d d"
  by (auto simp: boards_move_def users_move_def)

lemma moves_view:
  "v_wbs V d' = v_wbs V d \<Longrightarrow> boards_move V d d'"
  "v_users V d' = v_users V d \<Longrightarrow> v_seq V d' = v_seq V d \<Longrightarrow> users_move V d d'"
  by (auto simp: boards_move_def users_move_def next_uid_def intro: holds_same)

text \<open>An action away from the database that sends nothing.\<close>

lemma server_move_quiet: "db s' = db s \<Longrightarrow> sent s' = sent s \<Longrightarrow> server_move V s s'"
  by (simp add: server_move_def)

lemma acts_quiet:
  assumes "\<And>s. db (snd (f s)) = db s" and "\<And>s. sent (snd (f s)) = sent s"
  shows "acts (server_move V) (atomic f)"
  by (rule acts_atomic) (simp add: server_move_quiet assms)

text \<open>A computation that keeps every property changes nothing at all.\<close>

lemma acts_pure:
  assumes "\<And>P. keeps P f"
  shows "acts (server_move V) (atomic f)"
proof (rule acts_atomic)
  fix s
  have "snd (f s) = s" using keepsD [OF assms [of "\<lambda>t. t = s"], of s] by simp
  then show "server_move V s (snd (f s))" by (simp add: server_move_quiet)
qed

lemma acts_reading [acts_intros]:
  "acts (server_move V) (atomic (shared wid))"
  "acts (server_move V) (atomic (make_oid E wid))"
  "acts (server_move V) (atomic (board_elements E d))"
  "acts (server_move V) (atomic (of_sum r))"
  "acts (server_move V) (atomic (int32_field_eq d f x))"
  "acts (server_move V) (atomic (user_in_active_user_ids d x))"
  "acts (server_move V) (atomic (string_in vs y))"
  by (rule acts_pure, intro keeps_intros)+

lemma acts_local [acts_intros]:
  "acts (server_move V) (atomic (draw g))"
  "acts (server_move V) (atomic (session_sockets wid))"
  "acts (server_move V) (atomic (add_socket wid k))"
  "acts (server_move V) (atomic (remove_socket wid k))"
  "acts (server_move V) (atomic (close_socket k))"
  by (rule acts_quiet; simp add: draw_def session_sockets_def add_socket_def remove_socket_def
      close_socket_def mod_st_def split: option.split)+

lemma acts_send:
  assumes "server_packet w"
  shows "acts (server_move V) (atomic (send_packet E k w))"
  by (rule acts_atomic) (simp add: send_packet_def server_move_def assms)

lemma acts_respond [acts_intros]: "acts (server_move V) (atomic (respond E k p b msg))"
  unfolding respond_def by (rule acts_send) simp

section \<open>The calls of the database\<close>

lemma acts_db_call:
  assumes "\<And>d. boards_move V d (snd (f d)) \<and> users_move V d (snd (f d))"
  shows "acts (server_move V) (atomic (db_call f))"
  by (rule acts_atomic) (simp add: db_call_def server_move_def assms case_prod_beta)

lemma acts_finds:
  assumes "find_laws M V"
  shows "acts (server_move V) (atomic (db_call (find_wb M i)))"
    and "acts (server_move V) (atomic (db_call (find_user M u)))"
  using assms by (auto intro!: acts_db_call simp: find_laws_def)

lemma acts_insert_wb:
  assumes "insert_laws M V"
  shows "acts (server_move V) (atomic (db_call (insert_wb M
    [(''uid'', BInt32 x), (''elements'', BArray []), (''created_at'', BDate t)])))"
proof (rule acts_db_call)
  fix d
  let ?doc = "[(''uid'', BInt32 x), (''elements'', BArray []), (''created_at'', BDate t)]"
  have "field ?doc ''_id'' = None" by simp
  from insert_wb_law [OF assms this, of d] obtain i d' where
    d': "insert_wb M ?doc d = (Inr (Some i), d')" "v_wbs V d i = None"
      "v_wbs V d' = (v_wbs V d)(i \<mapsto> (''_id'', BOid i) # ?doc)"
      "v_users V d' = v_users V d" "v_seq V d' = v_seq V d"
    by blast
  have new: "represents ((''_id'', BOid i) # ?doc) (new_board x)"
    by (simp add: represents_def new_board_def)
  have "boards_move V d d'"
    unfolding boards_move_def
    using holds_upd [OF _ d'(3) new] holds_find(1) [of V d _ i] d'(2) by (blast intro: act_create)
  with d' show "boards_move V d (snd (insert_wb M ?doc d)) \<and> users_move V d (snd (insert_wb M ?doc d))"
    by (simp add: moves_view)
qed

lemma acts_insert_user:
  assumes "insert_laws M V"
  shows "acts (server_move V) (atomic (db_call (insert_user M doc)))"
proof (rule acts_db_call)
  fix d
  from insert_user_law [OF assms, of d doc]
  show "boards_move V d (snd (insert_user M doc d)) \<and> users_move V d (snd (insert_user M doc d))"
    by (auto simp: moves_view users_move_def next_uid_def split: if_splits) metis
qed

lemma acts_sequence:
  assumes "update_laws M V"
  shows "acts (server_move V) (atomic (db_call (inc_sequence M)))"
proof (rule acts_db_call)
  fix d
  from sequence_law [OF assms, of d]
  show "boards_move V d (snd (inc_sequence M d)) \<and> users_move V d (snd (inc_sequence M d))"
    by (auto simp: moves_view users_move_def next_uid_def seq_value_def)
qed

lemma acts_update_wb:
  assumes laws: "update_laws M V"
    and op: "\<And>B i b. B i = Some b \<Longrightarrow> board_act B (B(i \<mapsto> g b))"
    and doc: "\<And>d b. represents d b \<Longrightarrow> \<exists>d'. apply_update us d = Some d' \<and> represents d' (g b)"
  shows "acts (server_move V) (atomic (db_call (update_wb M i us)))"
proof (rule acts_db_call)
  fix d
  have "users_move V d (snd (update_wb M i us d))"
    using update_law [OF laws, of us i d] by (auto simp: moves_view split: if_splits option.splits)
  moreover have "boards_move V d (snd (update_wb M i us d))"
    unfolding boards_move_def
  proof (intro allI impI)
    fix B assume B: "holds V d B"
    have us: "\<not> conflicting us" if "B i \<noteq> None"
      using that holds_find(2) [OF B, of i] doc by (force simp: apply_update_def split: if_splits)
    show "\<exists>B'. holds V (snd (update_wb M i us d)) B' \<and> (B' = B \<or> board_act B B')"
    proof (cases "B i")
      case None
      then have "v_wbs V d i = None" using holds_find(1) [OF B] by simp
      with update_law [OF laws, of us i d] have "snd (update_wb M i us d) = d" by (auto split: if_splits)
      with B show ?thesis by auto
    next
      case (Some b)
      then obtain x where x: "v_wbs V d i = Some x" "represents x b" using holds_find(2) [OF B] by blast
      with doc obtain x' where x': "apply_update us x = Some x'" "represents x' (g b)" by blast
      from update_law [OF laws, of us i d] us Some x(1) x'(1) obtain d' where
        "update_wb M i us d = (Inr (), d')" "v_wbs V d' = (v_wbs V d)(i \<mapsto> x')" by auto
      with holds_upd [OF B _ x'(2)] op [of B i b, OF Some] show ?thesis by fastforce
    qed
  qed
  ultimately show "boards_move V d (snd (update_wb M i us d)) \<and> users_move V d (snd (update_wb M i us d))" by simp
qed

lemma update_join_any:
  "represents d b \<Longrightarrow> \<exists>d'. apply_update [AddToSet ''active_user_ids'' (BInt32 uid)] d = Some d' \<and>
     represents d' (b\<lparr>b_active := Some (add_user uid (case b_active b of None \<Rightarrow> [] | Some xs \<Rightarrow> xs))\<rparr>)"
  by (cases "b_active b") (auto simp: single_op represents_def add_user_def)

lemma acts_updates:
  assumes "update_laws M V"
  shows "acts (server_move V) (atomic (db_call (update_wb M i [SetField ''active_user_ids'' (BArray [BInt32 x])])))"
    and "acts (server_move V) (atomic (db_call (update_wb M i [AddToSet ''active_user_ids'' (BInt32 x)])))"
    and "acts (server_move V) (atomic (db_call (update_wb M i [Pull ''active_user_ids'' (BInt32 x)])))"
    and "acts (server_move V) (atomic (db_call (update_wb M i [Push ''elements'' (BString e)])))"
  by (rule acts_update_wb [OF assms]; (rule act_open act_join act_leave act_push | rule update_open update_join_any update_quit update_add); assumption)+

lemma acts_modify:
  assumes "update_laws M V"
  shows "acts (server_move V) (atomic (db_call (update_wb M i [Pull ''elements'' u, Push ''elements'' v])))"
proof (rule acts_db_call)
  fix d
  have "conflicting [Pull ''elements'' u, Push ''elements'' v]" by (simp add: conflicting_def)
  with update_law [OF assms, of "[Pull ''elements'' u, Push ''elements'' v]" i d]
  show "boards_move V d (snd (update_wb M i [Pull ''elements'' u, Push ''elements'' v] d)) \<and>
    users_move V d (snd (update_wb M i [Pull ''elements'' u, Push ''elements'' v] d))" by simp
qed

lemma acts_delete:
  assumes "update_laws M V"
  shows "acts (server_move V) (atomic (db_call (delete_wb M i)))"
proof (rule acts_db_call)
  fix d
  from delete_law [OF assms, of i d] show "boards_move V d (snd (delete_wb M i d)) \<and> users_move V d (snd (delete_wb M i d))"
    by (auto simp: boards_move_def moves_view) (metis holds_del act_delete)
qed

section \<open>Every action of every connection\<close>

lemma acts_case_error [acts_intros]:
  "acts R a \<Longrightarrow> acts R b \<Longrightarrow> acts R c \<Longrightarrow> (\<And>j. acts R (d j)) \<Longrightarrow>
    acts R (case e of Exn_bson \<Rightarrow> a | Exn_mongo \<Rightarrow> b | Exn_system \<Rightarrow> c | Dangling_socket j \<Rightarrow> d j)"
  by (cases e) simp_all

lemma acts_let [acts_intros]: "(\<And>x. x = u \<Longrightarrow> acts R (f x)) \<Longrightarrow> acts R (let x = u in f x)"
  by simp

lemma acts_handlers:
  assumes "mongo_laws (env_mongo E) V"
  shows "acts (server_move V) (dispatch_thread E p k)"
proof -
  note laws = mongo_laws_parts [OF assms]
  note calls = acts_finds [OF laws(1)] acts_insert_wb [OF laws(2)] acts_insert_user [OF laws(2)]
    acts_updates [OF laws(3)] acts_modify [OF laws(3)] acts_delete [OF laws(3)] acts_sequence [OF laws(3)]
  have broadcast: "acts (server_move V) (broadcast_thread E wid)" for wid
    unfolding broadcast_thread_def by (intro acts_intros calls acts_send) simp
  have unicast: "acts (server_move V) (unicast_thread E wid j)" for wid j
    unfolding unicast_thread_def by (intro acts_intros calls acts_send) simp
  have sequence: "acts (server_move V) (sequence_thread E)"
    unfolding sequence_thread_def by (intro acts_intros calls)
  have assign: "acts (server_move V) (assign_thread E k)"
    unfolding assign_thread_def by (intro acts_intros calls acts_send sequence) simp
  have create: "acts (server_move V) (create_whiteboard_thread E p k)"
    unfolding create_whiteboard_thread_def by (intro acts_intros calls assign acts_send) (simp split: option.split)
  have session: "acts (server_move V) (create_session_thread E p k)"
    unfolding create_session_thread_def by (intro acts_intros calls)
  have join: "acts (server_move V) (join_session_thread E p k)"
    unfolding join_session_thread_def by (intro acts_intros calls assign unicast)
  have quit: "acts (server_move V) (quit_session_thread E p k)"
    unfolding quit_session_thread_def by (intro acts_intros calls)
  have add: "acts (server_move V) (add_element_thread E p k)"
    unfolding add_element_thread_def by (intro acts_intros calls broadcast)
  have register: "acts (server_move V) (register_thread E p k)"
    unfolding register_thread_def by (intro acts_intros calls sequence acts_send) simp
  have login: "acts (server_move V) (login_thread E p k)"
    unfolding login_thread_def by (intro acts_intros calls acts_send) simp
  have modify: "acts (server_move V) (modify_element_thread E p k)"
    unfolding modify_element_thread_def by (intro acts_intros calls broadcast)
  show ?thesis
    unfolding dispatch_thread_def
    by (cases "type_of_code (pk_type p)")
      (auto intro: create session join quit add register login modify acts_tret split: packet_type.split)
qed

lemma acts_connection:
  assumes "mongo_laws (env_mongo E) V"
  shows "acts (server_move V) (connection_thread E k rs)"
proof -
  have round: "acts (server_move V) (round_thread E k r)" for r
    by (cases r) (simp_all add: acts_intros acts_handlers [OF assms])
  have "acts (server_move V) (loop_thread E k rs)"
    by (induction rs) (auto intro!: acts_intros round)
  then show ?thesis
    unfolding connection_thread_def by (intro acts_intros)
qed

text \<open>
  A connection is accepted at an address no live stream object has, and a thread of the pool
  works on it; what it will read is open.
\<close>

inductive accepted :: "'db env \<Rightarrow> 'db server \<Rightarrow> 'db server \<Rightarrow> ('db, unit) handler_thread \<Rightarrow> bool" for E where
  "k \<notin> live_sockets s \<Longrightarrow>
     accepted E s (s\<lparr>live_sockets := insert k (live_sockets s)\<rparr>) (connection_thread E k reads)"

definition concurrent_runs :: "'db env \<Rightarrow> 'db \<Rightarrow> 'db server \<times> ('db, unit) handler_thread list \<Rightarrow> bool" where
  "concurrent_runs E d = rtranclp (system_step (accepted E)) (server_init d, [])"

text \<open>The interface \<open>interference\<close> needs the laws; without them every state is related.\<close>

interpretation connections: interference
  "\<lambda>s s' :: 'db server. mongo_laws (env_mongo E) V \<longrightarrow> server_move V s s'" "accepted E"
  for E :: "'db env" and V :: "'db mongo_view"
proof
  fix s s' :: "'db server" and t
  assume "accepted E s s' t"
  then show "mongo_laws (env_mongo E) V \<longrightarrow> server_move V s s'"
    by cases (simp add: server_move_quiet)
next
  fix s s' :: "'db server" and t
  assume "accepted E s s' t"
  then obtain k rs where t: "t = connection_thread E k rs" by cases
  show "acts (\<lambda>s s'. mongo_laws (env_mongo E) V \<longrightarrow> server_move V s s') t"
  proof (cases "mongo_laws (env_mongo E) V")
    case True
    then show ?thesis by (simp add: t acts_connection)
  next
    case False
    have "acts (\<lambda>s s'. True) u" for u :: "('db, unit) handler_thread"
      by (induction u rule: thread_induct) (auto intro: acts_Done acts_Step)
    with False show ?thesis by simp
  qed
qed

lemma concurrent_moves:
  assumes "mongo_laws (env_mongo E) V" and "concurrent_runs E d c"
  shows "rtranclp (server_move V) (server_init d) (fst c)"
  using connections.run_R [of E "(server_init d, [])" c V] assms by (simp add: concurrent_runs_def)

end
