(* ===== verification/Concurrency_Props.thy ===== *)
theory Concurrency_Props
  imports Server_Interleavings Board_Props
begin

text \<open>
  The properties of connections that are served at the same time: what survives every
  interleaving, and two races in which the handlers, each correct alone, break what they
  promise.
\<close>

section \<open>Alone\<close>


section \<open>What survives\<close>

lemma moves_of_run:
  assumes "rtranclp (server_move V) s s'"
  shows "(\<forall>B. holds V (db s) B \<longrightarrow> (\<exists>B'. holds V (db s') B' \<and> rtranclp board_act B B'))"
    and "prefix (v_users V (db s)) (v_users V (db s')) \<and> next_uid V (db s) \<le> next_uid V (db s') \<and>
     (distinct (map (\<lambda>u. field u ''_id'') (v_users V (db s))) \<longrightarrow>
      distinct (map (\<lambda>u. field u ''_id'') (v_users V (db s'))))"
    and "\<exists>ws. sent s' = sent s @ ws \<and> list_all (\<lambda>x. server_packet (snd x)) ws"
  using assms
proof (induction)
  case (step t u)
  {
    case 1
    show ?case
    proof (intro allI impI)
      fix B assume "holds V (db s) B"
      with step obtain B1 where "holds V (db t) B1" "rtranclp board_act B B1" by blast
      moreover with step obtain B2 where "holds V (db u) B2" "B2 = B1 \<or> board_act B1 B2"
        by (auto simp: server_move_def boards_move_def)
      ultimately show "\<exists>B'. holds V (db u) B' \<and> rtranclp board_act B B'"
        by (meson rtranclp.rtrancl_into_rtrancl)
    qed
  next
    case 2
    from step show ?case
      by (auto simp: server_move_def users_move_def dest: prefix_order.order_trans)
  next
    case 3
    from step show ?case by (fastforce simp: server_move_def)
  }
qed auto


text \<open>
  C15: however the connections interleave, an account that is there stays as it is, no two
  users have the same id, and whatever was written to a socket is a packet of a server.
  (Hypotheses: the laws of the database, and that it starts with distinct ids.)
\<close>

theorem interleavings_keep_users:
  assumes "mongo_laws (env_mongo E) V" and "concurrent_runs E d c"
    and "distinct (map (\<lambda>u. field u ''_id'') (v_users V d))"
  shows "prefix (v_users V d) (v_users V (db (fst c))) \<and>
    distinct (map (\<lambda>u. field u ''_id'') (v_users V (db (fst c)))) \<and>
    list_all (\<lambda>x. server_packet (snd x)) (sent (fst c))"
  using moves_of_run(2,3) [OF concurrent_moves [OF assms(1,2)]] assms(3) by (auto simp: server_init_def)

section \<open>Two registrations of one name\<close>

text \<open>Registration, split at the look-up.\<close>

definition register_rest :: "'db env \<Rightarrow> pb_packet \<Rightarrow> socket \<Rightarrow> ('db, unit) handler_thread" where
  "register_rest E p k =
     tbind (atomic (draw (\<lambda>n. generate_random_salt (env_salt E n) 16))) (\<lambda>salt.
     tbind (sequence_thread E) (\<lambda>uid. tcatch
       (tbind (atomic (db_call (insert_user (env_mongo E)
            (account_doc uid (acc_username (registerrequest (action_of p))) salt
              (acc_password_hash (registerrequest (action_of p))))))) (\<lambda>result.
          case result of
            Some _ \<Rightarrow> atomic (send_packet E k (id_answer uid (pk_id p)))
          | None \<Rightarrow> atomic (respond E k p False ''Failed to register user'')))
       (\<lambda>e. case e of
          Dangling_socket j \<Rightarrow> tthrow e
        | _ \<Rightarrow> atomic (respond E k p False ''Exception occurred while registering user''))))"

lemma register_thread_eq:
  "register_thread E p k = tbind
     (atomic (db_call (find_user (env_mongo E) (acc_username (registerrequest (action_of p))))))
     (\<lambda>result. case result of
        Some _ \<Rightarrow> atomic (respond E k p False ''Username already exists'')
      | None \<Rightarrow> register_rest E p k)"
  unfolding register_thread_def register_rest_def account_doc_def id_answer_def Let_def ..

lemma run_register_rest:
  "run_thread (register_rest E p k) s = register_step E p k (salt_of E s) (s\<lparr>tick := Suc (tick s)\<rparr>)"
proof -
  have "run_thread (register_rest E p k) =
      bnd (draw (\<lambda>n. generate_random_salt (env_salt E n) 16)) (register_step E p k)"
    unfolding register_rest_def register_step_def [abs_def]
    by (simp add: run_alone cong: option.case_cong server_error.case_cong)
  then show ?thesis by (simp add: bnd_at draw_at salt_of_def)
qed

lemma fresh_below:
  assumes "\<forall>u \<in> set us. \<exists>j < n. field u ''_id'' = Some (BInt32 (word_of_nat j))" and "n < 2 ^ 31"
  shows "\<forall>u \<in> set us. field u ''_id'' \<noteq> Some (BInt32 (word_of_nat n))"
proof -
  have "word_of_nat j \<noteq> (word_of_nat n :: u32)" if "j < n" for j
    using that assms(2) by (simp add: word_unat_eq_iff unat_of_nat)
  with assms(1) show ?thesis by force
qed

text \<open>What is left of a registration, run to its end.\<close>

lemma register_rest_new:
  assumes laws: "mongo_laws (env_mongo E) V" and n: "next_uid V (db s) = n" "n < 2 ^ 31"
    and below: "\<forall>u \<in> set (v_users V (db s)). \<exists>j < n. field u ''_id'' = Some (BInt32 (word_of_nat j))"
    and k: "k \<in> live_sockets s" and writes: "\<And>t j. env_write_ok E t j"
    and u: "acc_username (registerrequest (action_of p)) = u"
  obtains s' salt where "run_thread (register_rest E p k) s = (Inr (), s')"
    and "v_users V (db s') = v_users V (db s) @ [account_doc (word_of_nat n)
      u salt (acc_password_hash (registerrequest (action_of p)))]"
    and "next_uid V (db s') = Suc n" and "live_sockets s' = live_sockets s"
    and "sent s' = sent s @ [(k, id_answer (word_of_nat n) (pk_id p))]"
proof -
  let ?s = "s\<lparr>tick := Suc (tick s)\<rparr>"
  have "\<forall>old \<in> set (v_users V (db ?s)). field old ''_id'' \<noteq> Some (BInt32 (word_of_nat (next_uid V (db ?s))))"
    using fresh_below [OF below n(2)] n(1) by simp
  from register_step_new [OF laws _ this, of p k "salt_of E s"] n obtain d' where
    d': "register_step E p k (salt_of E s) ?s = send_packet E k (id_answer (word_of_nat n) (pk_id p)) (?s\<lparr>db := d'\<rparr>)"
      "v_users V d' = v_users V (db s) @ [account_doc (word_of_nat n)
        (acc_username (registerrequest (action_of p))) (salt_of E s) (acc_password_hash (registerrequest (action_of p)))]"
      "v_seq V d' = Some (Suc n)"
    by auto
  show ?thesis
    by (rule that [of "snd (run_thread (register_rest E p k) s)" "salt_of E s"])
      (simp_all add: run_register_rest d' send_packet_def k writes next_uid_def u)
qed

text \<open>
  C16: the name of an account is not protected against a race: two clients that register the
  same free name at the same time can both be told that they succeeded, with different
  numbers, and the name is then stored twice, the second account out of reach of a login.
  (Hypotheses: the laws of the database, the name is free, ids below the counter, numbers
  left, open sockets, writes that succeed.)
\<close>

theorem register_race:
  assumes laws: "mongo_laws (env_mongo E) V"
    and u: "acc_username (registerrequest (action_of p)) = u" "acc_username (registerrequest (action_of q)) = u"
    and free: "find (is_user u) (v_users V (db s)) = None"
    and n: "next_uid V (db s) = n" "Suc n < 2 ^ 31"
    and below: "\<forall>x \<in> set (v_users V (db s)). \<exists>j < n. field x ''_id'' = Some (BInt32 (word_of_nat j))"
    and live: "k \<in> live_sockets s" "j \<in> live_sockets s" and writes: "\<And>t i. env_write_ok E t i"
  shows "\<exists>schedule s' salt salt'.
    follow schedule (s, [register_thread E p k, register_thread E q j]) = (s', [Done (Inr ()), Done (Inr ())]) \<and>
    v_users V (db s') = v_users V (db s) @
      [account_doc (word_of_nat n) u salt (acc_password_hash (registerrequest (action_of p))),
       account_doc (word_of_nat (Suc n)) u salt' (acc_password_hash (registerrequest (action_of q)))] \<and>
    find (is_user u) (v_users V (db s')) =
      Some (account_doc (word_of_nat n) u salt (acc_password_hash (registerrequest (action_of p)))) \<and>
    sent s' = sent s @ [(k, id_answer (word_of_nat n) (pk_id p)), (j, id_answer (word_of_nat (Suc n)) (pk_id q))]"
proof -
  have find: "db_call (find_user (env_mongo E) u) s = (Inr None, s)"
    using db_call_find_user [OF mongo_laws_parts(1) [OF laws], of u s] free by simp
  have looked: "follow [0, 1] (s, [register_thread E p k, register_thread E q j])
      = (s, [register_rest E p k, register_rest E q j])"
    using find follow_atomic [of 0 "[register_thread E p k, register_thread E q j]"]
    by (simp add: register_thread_eq u atomic_def)
  obtain s1 salt where s1: "run_thread (register_rest E p k) s = (Inr (), s1)"
      "v_users V (db s1) = v_users V (db s) @ [account_doc (word_of_nat n) u salt
         (acc_password_hash (registerrequest (action_of p)))]"
      "next_uid V (db s1) = Suc n" "live_sockets s1 = live_sockets s"
      "sent s1 = sent s @ [(k, id_answer (word_of_nat n) (pk_id p))]"
    using register_rest_new [OF laws n(1) _ below live(1) writes u(1)] n(2) by auto
  have "\<forall>x \<in> set (v_users V (db s1)). \<exists>i < Suc n. field x ''_id'' = Some (BInt32 (word_of_nat i))"
    using below by (auto simp: s1 less_Suc_eq)
  then obtain s2 salt' where s2: "run_thread (register_rest E q j) s1 = (Inr (), s2)"
      "v_users V (db s2) = v_users V (db s1) @ [account_doc (word_of_nat (Suc n)) u salt'
         (acc_password_hash (registerrequest (action_of q)))]"
      "sent s2 = sent s1 @ [(j, id_answer (word_of_nat (Suc n)) (pk_id q))]"
    using live(2) s1(4) by (auto intro: register_rest_new [OF laws s1(3) n(2) _ _ writes u(2)])
  obtain a where a: "follow (replicate a 0) (s, [register_rest E p k, register_rest E q j])
      = (s1, [Done (Inr ()), register_rest E q j])"
    using follow_alone [of 0 "[register_rest E p k, register_rest E q j]" s] s1(1) by auto
  obtain b where b: "follow (replicate b 1) (s1, [Done (Inr ()), register_rest E q j])
      = (s2, [Done (Inr ()), Done (Inr ())])"
    using follow_alone [of 1 "[Done (Inr ()), register_rest E q j]" s1] s2(1) by auto
  have "follow ([0, 1] @ replicate a 0 @ replicate b 1) (s, [register_thread E p k, register_thread E q j])
      = (s2, [Done (Inr ()), Done (Inr ())])"
    by (simp only: follow_append looked a b)
  moreover have "find (is_user u) (v_users V (db s2)) =
      Some (account_doc (word_of_nat n) u salt (acc_password_hash (registerrequest (action_of p))))"
    using find_append_Some [OF free, of "account_doc (word_of_nat n) u salt (acc_password_hash (registerrequest (action_of p)))"]
    by (simp add: s1(2) s2(2))
  ultimately show ?thesis using s1 s2 by fastforce
qed

section \<open>Leaving while another user joins\<close>

text \<open>Leaving, split after it has read the active users.\<close>

definition quit_rest :: "'db env \<Rightarrow> pb_packet \<Rightarrow> socket \<Rightarrow> oid \<Rightarrow> doc option \<Rightarrow> ('db, unit) handler_thread" where
  "quit_rest E p k i result =
     tseq (case result of
             None \<Rightarrow> tret ()
           | Some whiteboard_doc \<Rightarrow>
               (case field whiteboard_doc ''active_user_ids'' of
                  None \<Rightarrow> tret ()
                | Some active_user_ids_field \<Rightarrow>
                    tbind (atomic (of_sum (get_array active_user_ids_field))) (\<lambda>active_user_ids.
                    if active_user_ids = [] then atomic (db_call (delete_wb (env_mongo E) i)) else tret ())))
       (atomic (respond E k p True ''Quit session successfully''))"

lemma quit_thread_eq:
  "quit_session_thread E p k = tbind (atomic (remove_socket (rq_whiteboard_id (quitsession (action_of p))) k)) (\<lambda>_.
     tbind (atomic (make_oid E (rq_whiteboard_id (quitsession (action_of p))))) (\<lambda>i.
     tbind (atomic (db_call (update_wb (env_mongo E) i
       [Pull ''active_user_ids'' (BInt32 (rq_user_id (quitsession (action_of p))))]))) (\<lambda>_.
     tbind (atomic (db_call (find_wb (env_mongo E) i))) (quit_rest E p k i))))"
  unfolding quit_session_thread_def quit_rest_def [abs_def] tseq_def Let_def ..

text \<open>The decision to delete is taken on what was read, whatever has happened since.\<close>

lemma run_quit_rest:
  assumes laws: "update_laws (env_mongo E) V" and B: "holds V (db s) B"
    and doc: "field doc ''active_user_ids'' = Some (BArray [])"
    and k: "k \<in> live_sockets s" and writes: "\<And>t j. env_write_ok E t j"
  obtains d' where "run_thread (quit_rest E p k i (Some doc)) s =
      (Inr (), s\<lparr>db := d', sent := sent s @ [(k, new_action_response True ''Quit session successfully''
         (new_wb_packet server_version T_actionResponse (pk_id p)))], tick := Suc (tick s)\<rparr>)"
    and "holds V d' (B(i := None))"
proof -
  from db_call_delete_wb [OF laws, of i s] obtain d' where
    d': "db_call (delete_wb (env_mongo E) i) s = (Inr (), s\<lparr>db := d'\<rparr>)" "v_wbs V d' = (v_wbs V (db s))(i := None)" .
  have "run_thread (quit_rest E p k i (Some doc)) s = respond E k p True ''Quit session successfully'' (s\<lparr>db := d'\<rparr>)"
    by (simp add: quit_rest_def doc run_alone of_sum_def seq_at d'(1))
  then show ?thesis
    by (intro that [OF _ holds_del [OF B d'(2)]]) (simp add: respond_def send_packet_def k writes)
qed

text \<open>
  C17: a user can be let into a whiteboard that is deleted under his feet: while the last
  active user leaves, another one joins, is answered with success and stays in the session,
  and the board is deleted all the same, with everything on it. (Hypotheses: the laws of the
  database, a board with one active user, an id that parses, open sockets, writes that
  succeed.)
\<close>

theorem quit_join_race:
  assumes laws: "mongo_laws (env_mongo E) V" and B: "holds V (db s) B"
    and b: "B i = Some b" "b_active b = Some [rq_user_id (quitsession (action_of p))]"
    and wid: "rq_whiteboard_id (quitsession (action_of p)) = wid" "rq_whiteboard_id (joinsession (action_of q)) = wid"
    and i: "oid_of_string (env_mongo E) wid = Some i" and q: "rq_user_id (joinsession (action_of q)) \<noteq> 0"
    and live: "k \<in> live_sockets s" "j \<in> live_sockets s" and writes: "\<And>t n. env_write_ok E t n"
  shows "\<exists>schedule s'.
    follow schedule (s, [quit_session_thread E p k, join_session_thread E q j]) = (s', [Done (Inr ()), Done (Inr ())]) \<and>
    holds V (db s') (B(i := None)) \<and> j \<in> members (whiteboard_sessions s') wid \<and>
    (j, new_action_response True wid (new_wb_packet server_version T_actionResponse (pk_id q))) \<in> set (sent s')"
proof -
  let ?uid = "rq_user_id (quitsession (action_of p))" and ?v = "rq_user_id (joinsession (action_of q))"
  let ?ts = "[quit_session_thread E p k, join_session_thread E q j]"
  let ?b = "b\<lparr>b_active := Some []\<rparr>" and ?s = "s\<lparr>whiteboard_sessions := remove_socket_from_whiteboard wid k (whiteboard_sessions s)\<rparr>"
  have B0: "holds V (db ?s) B" using B by simp
  have "apply_update [Pull ''active_user_ids'' (BInt32 ?uid)] doc = Some doc' \<and> represents doc' ?b \<longleftrightarrow>
    apply_update [Pull ''active_user_ids'' (BInt32 ?uid)] doc = Some doc' \<and>
      represents doc' (b\<lparr>b_active := map_option (filter (\<lambda>x. x \<noteq> ?uid)) (b_active b)\<rparr>)" for doc doc'
    by (simp add: b)
  then have pull: "represents doc b \<Longrightarrow> \<exists>doc'. apply_update [Pull ''active_user_ids'' (BInt32 ?uid)] doc = Some doc' \<and>
      represents doc' ?b" for doc
    using update_quit [of doc b ?uid] by simp
  obtain d1 where d1: "db_call (update_wb (env_mongo E) i [Pull ''active_user_ids'' (BInt32 ?uid)]) ?s
      = (Inr (), ?s\<lparr>db := d1\<rparr>)" and B1: "holds V d1 (B(i \<mapsto> ?b))"
    by (rule update_board [OF mongo_laws_parts(3) [OF laws] B0 b(1) pull])
  let ?s1 = "?s\<lparr>db := d1\<rparr>"
  have B1': "holds V (db ?s1) (B(i \<mapsto> ?b))" using B1 by simp
  obtain doc where doc: "db_call (find_wb (env_mongo E) i) ?s1 = (Inr (Some doc), ?s1)" "represents doc ?b"
    by (rule find_board [OF mongo_laws_parts(1) [OF laws] B1', of i ?b]) simp_all
  have read: "follow [0, 0, 0, 0] (s, ?ts) = (?s1, [quit_rest E p k i (Some doc), join_session_thread E q j])"
    using d1 doc(1) by (simp add: quit_thread_eq atomic_def remove_socket_def mod_st_at wid
        make_oid_some [OF i] ret_at)
  obtain d2 where B2: "holds V d2 (spec_join ?v i (B(i \<mapsto> ?b)))"
    and join: "join_step E q j ?v ?s1 = (case (B(i \<mapsto> ?b)) i of
         None \<Rightarrow> respond E j q False ''Whiteboard not found'' ?s1
       | Some b \<Rightarrow> (case b_active b of
           None \<Rightarrow> respond E j q False ''Whiteboard is not in shared status'' ?s1
         | Some xs \<Rightarrow> seq (send_packet E j (elements_packet E (tick ?s1) b)) (respond E j q True wid)
             (?s1\<lparr>whiteboard_sessions := add_socket_to_whiteboard wid j (whiteboard_sessions ?s1),
                db := d2, tick := Suc (tick ?s1)\<rparr>)))"
    by (rule join_step_at [OF laws B1' i wid(2) [symmetric]])
  define s2 where "s2 = snd (handle_join_session_request E q j ?s1)"
  have s2: "handle_join_session_request E q j ?s1 = (Inr (), s2)" "holds V (db s2) (spec_join ?v i (B(i \<mapsto> ?b)))"
    "live_sockets s2 = live_sockets s"
    "whiteboard_sessions s2 = add_socket_to_whiteboard wid j (whiteboard_sessions ?s1)"
    "(j, new_action_response True wid (new_wb_packet server_version T_actionResponse (pk_id q))) \<in> set (sent s2)"
    using join B2 q by (simp_all add: s2_def join_session_eq seq_at respond_def send_packet_def live writes)
  obtain a where a: "follow (replicate a 1) (?s1, [quit_rest E p k i (Some doc), join_session_thread E q j])
      = (s2, [quit_rest E p k i (Some doc), Done (Inr ())])"
    using follow_alone [of 1 "[quit_rest E p k i (Some doc), join_session_thread E q j]" ?s1] s2(1)
    by (auto simp: run_handlers)
  have "field doc ''active_user_ids'' = Some (BArray [])" using doc(2) by (simp add: represents_def)
  moreover have "k \<in> live_sockets s2" using s2(3) live(1) by simp
  ultimately obtain d3 where d3: "run_thread (quit_rest E p k i (Some doc)) s2 = (Inr (),
      s2\<lparr>db := d3, sent := sent s2 @ [(k, new_action_response True ''Quit session successfully''
         (new_wb_packet server_version T_actionResponse (pk_id p)))], tick := Suc (tick s2)\<rparr>)"
    and B3: "holds V d3 ((spec_join ?v i (B(i \<mapsto> ?b)))(i := None))"
    by (rule run_quit_rest [OF mongo_laws_parts(3) [OF laws] s2(2) _ _ writes])
  obtain c where c: "follow (replicate c 0) (s2, [quit_rest E p k i (Some doc), Done (Inr ())]) =
      (snd (run_thread (quit_rest E p k i (Some doc)) s2), [Done (Inr ()), Done (Inr ())])"
    using follow_alone [of 0 "[quit_rest E p k i (Some doc), Done (Inr ())]" s2] d3 by auto
  have "follow ([0, 0, 0, 0] @ replicate a 1 @ replicate c 0) (s, ?ts) =
      (snd (run_thread (quit_rest E p k i (Some doc)) s2), [Done (Inr ()), Done (Inr ())])"
    by (simp only: follow_append read a c)
  moreover have "(spec_join ?v i (B(i \<mapsto> ?b)))(i := None) = B(i := None)"
    by (simp add: spec_join_def)
  moreover have "j \<in> members (whiteboard_sessions s2) wid"
    by (simp add: s2(4) members_add)
  ultimately show ?thesis using d3 B3 s2(5) by (intro exI conjI) (assumption | simp)+
qed

section \<open>Elements added at the same time\<close>

text \<open>The board \<open>b\<close> with the elements \<open>es\<close> added is stored under the id \<open>i\<close>.\<close>

definition board_with :: "'db mongo_view \<Rightarrow> oid \<Rightarrow> board \<Rightarrow> 'db server \<Rightarrow> string list \<Rightarrow> bool" where
  "board_with V i b s es \<longleftrightarrow>
     (\<exists>doc. v_wbs V (db s) i = Some doc \<and> represents doc (b\<lparr>b_elems := b_elems b @ es\<rparr>))"

lemma acts_same_db:
  assumes "\<And>J. keeps (\<lambda>s. J (db s)) f"
  shows "acts (\<lambda>s s'. \<forall>es. board_with V i b s es \<longrightarrow> board_with V i b s' es) (atomic f)"
proof (rule acts_atomic)
  fix s
  have "db (snd (f s)) = db s" using keepsD [OF assms [of "\<lambda>d. d = db s"], of s] by simp
  then show "\<forall>es. board_with V i b s es \<longrightarrow> board_with V i b (snd (f s)) es"
    by (simp add: board_with_def)
qed

lemma owes_reading:
  assumes "\<And>P. keeps P f"
    and "\<And>s es. board_with V i b s es \<Longrightarrow>
      owes (board_with V i b) m (case fst (f s) of Inl e \<Rightarrow> Done (Inl e) | Inr x \<Rightarrow> g x)"
  shows "owes (board_with V i b) m (tbind (atomic f) g)"
proof -
  have "snd (f s) = s" for s using keepsD [OF assms(1) [of "\<lambda>t. t = s"], of s] by simp
  then show ?thesis using owes_atomic [of "board_with V i b" f "[]" m g] assms(2) by simp
qed

text \<open>What comes after the element is stored: the answer and the broadcast.\<close>

lemma owes_after_push:
  assumes "find_laws (env_mongo E) V"
  shows "owes (board_with V i b) {#} (tbind (atomic (respond E k p ok msg)) (\<lambda>_.
    tbind (atomic (shared wid)) (\<lambda>is_shared. if is_shared then broadcast_thread E wid else tret ())))"
proof -
  have find: "keeps (\<lambda>s. J (db s)) (db_call (find_wb (env_mongo E) j))" for J j
    using db_call_find_wb [OF assms] by (simp add: keeps_def)
  show ?thesis
    unfolding broadcast_thread_def
    by (intro owes_nothing acts_intros acts_same_db keeps_intros away_from_db find)
qed

lemma push_keeps:
  assumes "update_laws (env_mongo E) V" and "board_with V i b s es"
  shows "\<exists>s'. db_call (update_wb (env_mongo E) i [Push ''elements'' (BString e)]) s = (Inr (), s') \<and>
    board_with V i b s' (es @ [e])"
proof -
  obtain doc where doc: "v_wbs V (db s) i = Some doc" "represents doc (b\<lparr>b_elems := b_elems b @ es\<rparr>)"
    using assms(2) by (auto simp: board_with_def)
  obtain doc' where doc': "apply_update [Push ''elements'' (BString e)] doc = Some doc'"
    "represents doc' (b\<lparr>b_elems := b_elems b @ es @ [e]\<rparr>)"
    using update_add [OF doc(2), of e] by auto
  from db_call_update_some [OF assms(1) doc(1) doc'(1)] obtain d' where
    "db_call (update_wb (env_mongo E) i [Push ''elements'' (BString e)]) s = (Inr (), s\<lparr>db := d'\<rparr>)"
    "v_wbs V d' = (v_wbs V (db s))(i \<mapsto> doc')" .
  with doc'(2) show ?thesis by (auto simp: board_with_def)
qed

text \<open>A request of a user with rights owes exactly its element.\<close>

lemma add_thread_owes:
  assumes laws: "mongo_laws (env_mongo E) V"
    and i: "oid_of_string (env_mongo E) (add_whiteboard_id (addelement (action_of p))) = Some i"
    and may: "may_add b (add_user_id (addelement (action_of p)))"
  shows "owes (board_with V i b) {#added_string E p#} (add_element_thread E p k)"
proof -
  let ?uid = "add_user_id (addelement (action_of p))" and ?wid = "add_whiteboard_id (addelement (action_of p))"
  let ?L = "board_with V i b"
  define push where "push = (tbind (atomic (db_call (update_wb (env_mongo E) i [Push ''elements'' (BString (added_string E p))]))) (\<lambda>_.
     tbind (atomic (respond E k p True ''Element added successfully'')) (\<lambda>_.
     tbind (atomic (shared ?wid)) (\<lambda>is_shared. if is_shared then broadcast_thread E ?wid else tret ()))) :: ('a, unit) handler_thread)"
  have pushes: "owes ?L {#added_string E p#} push"
  proof -
    have "owes ?L (mset [added_string E p] + {#}) push"
      unfolding push_def
    proof (rule owes_atomic)
      fix s es assume "?L s es"
      from push_keeps [OF mongo_laws_parts(3) [OF laws] this, of "added_string E p"] obtain s' where
        s': "db_call (update_wb (env_mongo E) i [Push ''elements'' (BString (added_string E p))]) s = (Inr (), s')"
          "?L s' (es @ [added_string E p])" by blast
      from s' show "?L (snd (db_call (update_wb (env_mongo E) i [Push ''elements'' (BString (added_string E p))]) s))
          (es @ [added_string E p])" by simp
      from s' owes_after_push [OF mongo_laws_parts(1) [OF laws]]
      show "owes ?L {#} (case fst (db_call (update_wb (env_mongo E) i [Push ''elements'' (BString (added_string E p))]) s) of
          Inl e \<Rightarrow> Done (Inl e)
        | Inr x \<Rightarrow> tbind (atomic (respond E k p True ''Element added successfully'')) (\<lambda>_.
            tbind (atomic (shared ?wid)) (\<lambda>is_shared. if is_shared then broadcast_thread E ?wid else tret ())))" by simp
    qed
    then show ?thesis by simp
  qed
  have checks: "owes ?L {#added_string E p#} (tbind (atomic (user_in_active_user_ids doc ?uid)) (\<lambda>active.
      tbind (if active then tret True else atomic (int32_field_eq doc ''uid'' ?uid)) (\<lambda>allowed.
      tseq (if allowed then
             tseq (atomic (db_call (update_wb (env_mongo E) i [Push ''elements'' (BString (added_string E p))])))
                  (atomic (respond E k p True ''Element added successfully''))
           else tret ())
        (tbind (atomic (shared ?wid)) (\<lambda>is_shared. if is_shared then broadcast_thread E ?wid else tret ())))))"
    if doc: "represents doc (b\<lparr>b_elems := es\<rparr>)" for doc es
  proof (intro owes_reading keeps_intros)
    fix s es' assume "?L s es'"
    have owner: "int32_field_eq doc ''uid'' ?uid t = (Inr (b_owner b = ?uid), t)" for t :: "'a server"
      by (simp add: owner_check [OF doc] ret_at)
    show "owes ?L {#added_string E p#} (case fst (user_in_active_user_ids doc ?uid s) of
        Inl e \<Rightarrow> Done (Inl e)
      | Inr active \<Rightarrow> tbind (if active then tret True else atomic (int32_field_eq doc ''uid'' ?uid)) (\<lambda>allowed.
          tseq (if allowed then
                 tseq (atomic (db_call (update_wb (env_mongo E) i [Push ''elements'' (BString (added_string E p))])))
                      (atomic (respond E k p True ''Element added successfully''))
               else tret ())
            (tbind (atomic (shared ?wid)) (\<lambda>is_shared. if is_shared then broadcast_thread E ?wid else tret ()))))"
    proof (cases "case b_active b of None \<Rightarrow> False | Some xs \<Rightarrow> ?uid \<in> set xs")
      case True
      with doc pushes show ?thesis
        by (simp add: active_check [OF doc] ret_at tseq_def tbind_assoc push_def)
    next
      case False
      with may have "b_owner b = ?uid" by (simp add: may_add_def)
      with False pushes show ?thesis
        by (simp add: active_check [OF doc] ret_at) (intro owes_reading keeps_intros;
          simp add: owner tseq_def tbind_assoc push_def)
    qed
  qed
  have find: "owes ?L m (tbind (atomic (db_call (find_wb (env_mongo E) i))) g)"
    if "\<And>doc es. represents doc (b\<lparr>b_elems := es\<rparr>) \<Longrightarrow> owes ?L m (g (Some doc))" for m and g :: "_ \<Rightarrow> ('a, unit) handler_thread"
    using owes_atomic [of ?L "db_call (find_wb (env_mongo E) i)" "[]" m g] that
    by (force simp: db_call_find_wb [OF mongo_laws_parts(1) [OF laws]] board_with_def)
  show ?thesis
    unfolding add_element_thread_def Let_def added_string_def [symmetric]
    by (intro owes_reading keeps_intros) (simp add: make_oid_some [OF i] ret_at, rule find, simp add: checks)
qed

text \<open>
  C5: no added element is lost when several users add at the same time: however the requests
  of users with rights interleave, when all have been served the board holds what it held
  before, followed by exactly the added elements, each once. (Hypotheses: the laws of the
  database, the board is stored under the id of the requests, every user may add, and the
  run serves these requests to their end.)
\<close>

theorem concurrent_adds_all_kept:
  assumes laws: "mongo_laws (env_mongo E) V"
    and board: "v_wbs V (db s) i = Some doc" "represents doc b"
    and reqs: "list_all (\<lambda>(p, k). oid_of_string (env_mongo E) (add_whiteboard_id (addelement (action_of p))) = Some i \<and>
      may_add b (add_user_id (addelement (action_of p)))) reqs"
    and run: "rtranclp (system_step (\<lambda>_ _ _. False)) (s, map (\<lambda>(p, k). add_element_thread E p k) reqs) (s', map Done rs)"
  shows "\<exists>doc' es. v_wbs V (db s') i = Some doc' \<and> represents doc' (b\<lparr>b_elems := b_elems b @ es\<rparr>) \<and>
    mset es = mset (map (\<lambda>(p, k). added_string E p) reqs)"
proof -
  have start: "board_with V i b s []" using board by (simp add: board_with_def)
  have "list_all2 (owes (board_with V i b)) (map (\<lambda>(p, k). {#added_string E p#}) reqs)
      (map (\<lambda>(p, k). add_element_thread E p k) reqs)"
    using reqs by (auto simp: list_all2_conv_all_nth list_all_length split_beta intro: add_thread_owes [OF laws])
  from owes_run [OF run, of "board_with V i b" "[]" "map (\<lambda>(p, k). {#added_string E p#}) reqs"] start this
  obtain new ms where
    new: "board_with V i b s' new" and ms: "list_all2 (owes (board_with V i b)) ms (map Done rs)"
    and sum: "sum_list (map (\<lambda>(p, k). {#added_string E p#}) reqs) = mset new + sum_list ms" by auto
  from ms have "sum_list ms = {#}"
    by (induction ms "map Done rs :: ('a, unit) handler_thread list" arbitrary: rs rule: list_all2_induct)
      (auto elim: owes_DoneE)
  moreover have "sum_list (map (\<lambda>(p, k). {#added_string E p#}) reqs) = mset (map (\<lambda>(p, k). added_string E p) reqs)"
    by (induction reqs) auto
  ultimately show ?thesis using new sum by (auto simp: board_with_def)
qed

section \<open>Instances\<close>

definition two_connections :: "memdb server \<times> (memdb, unit) handler_thread list" where
  "two_connections = follow [0, 1, 1, 0] ((server_init mem_empty)\<lparr>live_sockets := {3, 4}\<rparr>,
     [connection_thread mem_env 3 [Read_ok [5], Read_eof], connection_thread mem_env 4 [Read_error]])"

lemma two_connections_run: "concurrent_runs mem_env mem_empty two_connections"
proof -
  let ?t = "connection_thread mem_env 3 [Read_ok [5], Read_eof]" and ?u = "connection_thread mem_env 4 [Read_error]"
  let ?s = "(server_init mem_empty)\<lparr>live_sockets := {3}\<rparr>"
  have "accepted mem_env (server_init mem_empty) ?s ?t"
    using accepted.intros [of 3 "server_init mem_empty" mem_env] by (simp add: server_init_def)
  then have "system_step (accepted mem_env) (server_init mem_empty, []) (?s, [] @ [?t])"
    by (rule Spawn)
  moreover have "accepted mem_env ?s ((server_init mem_empty)\<lparr>live_sockets := {3, 4}\<rparr>) ?u"
    using accepted.intros [of 4 ?s mem_env] by (simp add: server_init_def insert_commute)
  then have "system_step (accepted mem_env) (?s, [] @ [?t])
      ((server_init mem_empty)\<lparr>live_sockets := {3, 4}\<rparr>, ([] @ [?t]) @ [?u])"
    by (rule Spawn)
  ultimately show ?thesis
    unfolding concurrent_runs_def two_connections_def
    using follow_steps [of "accepted mem_env" _ "[0, 1, 1, 0]"]
    by (metis (no_types, lifting) append.simps converse_rtranclp_into_rtranclp)
qed


theorem interleavings_keep_users_witness:
  "distinct (map (\<lambda>u. field u ''_id'') (mem_users (db (fst two_connections)))) \<and>
   list_all (\<lambda>x. server_packet (snd x)) (sent (fst two_connections))"
  using interleavings_keep_users [OF mem_env_laws two_connections_run] by (simp add: mem_view_def mem_empty_def)

theorem register_race_witness:
  "\<exists>schedule s' salt salt'.
    follow schedule ((server_init mem_empty)\<lparr>live_sockets := {3, 4}\<rparr>,
      [register_thread mem_env (register_packet ''ann'' ''x'') 3, register_thread mem_env (register_packet ''ann'' ''y'') 4])
      = (s', [Done (Inr ()), Done (Inr ())]) \<and>
    mem_users (db s') = [account_doc 0 ''ann'' salt ''x'', account_doc 1 ''ann'' salt' ''y'']"
  using register_race [OF mem_env_laws, of "register_packet ''ann'' ''x''" "''ann''" "register_packet ''ann'' ''y''"
      "(server_init mem_empty)\<lparr>live_sockets := {3, 4}\<rparr>" 0 3 4]
  by (simp add: server_init_def mem_view_def mem_empty_def next_uid_def seq_value_def) blast

theorem quit_join_race_witness:
  "\<exists>schedule s'.
    follow schedule (sample_server {3, 4} {3},
      [quit_session_thread mem_env (request (ActQuitSession \<lparr>rq_user_id = 7, rq_whiteboard_id = sample_wid\<rparr>)) 3,
       join_session_thread mem_env (request (ActJoinSession \<lparr>rq_user_id = 9, rq_whiteboard_id = sample_wid\<rparr>)) 4])
      = (s', [Done (Inr ()), Done (Inr ())]) \<and>
    holds mem_view (db s') Map.empty \<and> 4 \<in> members (whiteboard_sessions s') sample_wid"
proof -
  have "sample_boards(1 := None) = Map.empty" by (simp add: sample_boards_def)
  then show ?thesis
    using quit_join_race [OF mem_env_laws sample_holds, of 1 sample_board
        "request (ActQuitSession \<lparr>rq_user_id = 7, rq_whiteboard_id = sample_wid\<rparr>)" sample_wid
        "request (ActJoinSession \<lparr>rq_user_id = 9, rq_whiteboard_id = sample_wid\<rparr>)" 3 "{3, 4}" "{3}" 4]
    by (simp add: sample_oids sample_boards_def sample_board_def sample_server_def) blast
qed

theorem concurrent_adds_all_kept_witness:
  "\<exists>s' rs doc' es. rtranclp (system_step (\<lambda>_ _ _. False)) (sample_server {3, 4} {3, 4},
      [add_element_thread mem_env (add_packet 7) 3, add_element_thread mem_env (add_packet 7) 4]) (s', map Done rs) \<and>
    v_wbs mem_view (db s') 1 = Some doc' \<and> represents doc' (sample_board\<lparr>b_elems := es\<rparr>) \<and>
    mset es = {#added_string mem_env (add_packet 7), added_string mem_env (add_packet 7)#}"
proof -
  let ?s = "sample_server {3, 4} {3, 4}" and ?t = "add_element_thread mem_env (add_packet 7)"
  have board: "v_wbs mem_view (db ?s) 1 = Some sample_doc" "represents sample_doc sample_board"
    by (simp_all add: sample_server_def mem_view_def mem_empty_def sample_doc_def sample_board_def represents_def)
  obtain r1 s1 where one: "run_thread (?t 3) ?s = (r1, s1)" by fastforce
  obtain r2 s2 where two: "run_thread (?t 4) s1 = (r2, s2)" by fastforce
  obtain a where a: "follow (replicate a 0) (?s, [?t 3, ?t 4]) = (s1, [Done r1, ?t 4])"
    using follow_alone [of 0 "[?t 3, ?t 4]" ?s] one by auto
  obtain b where b: "follow (replicate b 1) (s1, [Done r1, ?t 4]) = (s2, [Done r1, Done r2])"
    using follow_alone [of 1 "[Done r1, ?t 4]" s1] two by auto
  have run: "rtranclp (system_step (\<lambda>_ _ _. False)) (?s, [?t 3, ?t 4]) (s2, map Done [r1, r2])"
    using follow_steps [of _ "(?s, [?t 3, ?t 4])" "replicate a 0 @ replicate b 1"]
    by (simp only: follow_append a b list.map)
  moreover have "\<exists>doc' es. v_wbs mem_view (db s2) 1 = Some doc' \<and> represents doc' (sample_board\<lparr>b_elems := es\<rparr>) \<and>
      mset es = {#added_string mem_env (add_packet 7), added_string mem_env (add_packet 7)#}"
    using concurrent_adds_all_kept [OF mem_env_laws board, of "[(add_packet 7, 3), (add_packet 7, 4)]" s2 "[r1, r2]"] run
    by (simp add: sample_oids may_add_def sample_board_def)
  ultimately show ?thesis by blast
qed

end
