(* ===== verification/Element_Print.thy ===== *)
theory Element_Print
  imports Element
begin

text \<open>
  \<open>Point::str\<close> of \<open>src/base/element.hpp\<close> and \<open>WhiteboardElements::print\<close> of
  \<open>src/base/element.cpp\<close>, with the two conversions of the standard library they use:
  \<open>std::to_string(float)\<close>, which is \<open>%f\<close> on the exact value, and the stream output of a
  \<open>float\<close>, which is \<open>%g\<close>. Both round the exact binary value to the nearest decimal, ties to
  even, and are computed on the bits.
\<close>

section \<open>Decimal output of a float\<close>

definition fl_negative :: "float32 \<Rightarrow> bool" where
  "fl_negative w \<longleftrightarrow> bit w 31"

definition fl_exponent :: "float32 \<Rightarrow> nat" where
  "fl_exponent w = unat (drop_bit 23 w AND 255)"

definition fl_fraction :: "float32 \<Rightarrow> nat" where
  "fl_fraction w = unat (w AND 0x7fffff)"

text \<open>The magnitude of a finite float as a fraction of natural numbers.\<close>

definition fl_magnitude :: "float32 \<Rightarrow> nat \<times> nat" where
  "fl_magnitude w =
     (let e = fl_exponent w; m = fl_fraction w
      in if e = 0 then (m, 2 ^ 149)
         else if e < 150 then (2 ^ 23 + m, 2 ^ (150 - e))
         else ((2 ^ 23 + m) * 2 ^ (e - 150), 1))"

definition div_nearest :: "nat \<Rightarrow> nat \<Rightarrow> nat" where
  "div_nearest n d = (let q = n div d; r = n mod d
     in if d < 2 * r \<or> (d = 2 * r \<and> odd q) then q + 1 else q)"

fun decimal :: "nat \<Rightarrow> string" where
  "decimal n = (if n < 10 then [''0123456789'' ! n] else decimal (n div 10) @ [''0123456789'' ! (n mod 10)])"

declare decimal.simps [simp del]

definition decimals :: "nat \<Rightarrow> nat \<Rightarrow> string" where
  "decimals k n = (let ds = decimal n in replicate (k - length ds) (CHR ''0'') @ ds)"

definition signed_or_special :: "float32 \<Rightarrow> (nat \<times> nat \<Rightarrow> string) \<Rightarrow> string" where
  "signed_or_special w digits = (if fl_negative w then ''-'' else []) @
     (if fl_exponent w = 255 then (if fl_fraction w = 0 then ''inf'' else ''nan'')
      else digits (fl_magnitude w))"

definition to_string :: "float32 \<Rightarrow> string" where
  "to_string w = signed_or_special w (\<lambda>(n, d).
     let v = div_nearest (n * 10 ^ 6) d
     in decimal (v div 10 ^ 6) @ ''.'' @ decimals 6 (v mod 10 ^ 6))"

text \<open>\<open>%g\<close>: six significant digits without trailing zeros, with an exponent where it is out of range.\<close>

definition scaled :: "nat \<Rightarrow> nat \<Rightarrow> int \<Rightarrow> nat" where
  "scaled n d x = div_nearest (n * 10 ^ nat x) (d * 10 ^ nat (- x))"

definition lead_exponent :: "nat \<Rightarrow> nat \<Rightarrow> int" where
  "lead_exponent n d = (case find (\<lambda>x. n * 10 ^ nat (- (x + 1)) < d * 10 ^ nat (x + 1)) [-46..39] of
     Some x \<Rightarrow> x | None \<Rightarrow> 39)"

definition strip_zeros :: "string \<Rightarrow> string" where
  "strip_zeros ds = rev (dropWhile (\<lambda>c. c = CHR ''0'') (rev ds))"

definition with_fraction :: "string \<Rightarrow> string \<Rightarrow> string" where
  "with_fraction ds fs = (let fs = strip_zeros fs in if fs = [] then ds else ds @ ''.'' @ fs)"

definition general :: "nat \<Rightarrow> nat \<Rightarrow> string" where
  "general n d = (if n = 0 then ''0'' else
     (let x0 = lead_exponent n d; v0 = scaled n d (5 - x0);
          (x, v) = (if v0 = 10 ^ 6 then (x0 + 1, 10 ^ 5) else (x0, v0));
          ds = decimal v
      in if x < -4 \<or> 6 \<le> x
         then with_fraction (take 1 ds) (drop 1 ds) @ ''e'' @ (if x < 0 then ''-'' else ''+'') @
           decimals 2 (nat \<bar>x\<bar>)
         else if x < 0 then with_fraction ''0'' (replicate (nat (- x) - 1) (CHR ''0'') @ ds)
         else with_fraction (take (nat x + 1) ds) (drop (nat x + 1) ds)))"

definition stream_float :: "float32 \<Rightarrow> string" where
  "stream_float w = signed_or_special w (\<lambda>(n, d). general n d)"

section \<open>The operations\<close>

definition point_str :: "point \<Rightarrow> string" where
  "point_str p = ''('' @ to_string (pt_x p) @ '','' @ to_string (pt_y p) @ '')''"

text \<open>The state is what has been written to \<open>std::cout\<close>; a line ends with a newline character.\<close>

type_synonym 'a out = "(string, element_error, 'a) act"

definition newline :: string where
  "newline = [CHR 0x0A]"

definition put :: "string \<Rightarrow> unit out" where
  "put line = mod_st (\<lambda>cout. cout @ line @ newline)"

definition try_get :: "element_error + 'a \<Rightarrow> 'a out" where
  "try_get r = (case r of Inl e \<Rightarrow> throw e | Inr x \<Rightarrow> ret x)"

definition print_note :: "elements \<Rightarrow> unit out" where
  "print_note e =
     bnd (try_get (get_stickynote_center e)) (\<lambda>center.
     bnd (try_get (get_stickynote_side_length e)) (\<lambda>side_length.
     bnd (try_get (get_stickynote_content e)) (\<lambda>content.
     seq (put ''    TYPE: StickyNote'')
     (seq (put (''      center     : '' @ point_str center))
     (seq (put (''      side_length: '' @ stream_float side_length))
          (put (''      content    : '' @ content)))))))"

fun print_case :: "element_type \<Rightarrow> elements \<Rightarrow> unit out" where
  "print_case Path e =
     bnd (try_get (get_path_points e)) (\<lambda>vec.
     seq (put ''    TYPE: Path'')
     (seq (put (''    Path_points('' @ decimal (length vec) @ ''):''))
     (for_each vec (\<lambda>v. put (''      '' @ point_str v)))))"
| "print_case Line e =
     bnd (try_get (get_line_start e)) (\<lambda>start.
     bnd (try_get (get_line_end e)) (\<lambda>end_point.
     seq (put ''    TYPE: Line'')
     (seq (put (''      start: '' @ point_str start))
          (put (''      end  : '' @ point_str end_point)))))"
| "print_case Circle e =
     bnd (try_get (get_circle_center e)) (\<lambda>center.
     bnd (try_get (get_circle_radius e)) (\<lambda>radius.
     seq (put ''    TYPE: Circle'')
     (seq (put (''      center: '' @ point_str center))
          (put (''      radius  : '' @ stream_float radius)))))"
| "print_case Triangle e =
     bnd (try_get (get_triangle_points e)) (\<lambda>points.
     seq (put ''    TYPE: Triangle'')
     (seq (put (''      point1: '' @ point_str (points ! 0)))
     (seq (put (''      point2: '' @ point_str (points ! 1)))
          (put (''      point3: '' @ point_str (points ! 2))))))"
| "print_case Square e =
     bnd (try_get (get_square_side_length e)) (\<lambda>side_length.
     bnd (try_get (get_square_topleft e)) (\<lambda>topleft.
     seq (put ''    TYPE: Square'')
     (seq (put (''      side_length: '' @ stream_float side_length))
          (put (''      topleft: '' @ point_str topleft)))))"
| "print_case Text e =
     bnd (try_get (get_text_center e)) (\<lambda>center.
     bnd (try_get (get_text_content e)) (\<lambda>content.
     seq (put ''    TYPE: Text'')
     (seq (put (''      center : '' @ point_str center))
          (put (''      content: '' @ content)))))"
| "print_case Picture e = print_note e"
| "print_case StickyNote e = print_note e"
| "print_case Null e = put ''    Empty element''"

definition ruler :: string where
  "ruler = '' ---------------------------''"

definition print :: "elements \<Rightarrow> unit out" where
  "print e = seq (put ruler) (seq (print_case (etype e) e) (put ruler))"

section \<open>What is printed\<close>

lemma div_nearest_error:
  assumes "0 < d"
  shows "2 * n \<le> 2 * d * div_nearest n d + d" and "2 * d * div_nearest n d \<le> 2 * n + d"
proof -
  define q r where "q = n div d" and "r = n mod d"
  have n: "n = d * q + r" and r: "r < d" using assms by (simp_all add: q_def r_def)
  define v where "v = (if d < 2 * r \<or> (d = 2 * r \<and> odd q) then q + 1 else q)"
  have "2 * (d * q + r) \<le> 2 * d * v + d \<and> 2 * d * v \<le> 2 * (d * q + r) + d"
    using r by (auto simp: v_def algebra_simps)
  moreover have "div_nearest n d = v"
    by (simp add: div_nearest_def q_def r_def v_def Let_def)
  ultimately show "2 * n \<le> 2 * d * div_nearest n d + d" "2 * d * div_nearest n d \<le> 2 * n + d"
    by (simp_all add: n [symmetric])
qed

lemma div_nearest_exact: "0 < d \<Longrightarrow> div_nearest (n * d) d = n"
  by (simp add: div_nearest_def)

lemma lines_put: "for_each xs (\<lambda>x. put (f x)) cout = (Inr (), cout @ concat (map (\<lambda>x. f x @ newline) xs))"
  by (induction xs arbitrary: cout) (simp_all add: act_at put_def)

text \<open>The lines of an element; a picture has none, because printing it fails.\<close>

fun shape_lines :: "shape \<Rightarrow> string list" where
  "shape_lines (SPath ps) = [''    TYPE: Path'', ''    Path_points('' @ decimal (length ps) @ ''):''] @
     map (\<lambda>p. ''      '' @ point_str p) ps"
| "shape_lines (SLine p q) = [''    TYPE: Line'', ''      start: '' @ point_str p, ''      end  : '' @ point_str q]"
| "shape_lines (SCircle c r) = [''    TYPE: Circle'', ''      center: '' @ point_str c,
     ''      radius  : '' @ stream_float r]"
| "shape_lines (STriangle p q r) = [''    TYPE: Triangle'', ''      point1: '' @ point_str p,
     ''      point2: '' @ point_str q, ''      point3: '' @ point_str r]"
| "shape_lines (SSquare p l) = [''    TYPE: Square'', ''      side_length: '' @ stream_float l,
     ''      topleft: '' @ point_str p]"
| "shape_lines (SText c t) = [''    TYPE: Text'', ''      center : '' @ point_str c, ''      content: '' @ t]"
| "shape_lines (SPicture c t f) = []"
| "shape_lines (SStickyNote c l t) = [''    TYPE: StickyNote'', ''      center     : '' @ point_str c,
     ''      side_length: '' @ stream_float l, ''      content    : '' @ t]"
| "shape_lines SNull = [''    Empty element'']"

text \<open>
  C38: printing an element writes a ruler, the lines of its kind with its points and sizes,
  and a ruler, whatever it holds; a picture is printed as a sticky note, which it is not, so
  that printing it throws ElementsTypeUnmatch after the first ruler.
\<close>

theorem print_writes_shape:
  "print e cout = (case shape_of e of
     SPicture c t f \<Rightarrow> (Inl (ElementsTypeUnmatch ''Cannot [center] from typePicture''), cout @ ruler @ newline)
   | s \<Rightarrow> (Inr (), cout @ concat (map (\<lambda>l. l @ newline) (ruler # shape_lines s @ [ruler]))))"
proof -
  have "for_each ps (\<lambda>v. put (''      '' @ point_str v)) out =
      (Inr (), out @ concat (map (\<lambda>p. ''      '' @ point_str p @ newline) ps))" for ps out
    using lines_put [of ps "\<lambda>v. ''      '' @ point_str v" out] by simp
  then show ?thesis
    by (cases "etype e")
      (simp_all add: print_def print_note_def act_at put_def try_get_def shape_of_def type_unmatch_def
        get_path_points_def get_line_start_def get_line_end_def get_circle_center_def get_circle_radius_def
        get_triangle_points_def get_square_side_length_def get_square_topleft_def get_text_center_def
        get_text_content_def get_stickynote_center_def get_stickynote_side_length_def
        get_stickynote_content_def WhiteboardElementsTypeDict_def comp_def)
qed

section \<open>Coordinates that are integers\<close>

lemma float_fields:
  fixes w :: float32
  assumes "unat w = e * 2 ^ 23 + m" and "e < 256" and "m < 2 ^ 23"
  shows "fl_exponent w = e" and "fl_fraction w = m" and "\<not> fl_negative w"
proof -
  have "drop_bit 23 w AND 255 = take_bit 8 (drop_bit 23 w)" and "w AND 0x7fffff = take_bit 23 w"
    by (simp_all add: take_bit_eq_mask mask_eq_exp_minus_1)
  then show "fl_exponent w = e" "fl_fraction w = m"
    using assms by (simp_all add: fl_exponent_def fl_fraction_def unsigned_take_bit_eq unat_drop_bit_eq
        drop_bit_eq_div take_bit_eq_mod unat_div unat_mod)
  have "drop_bit 31 w = 0"
    using assms by (simp add: word_unat_eq_iff unat_drop_bit_eq drop_bit_eq_div unat_div)
  then show "\<not> fl_negative w"
    by (simp add: fl_negative_def bit_iff_odd_drop_bit)
qed

lemma float_bits:
  assumes "e < 256" and "m < 2 ^ 23"
  shows "fl_exponent (word_of_nat (e * 2 ^ 23 + m)) = e" and "fl_fraction (word_of_nat (e * 2 ^ 23 + m)) = m"
    and "\<not> fl_negative (word_of_nat (e * 2 ^ 23 + m))"
proof -
  have "e * 2 ^ 23 + m < 2 ^ 31" using assms by simp
  then have "unat (word_of_nat (e * 2 ^ 23 + m) :: float32) = e * 2 ^ 23 + m" by (simp only: unat_of_nat) simp
  note float_fields [OF this assms]
  then show "fl_exponent (word_of_nat (e * 2 ^ 23 + m)) = e" "fl_fraction (word_of_nat (e * 2 ^ 23 + m)) = m"
    "\<not> fl_negative (word_of_nat (e * 2 ^ 23 + m))" .
qed

lemma ilog2_bounds: "0 < n \<Longrightarrow> 2 ^ ilog2 n \<le> n \<and> n < 2 ^ Suc (ilog2 n)"
proof (induction n rule: ilog2.induct)
  case (1 n)
  show ?case
  proof (cases "n < 2")
    case True
    with 1(2) have "n = 1" by simp
    then show ?thesis by (simp add: ilog2.simps)
  next
    case False
    with 1 have "2 ^ ilog2 (n div 2) \<le> n div 2 \<and> n div 2 < 2 ^ Suc (ilog2 (n div 2))" by simp
    with False show ?thesis by (subst (1 2) ilog2.simps) auto
  qed
qed

text \<open>An integer of at most 24 bits is a float, and its value is a quotient of that integer.\<close>

lemma float_of_small:
  assumes "0 < unat w" and "unat w < 2 ^ 24"
  obtains d where "0 < d" and "fl_magnitude (float_of_u32 w) = (unat w * d, d)"
    and "fl_exponent (float_of_u32 w) < 255" and "\<not> fl_negative (float_of_u32 w)"
proof -
  define n e where "n = unat w" and "e = ilog2 n"
  have le: "2 ^ e \<le> n" "n < 2 ^ Suc e" using ilog2_bounds [of n] assms by (simp_all add: n_def e_def)
  have e: "e \<le> 23"
  proof (rule ccontr)
    assume "\<not> e \<le> 23"
    then have "(2::nat) ^ 24 \<le> 2 ^ e" by (intro power_increasing) simp_all
    with le(1) assms(2) show False by (simp add: n_def)
  qed
  define m where "m = n * 2 ^ (23 - e) - 2 ^ 23"
  have split: "(2::nat) ^ e * 2 ^ (23 - e) = 2 ^ 23" using e by (simp flip: power_add)
  have ge: "2 ^ 23 \<le> n * 2 ^ (23 - e)" using mult_le_mono1 [OF le(1), of "2 ^ (23 - e)"] split by simp
  have "(2::nat) ^ Suc e * 2 ^ (23 - e) = 2 ^ 24" using split by simp
  moreover have "n * 2 ^ (23 - e) < 2 ^ Suc e * 2 ^ (23 - e)" using le(2) by (rule mult_less_mono1) simp
  ultimately have "n * 2 ^ (23 - e) < 2 ^ 24" by (simp only:)
  then have m: "m < 2 ^ 23" using ge by (simp add: m_def)
  have bits: "(e + 126) * 2 ^ 23 + n * 2 ^ (23 - e) = (e + 127) * 2 ^ 23 + m"
    using ge by (simp add: m_def)
  have w: "float_of_u32 w = word_of_nat ((e + 127) * 2 ^ 23 + m)"
    using assms e unfolding float_of_u32_def Let_def n_def [symmetric] e_def [symmetric]
    by (simp only: bits [symmetric]) simp
  have e256: "e + 127 < 256" using e by simp
  have ex: "fl_exponent (float_of_u32 w) = e + 127" "fl_fraction (float_of_u32 w) = m"
    "\<not> fl_negative (float_of_u32 w)"
    unfolding w using float_bits [OF e256 m] by blast+
  have whole: "2 ^ 23 + m = n * 2 ^ (23 - e)" using ge by (simp add: m_def)
  have "fl_magnitude (float_of_u32 w) = (n * 2 ^ (23 - e), 2 ^ (23 - e))"
  proof (cases "e = 23")
    case True
    then show ?thesis using whole by (simp add: fl_magnitude_def ex)
  next
    case False
    with e whole show ?thesis by (simp add: fl_magnitude_def ex Let_def)
  qed
  then show ?thesis using e ex by (intro that [of "2 ^ (23 - e)"]) (simp_all add: n_def)
qed

text \<open>
  To_string writes a finite float with six decimals that are its exact value rounded to
  the nearest, so off by at most half a unit of the last; an integer below 2 to the 24, such
  as a coordinate of a square made from integers, is written exactly. (Hypothesis: the float
  is finite.)
\<close>

theorem to_string_nearest:
  assumes "fl_exponent x \<noteq> 255"
  shows "(\<exists>v. to_string x = (if fl_negative x then ''-'' else []) @ decimal (v div 10 ^ 6) @ ''.'' @ decimals 6 (v mod 10 ^ 6) \<and>
      (case fl_magnitude x of (n, d) \<Rightarrow> 0 < d \<and>
         2 * (n * 10 ^ 6) \<le> 2 * d * v + d \<and> 2 * d * v \<le> 2 * (n * 10 ^ 6) + d)) \<and>
    (unat w < 2 ^ 24 \<longrightarrow> to_string (float_of_u32 w) = decimal (unat w) @ ''.000000'')"
proof (intro conjI impI)
  obtain n d where nd: "fl_magnitude x = (n, d)" by fastforce
  then have "0 < d" by (auto simp: fl_magnitude_def Let_def split: if_splits)
  with assms nd div_nearest_error [of d "n * 10 ^ 6"]
  show "\<exists>v. to_string x = (if fl_negative x then ''-'' else []) @ decimal (v div 10 ^ 6) @ ''.'' @ decimals 6 (v mod 10 ^ 6) \<and>
      (case fl_magnitude x of (n, d) \<Rightarrow> 0 < d \<and>
         2 * (n * 10 ^ 6) \<le> 2 * d * v + d \<and> 2 * d * v \<le> 2 * (n * 10 ^ 6) + d)"
    by (intro exI [of _ "div_nearest (n * 10 ^ 6) d"]) (simp add: to_string_def signed_or_special_def Let_def)
next
  assume w: "unat w < 2 ^ 24"
  have zero: "decimals 6 0 = ''000000''" by (simp add: decimals_def decimal.simps numeral_eq_Suc)
  show "to_string (float_of_u32 w) = decimal (unat w) @ ''.000000''"
  proof (cases "unat w = 0")
    case True
    then have "float_of_u32 w = 0" by (simp add: float_of_u32_def)
    with True show ?thesis
      by (simp add: to_string_def signed_or_special_def fl_negative_def fl_exponent_def fl_fraction_def
          fl_magnitude_def div_nearest_def zero)
  next
    case False
    with w obtain d where "0 < d" "fl_magnitude (float_of_u32 w) = (unat w * d, d)"
      "fl_exponent (float_of_u32 w) < 255" "\<not> fl_negative (float_of_u32 w)"
      using float_of_small [of w] by auto
    moreover have "unat w * d * 10 ^ 6 = unat w * 10 ^ 6 * d" by simp
    ultimately show ?thesis
      using div_nearest_exact [of d "unat w * 10 ^ 6"]
      by (simp only: to_string_def signed_or_special_def Let_def prod.case) (simp add: zero)
  qed
qed

theorem to_string_nearest_witness: "to_string (float_of_u32 1023) = ''1023.000000''"
proof -
  have "fl_exponent 0 \<noteq> 255" by (simp add: fl_exponent_def)
  moreover have "decimal 1023 = ''1023''" by (simp add: decimal.simps)
  ultimately show ?thesis using to_string_nearest [of 0 1023] by simp
qed

end
