(* ===== verification/Listener.thy ===== *)
theory Listener
  imports Prelude
begin

text \<open>
  The asynchronous listener of \<open>src/base/network.hpp\<close> and \<open>src/base/network.cpp\<close>, which
  accepts connections by callbacks and lets each session read until its stream ends. The
  calls of asio only register what is to happen: the state keeps what is registered, and
  events are the completions asio reports.
\<close>

section \<open>State and operations\<close>

text \<open>
  Sessions are numbered in the order they are made; \<open>accepting\<close> is the session whose socket
  the next connection goes to, \<open>reading\<close> the sessions whose read is registered, \<open>cout\<close> what has
  been printed, line by line.
\<close>

record listener =
  next_session :: nat
  accepting :: "nat option"
  reading :: "nat list"
  started :: "nat list"
  cout :: "string list"

text \<open>
  What asio reports: an accept that succeeds or fails, and the end of the read of a session
  with what was received; the texts of errors are the library's, and so is how a pointer is
  printed (\<open>addr\<close>).
\<close>

datatype completion =
    Accept_ok
  | Accept_failed string
  | Read_ended nat string string

text \<open>\<open>std::quoted\<close>.\<close>

definition quoted :: "string \<Rightarrow> string" where
  "quoted s = [CHR 0x22] @ concat (map (\<lambda>c. if c = CHR 0x22 \<or> c = CHR 0x5C then [CHR 0x5C, c] else [c]) s) @ [CHR 0x22]"

definition generate_session :: "listener \<Rightarrow> nat \<times> listener" where
  "generate_session l = (next_session l, l\<lparr>next_session := Suc (next_session l)\<rparr>)"

definition start_accept :: "listener \<Rightarrow> listener" where
  "start_accept l =
     (let (new_session, l) = generate_session l
      in l\<lparr>cout := cout l @ [''Listening.....'', []], accepting := Some new_session\<rparr>)"

definition start_session :: "(nat \<Rightarrow> string) \<Rightarrow> nat \<Rightarrow> listener \<Rightarrow> listener" where
  "start_session addr k l =
     l\<lparr>cout := cout l @ [''Session: '' @ addr k @ '' StartSession''],
       reading := reading l @ [k], started := started l @ [k]\<rparr>"

definition on_received :: "(nat \<Rightarrow> string) \<Rightarrow> nat \<Rightarrow> string \<Rightarrow> string \<Rightarrow> listener \<Rightarrow> listener" where
  "on_received addr k ec received l =
     l\<lparr>cout := cout l @ [''Session: '' @ addr k @ '' on_received '' @ ec @ '' '' @ quoted received]\<rparr>"

definition on_accept_complete :: "(nat \<Rightarrow> string) \<Rightarrow> string option \<Rightarrow> nat \<Rightarrow> listener \<Rightarrow> listener" where
  "on_accept_complete addr error session l =
     (case error of
        None \<Rightarrow> start_accept (start_session addr session (l\<lparr>cout := cout l @ [''accept completed'']\<rparr>))
      | Some message \<Rightarrow> l\<lparr>cout := cout l @ [message]\<rparr>)"

text \<open>A completion runs the handler that was registered for it, if one is.\<close>

fun complete :: "(nat \<Rightarrow> string) \<Rightarrow> completion \<Rightarrow> listener \<Rightarrow> listener" where
  "complete addr Accept_ok l = (case accepting l of
     None \<Rightarrow> l | Some k \<Rightarrow> on_accept_complete addr None k (l\<lparr>accepting := None\<rparr>))"
| "complete addr (Accept_failed message) l = (case accepting l of
     None \<Rightarrow> l | Some k \<Rightarrow> on_accept_complete addr (Some message) k (l\<lparr>accepting := None\<rparr>))"
| "complete addr (Read_ended k ec received) l =
     (if k \<in> set (reading l) then on_received addr k ec received (l\<lparr>reading := removeAll k (reading l)\<rparr>) else l)"

definition listen :: "(nat \<Rightarrow> string) \<Rightarrow> completion list \<Rightarrow> listener" where
  "listen addr cs = foldl (\<lambda>l c. complete addr c l)
     (start_accept \<lparr>next_session = 0, accepting = None, reading = [], started = [], cout = []\<rparr>) cs"

section \<open>Properties\<close>

text \<open>The accepts that come before the first one that fails.\<close>

fun accepted_before_failure :: "completion list \<Rightarrow> nat" where
  "accepted_before_failure [] = 0"
| "accepted_before_failure (Accept_ok # cs) = Suc (accepted_before_failure cs)"
| "accepted_before_failure (Accept_failed m # cs) = 0"
| "accepted_before_failure (Read_ended k ec r # cs) = accepted_before_failure cs"

definition accept_failed :: "completion list \<Rightarrow> bool" where
  "accept_failed cs \<longleftrightarrow> list_ex (\<lambda>c. case c of Accept_failed m \<Rightarrow> True | _ \<Rightarrow> False) cs"

lemmas listener_defs = start_accept_def start_session_def on_accept_complete_def on_received_def generate_session_def

lemma complete_accepting:
  assumes "accepting l = Some (next_session l - 1)" and "started l = [0..<next_session l - 1]" and "0 < next_session l"
  shows "let l' = foldl (\<lambda>l c. complete addr c l) l cs; n = next_session l - 1 + accepted_before_failure cs
    in started l' = [0..<n] \<and> next_session l' = Suc n \<and> accepting l' = (if accept_failed cs then None else Some n)"
  using assms
proof (induction cs arbitrary: l)
  case (Cons c cs)
  have stopped: "started (foldl (\<lambda>l c. complete addr c l) m ds) = started m \<and>
      next_session (foldl (\<lambda>l c. complete addr c l) m ds) = next_session m \<and>
      accepting (foldl (\<lambda>l c. complete addr c l) m ds) = None" if "accepting m = None" for m ds
    using that
  proof (induction ds arbitrary: m)
    case (Cons d ds)
    then show ?case by (cases d) (simp_all add: listener_defs)
  qed simp
  show ?case
  proof (cases c)
    case Accept_ok
    then show ?thesis
      using Cons.prems Cons.IH [of "complete addr c l"] upt_Suc_append [of 0 "next_session l - 1"]
      by (simp add: listener_defs accept_failed_def Let_def)
  next
    case (Accept_failed m)
    then show ?thesis
      using Cons.prems stopped [of "complete addr c l" cs] by (simp add: listener_defs accept_failed_def Let_def)
  next
    case (Read_ended k ec r)
    then show ?thesis
      using Cons.prems Cons.IH [of "complete addr c l"] by (simp add: listener_defs accept_failed_def Let_def)
  qed
qed (simp add: accept_failed_def Let_def)

text \<open>
  The listener starts a session for every connection accepted before the first accept
  that fails, in order and each once; as long as none has failed exactly one more session
  waits for a connection, and after a failure the listener accepts nothing any more.
\<close>

theorem listener_accepts_until_failure:
  "started (listen addr cs) = [0..<accepted_before_failure cs] \<and>
   accepting (listen addr cs) = (if accept_failed cs then None else Some (accepted_before_failure cs))"
  using complete_accepting [of "start_accept \<lparr>next_session = 0, accepting = None, reading = [], started = [], cout = []\<rparr>" addr cs]
  by (simp add: listen_def listener_defs Let_def)

end
