(* ===== verification/Spec2Isabelle.thy ===== *)
theory Spec2Isabelle
  imports Board_Props Client_Loop Pool Sha256_Vector Concurrency_Props Element_Print Listener
begin

text \<open>
  A verification development of XYZwhiteboard, a whiteboard that several users share over a
  TLS connection: a C++ server (\<open>src/server\<close>) that keeps users and whiteboards in MongoDB
  and broadcasts the elements of a whiteboard to the sockets of its session, a client
  library (\<open>src/client\<close>), and what both use (\<open>src/base\<close>): drawing elements, packets, a
  SHA-256. Paths are relative to the directory \<open>src\<close> of the repository.

  \<^bold>\<open>How code is read.\<close> A member function of a stateful class is an \<open>act\<close> (theory
  \<open>Prelude\<close>): from the state to the outcome, an exception or a value, and the state after it;
  what was done before a throw stays done. Where two connections run at once, the same handler
  is read as a \<open>thread\<close> (theory \<open>Interleaving\<close>): a sequence of atomic accesses to the state
  that a scheduler may cut anywhere between them. Machine integers are words. Undefined behaviour
  that can happen is a value of its own (\<open>OutOfBounds\<close> in \<open>Element\<close>, \<open>Dangling_socket\<close> in
  \<open>Store\<close>). Memory the code reads before it is written is a parameter. Output for debugging
  (\<open>std::cout\<close>, everything under \<open>#ifndef NDEBUG\<close>) is left out, but for what
  \<open>WhiteboardElements::print\<close> and \<open>WhiteboardPacket::print\<close> write.

  \<^bold>\<open>What is a parameter.\<close> Code outside the repository: the protobuf runtime is the record
  \<open>pb_runtime\<close> (theory \<open>Packet\<close>) with the laws \<open>framing_laws\<close> (a varint and raw bytes are
  read back as they were written) and \<open>transmits\<close> (this message serialises and parses); the
  database and its driver are the record \<open>mongo\<close> (theory \<open>Store\<close>), one field per call the
  server makes, with \<open>mongo_laws\<close> (a find returns what is stored, an insert refuses an
  existing \<open>_id\<close>, an update applies its operators unless two of them name one field, the
  counter goes up by one); random numbers, the clock and the success of a socket write are
  fields of \<open>env\<close> and \<open>client_env\<close>. \<open>Instance\<close> has a runtime and \<open>Store\<close> a database in memory
  that satisfy the laws; the instances of the theorems use them.

  \<^bold>\<open>The theories, in the order of their imports.\<close>

  \<^item> \<open>Prelude\<close>: words, the combinators of \<open>act\<close>, the rules \<open>keeps_intros\<close> that carry an
    invariant through a computation, facts on lists.
  \<^item> \<open>Sha256\<close>, \<open>Sha256_Fips\<close>, \<open>Sha256_Props\<close>, \<open>Sha256_Vector\<close>: \<open>base/utils.cpp\<close>. The class
    member by member; FIPS 180-4; the proof that the class computes it for any message in any
    pieces (locale \<open>streaming_hash\<close>); bounds, hexadecimal form, salts; a published vector.
  \<^item> \<open>Proto\<close>: the messages of \<open>proto/*.proto\<close>. \<open>Element\<close>: \<open>base/element.cpp\<close> and
    the round trip through a message (locale \<open>codec\<close>). \<open>Element_Print\<close>: \<open>print\<close> and
    \<open>Point::str\<close>, with the text \<open>std::to_string\<close> and \<open>operator<<\<close> give for a float.
  \<^item> \<open>Packet\<close>: \<open>base/packet.cpp\<close>, \<open>packet_client.cpp\<close>, \<open>packet_server.cpp\<close>: the packet object,
    its constructors, the methods that fill it, the frame on the wire and \<open>parse_packet\<close>.
  \<^item> \<open>Sessions\<close>: the session map of \<open>server/server.hpp\<close> (locale \<open>session_registry\<close>).
    \<open>Store\<close>: documents, update operators, the interface of the database.
  \<^item> \<open>Server\<close>: \<open>server/server.cpp\<close>, every handler whole and in the order of its statements,
    the dispatch, the loop of a connection, and a run: connections and reads in any order,
    one packet at a time.
  \<^item> \<open>Server_Safety\<close>: what holds whatever the database does (locale \<open>server_invariant\<close>).
    \<open>Server_Store\<close>: what a call of the database does to the server under the laws, and how an
    invariant of the database becomes one of every run (locales \<open>dispatch_invariant\<close> and
    \<open>database_invariant\<close>). \<open>Server_Accounts\<close>: registering and logging in (locale
    \<open>account_invariant\<close>). \<open>Server_Boards\<close>, \<open>Board_Props\<close>: a specification on typed boards,
    the refinement of each handler and of every run, and what follows.
  \<^item> \<open>Interleaving\<close>: threads, their composition, schedules, and the rule by which what every
    atomic access keeps is kept by every schedule (locale \<open>interference\<close>). \<open>Server_Threads\<close>:
    each handler of \<open>server.cpp\<close> once more, as a thread, and the proof that a thread which is not
    interrupted is the handler of \<open>Server\<close>. \<open>Server_Interleavings\<close>: which accesses the threads
    make. \<open>Concurrency_Props\<close>: what holds of all schedules, and the two races of the code.
  \<^item> \<open>Client\<close>, \<open>Client_Props\<close>: \<open>client/client.cpp\<close>: requests, answers, receiving, connecting.
    \<open>Client_Loop\<close>: the handlers under \<open>io_context.run()\<close>, in whatever order and at whatever time
    the operations complete.
  \<^item> \<open>Pool\<close>: \<open>server/thread_pool.hpp\<close> as a step relation, and \<open>accept_connections\<close>.
    \<open>Listener\<close>: \<open>base/network\<close>, an asynchronous listener the server does not use yet.
  \<^item> This theory: properties that span client, wire and server.

  \<^bold>\<open>Loops.\<close> Every loop of the code is structural recursion over what it consumes, or
  (\<open>zero_fill\<close>) recursion with a measure; the loop of a connection and the one of
  \<open>accept_connections\<close> run over the list of what has arrived so far, the event loop of a client
  over the list of what has completed so far, so no fuel is needed.

  \<^bold>\<open>What is not modelled.\<close> What two threads do to each other inside one access:
  \<open>remove_socket_from_whiteboard\<close> takes no lock and the database client is shared, so two
  accesses at the same instant can be undefined in C++, and the theorems on schedules speak of
  the runs in which each access is over before the next begins. TLS and the sockets themselves; \<open>base/protobuf_addon.hpp\<close> (a
  fragment that does not compile and is not included), \<open>server/database\<close> (a copy of
  \<open>getNextSequence\<close> nothing calls), the programs in \<open>example\<close>.
\<close>

section \<open>From the client to the server and back\<close>

text \<open>What a client writes last when it makes a call, read by the server.\<close>

definition wire_packet :: "'db env \<Rightarrow> client \<Rightarrow> pb_packet" where
  "wire_packet E c = parse_packet (env_rt E) (env_junk E) (last (cl_wire c))"

lemma called_packet:
  assumes "ce_write_ok C (length (cl_wire c))" and "ce_rt C = env_rt E" and "framing_laws (env_rt E)"
    and "transmits (env_rt E) (wp_packet (call_packet (cl_user_id c) (cl_whiteboard_id c) (cl_packet_counter c + 1) call))"
  shows "wire_packet E (snd (send_call C call c)) =
      wp_packet (call_packet (cl_user_id c) (cl_whiteboard_id c) (cl_packet_counter c + 1) call)"
    and "cl_send_queue (snd (send_call C call c)) (cl_packet_counter c + 1) = Some (type_code (call_type call))"
    and "cl_user_id (snd (send_call C call c)) = cl_user_id c"
  using assms parse_serialize [OF assms(3,4), of "env_junk E" "[]"]
  by (simp_all add: send_call_at client_send_packet_def Let_def wire_packet_def)

lemma dispatch_accounts:
  "pk_type p = 9 \<Longrightarrow> dispatch E p = handle_register_request E p"
  "pk_type p = 10 \<Longrightarrow> dispatch E p = handle_login_request E p"
  "pk_type p = 1 \<Longrightarrow> dispatch E p = handle_create_whiteboard_request E p"
  "pk_type p = 2 \<Longrightarrow> dispatch E p = handle_create_session_request E p"
  "pk_type p = 3 \<Longrightarrow> dispatch E p = handle_join_session_request E p"
  "pk_type p = 5 \<Longrightarrow> dispatch E p = handle_add_element_request E p"
  by (rule ext, simp add: dispatch_def)+

text \<open>What an id response does in a client.\<close>

lemma client_takes_id:
  "cl_user_id (snd (process_packet C (wp_packet (id_answer uid i)) c)) = uid"
  by (cases "ce_packet_mem C") (simp add: process_packet_def id_answer_def new_temp_id_response_def pk_type_new_packet
      handle_temp_id_response_def act_at Let_def)

text \<open>
  C19: a user who registers at one client and later logs in at another, with any traffic in
  between, is recognised: the second client ends up with the number the first was given,
  exactly when the SHA-256 of the salt and the client's hash of the offered password is that
  of the salt and the hash of the registered one, in particular for the same password.
  (Hypotheses: the laws of the database and of the coded streams, the two packets survive
  the wire, distinct accounts, a free name, a number that fits, open sockets, writes that
  succeed.)
\<close>

theorem register_and_login_end_to_end:
  assumes laws: "mongo_laws (env_mongo E) V" and wf: "wf_users (v_users V (db s)) (v_seq V (db s))"
    and n: "next_uid V (db s) < 2 ^ 31" and free: "find (is_user u) (v_users V (db s)) = None"
    and rt: "ce_rt C = env_rt E" "framing_laws (env_rt E)" "\<And>n. ce_write_ok C n"
    and p: "p = wp_packet (call_packet (cl_user_id c1) (cl_whiteboard_id c1) (cl_packet_counter c1 + 1) (Sign_up u pw))"
      "transmits (env_rt E) p"
    and q: "q = wp_packet (call_packet (cl_user_id c2) (cl_whiteboard_id c2) (cl_packet_counter c2 + 1) (Log_in u pw'))"
      "transmits (env_rt E) q"
    and writes: "\<And>t j. env_write_ok E t j"
    and s1: "s1 = snd (dispatch E (wire_packet E (snd (send_call C (Sign_up u pw) c1))) k1 s)"
    and s2: "s2 = snd (server_run E events s1)" and live: "k2 \<in> live_sockets s2"
    and s3: "s3 = snd (dispatch E (wire_packet E (snd (send_call C (Log_in u pw') c2))) k2 s2)"
  shows "sent s3 = sent s2 @ [(k2,
      if fips_sha256 (bytes_of_string (salt_of E s @ hash_hex pw')) = fips_sha256 (bytes_of_string (salt_of E s @ hash_hex pw))
      then id_answer (word_of_nat (next_uid V (db s))) (cl_packet_counter c2 + 1)
      else new_action_response False ''Invalid username or password''
        (new_wb_packet server_version T_actionResponse (cl_packet_counter c2 + 1)))] \<and>
    cl_user_id (snd (process_packet C (wp_packet (id_answer (word_of_nat (next_uid V (db s)))
      (cl_packet_counter c2 + 1))) c2)) = word_of_nat (next_uid V (db s))"
proof -
  have wp: "wire_packet E (snd (send_call C (Sign_up u pw) c1)) = p"
    unfolding p(1) by (rule called_packet(1)) (use rt p in simp_all)
  have wq: "wire_packet E (snd (send_call C (Log_in u pw') c2)) = q"
    unfolding q(1) by (rule called_packet(1)) (use rt q in simp_all)
  have fields: "registerrequest (action_of p) = \<lparr>acc_username = u, acc_password_hash = hash_hex pw\<rparr>"
      "loginrequest (action_of q) = \<lparr>acc_username = u, acc_password_hash = hash_hex pw'\<rparr>"
      "pk_type p = 9" "pk_type q = 10" "pk_id q = cl_packet_counter c2 + 1"
    by (simp_all add: p(1) q(1) action_of_def)
  have "s1 = snd (handle_register_request E p k1 s)"
    by (simp only: s1 wp dispatch_accounts(1) [OF fields(3)])
  moreover have "s3 = snd (handle_login_request E q k2 s2)"
    by (simp only: s3 wq dispatch_accounts(2) [OF fields(4)])
  ultimately show ?thesis
    using registered_login [OF laws wf n, of p q k1 events k2] free live writes client_takes_id
    by (simp add: fields s2 Let_def send_packet_def respond_def)
qed

text \<open>
  C20: when a client with a number asks for a whiteboard and processes the answer, the id it
  has recorded is that of a new whiteboard, stored empty and with the client's user as its
  owner; the boards that were there are unchanged. (Hypotheses: the laws of the database and
  of the coded streams, the packet survives the wire, well-typed boards, a user with a
  number, an open socket, writes that succeed.)
\<close>

theorem create_whiteboard_end_to_end:
  assumes laws: "mongo_laws (env_mongo E) V" and B: "holds V (db s) B"
    and rt: "ce_rt C = env_rt E" "framing_laws (env_rt E)" "\<And>n. ce_write_ok C n"
    and p: "transmits (env_rt E) (wp_packet (call_packet (cl_user_id c) (cl_whiteboard_id c)
      (cl_packet_counter c + 1) Create_whiteboard))"
    and uid: "cl_user_id c \<noteq> 0" and live: "k \<in> live_sockets s" and writes: "\<And>t j. env_write_ok E t j"
    and c1: "c1 = snd (send_call C Create_whiteboard c)"
    and s1: "s1 = snd (dispatch E (wire_packet E c1) k s)"
    and c2: "c2 = snd (process_packet C (wp_packet (snd (last (sent s1)))) c1)"
  shows "\<exists>i. B i = None \<and> holds V (db s1) (B(i \<mapsto> new_board (cl_user_id c))) \<and>
    oid_of_string (env_mongo E) (cl_whiteboard_id c2) = Some i \<and> cl_user_id c2 = cl_user_id c"
proof -
  define p where "p = wp_packet (call_packet (cl_user_id c) (cl_whiteboard_id c) (cl_packet_counter c + 1) Create_whiteboard)"
  have called: "wire_packet E c1 = p"
      "cl_send_queue c1 (cl_packet_counter c + 1) = Some (type_code T_createWhiteboard)" "cl_user_id c1 = cl_user_id c"
    using called_packet [of C c E Create_whiteboard] rt assms(6) by (simp_all add: c1 p_def)
  have fields: "createwhiteboard (action_of p) = cl_user_id c" "pk_type p = 1" "pk_id p = cl_packet_counter c + 1"
    by (simp_all add: p_def action_of_def)
  obtain i d' where i: "B i = None" and B1: "holds V d' (B(i \<mapsto> new_board (cl_user_id c)))"
    and run: "create_step E p k (cl_user_id c) s = respond E k p True (string_of_oid (env_mongo E) i)
      (s\<lparr>tick := Suc (tick s), db := d'\<rparr>)"
    by (rule create_step_at [OF laws B])
  have s1': "s1 = s\<lparr>tick := Suc (Suc (tick s)), db := d', sent := sent s @ [(k, new_action_response True
      (string_of_oid (env_mongo E) i) (new_wb_packet server_version T_actionResponse (pk_id p)))]\<rparr>"
    using run live writes uid
    by (simp add: s1 called dispatch_accounts fields create_whiteboard_eq respond_def send_packet_def)
  have "cl_whiteboard_id c2 = string_of_oid (env_mongo E) i \<and> cl_user_id c2 = cl_user_id c"
    using called by (cases "ce_packet_mem C")
      (simp add: c2 s1' process_packet_def new_action_response_def pk_type_new_packet handle_action_response_def
        act_at Let_def queued_type_def fields new_wb_packet_def)
  moreover have "oid_of_string (env_mongo E) (string_of_oid (env_mongo E) i) = Some i"
    using mongo_laws_parts(1) [OF laws] by (simp add: find_laws_def)
  moreover have "db s1 = d'" by (simp add: s1')
  ultimately show ?thesis using i B1 by auto
qed

text \<open>
  C25: a client accepts every packet a server can ever have sent: whatever happened in the
  run, reading the packet from the wire does not end with
  ClientReceivedWrongPacketType. (Hypotheses: the packet was sent in a run; the coded
  streams behave as documented and the packet survives the wire.)
\<close>

theorem client_accepts_what_servers_send:
  assumes "(k, w) \<in> set (sent (snd (server_run E events (server_init d))))"
    and "framing_laws (ce_rt C)" and "transmits (ce_rt C) (wp_packet w)"
  shows "fst (handle_receive C (Read_ok (serialize_coded (ce_rt C) w @ rest)) c) \<noteq> Inl ClientReceivedWrongPacketType"
proof -
  have "server_packet w"
    using packets.run_keeps [of "server_init d" E events] assms(1) by (auto simp: server_init_def)
  then have t: "type_of_code (pk_type (wp_packet w)) \<in> {Some T_actionResponse, Some T_broadcast, Some T_tempIdResponse}"
    by (simp add: server_packet_def)
  have "fst (process_packet C (wp_packet w) c) \<noteq> Inl ClientReceivedWrongPacketType"
    using t by (cases "ce_packet_mem C") (auto simp: process_packet_def handle_action_response_def
        handle_temp_id_response_def client_handle_broadcast_def require_def queued_type_def act_at Let_def
        split: option.splits packet_type.splits if_splits)
  then show ?thesis
    by (auto simp: handle_receive_def act_at parse_serialize [OF assms(2,3)] split: prod.splits sum.splits)
qed

text \<open>
  C21: two users come together on a whiteboard: after the owner has opened a session from one
  client and another user has joined it from a second client, both sockets are in the session,
  both users are active and nobody else is, and the second client has recorded the whiteboard
  for its next requests. (Hypotheses: the laws of the database and of the coded streams, the
  two packets survive the wire, well-typed boards, an id that parses, users with a number,
  open sockets, writes that succeed.)
\<close>

theorem share_whiteboard_end_to_end:
  assumes laws: "mongo_laws (env_mongo E) V" and B: "holds V (db s) B"
    and i: "oid_of_string (env_mongo E) wid = Some i" and b: "B i = Some b" "b_owner b = cl_user_id c1"
    and rt: "ce_rt C = env_rt E" "framing_laws (env_rt E)" "\<And>n. ce_write_ok C n"
    and p: "transmits (env_rt E) (wp_packet (call_packet (cl_user_id c1) (cl_whiteboard_id c1)
      (cl_packet_counter c1 + 1) Create_session))"
    and q: "transmits (env_rt E) (wp_packet (call_packet (cl_user_id c2) (cl_whiteboard_id c2)
      (cl_packet_counter c2 + 1) (Join_session wid)))"
    and wid: "cl_whiteboard_id c1 = wid" and uid: "cl_user_id c2 \<noteq> 0"
    and live: "k \<in> live_sockets s" "j \<in> live_sockets s" and writes: "\<And>t n. env_write_ok E t n"
    and s1: "s1 = snd (dispatch E (wire_packet E (snd (send_call C Create_session c1))) k s)"
    and s2: "s2 = snd (dispatch E (wire_packet E (snd (send_call C (Join_session wid) c2))) j s1)"
    and c3: "c3 = snd (process_packet C (wp_packet (snd (last (sent s2)))) (snd (send_call C (Join_session wid) c2)))"
  shows "holds V (db s2) (B(i \<mapsto> b\<lparr>b_active := Some (add_user (cl_user_id c2) [cl_user_id c1])\<rparr>)) \<and>
    {k, j} \<subseteq> members (whiteboard_sessions s2) wid \<and> cl_whiteboard_id c3 = wid"
proof -
  define p where "p = wp_packet (call_packet (cl_user_id c1) (cl_whiteboard_id c1) (cl_packet_counter c1 + 1) Create_session)"
  define q where "q = wp_packet (call_packet (cl_user_id c2) (cl_whiteboard_id c2) (cl_packet_counter c2 + 1) (Join_session wid))"
  have called: "wire_packet E (snd (send_call C Create_session c1)) = p"
      "wire_packet E (snd (send_call C (Join_session wid) c2)) = q"
      "cl_send_queue (snd (send_call C (Join_session wid) c2)) (cl_packet_counter c2 + 1) = Some (type_code T_joinSession)"
    using called_packet [of C c1 E Create_session] called_packet [of C c2 E "Join_session wid"] rt assms(9,10)
    by (simp_all add: p_def q_def)
  have fields: "createsession (action_of p) = \<lparr>rq_user_id = cl_user_id c1, rq_whiteboard_id = wid\<rparr>" "pk_type p = 2"
    "joinsession (action_of q) = \<lparr>rq_user_id = cl_user_id c2, rq_whiteboard_id = wid\<rparr>" "pk_type q = 3"
    "pk_id q = cl_packet_counter c2 + 1"
    by (simp_all add: p_def q_def action_of_def wid)
  have runs: "s1 = snd (handle_create_session_request E p k s)" "s2 = snd (handle_join_session_request E q j s1)"
    by (simp_all only: s1 s2 called dispatch_accounts(4) [OF fields(2)] dispatch_accounts(5) [OF fields(4)])
  let ?b1 = "b\<lparr>b_active := Some [cl_user_id c1]\<rparr>"
  obtain d1 where B1: "holds V d1 (spec_open (rq_user_id (createsession (action_of p))) i B)"
    and first: "handle_create_session_request E p k s =
      (case open_answer (rq_user_id (createsession (action_of p))) (B i) of (ok, msg) \<Rightarrow>
        respond E k p ok msg (s\<lparr>whiteboard_sessions :=
          (if ok then add_socket_to_whiteboard (rq_whiteboard_id (createsession (action_of p))) k (whiteboard_sessions s)
           else whiteboard_sessions s), db := d1\<rparr>))"
    by (rule create_session_at [OF laws B, of p i k]) (simp_all add: fields i)
  have s1': "db s1 = d1" "whiteboard_sessions s1 = add_socket_to_whiteboard wid k (whiteboard_sessions s)"
    "live_sockets s1 = live_sockets s"
    using first live writes by (simp_all add: runs(1) fields open_answer_def b respond_def send_packet_def)
  have B1': "holds V (db s1) (B(i \<mapsto> ?b1))" using B1 by (simp add: s1' fields spec_open_def b)
  obtain d2 where B2: "holds V d2 (spec_join (cl_user_id c2) i (B(i \<mapsto> ?b1)))"
    and join: "join_step E q j (cl_user_id c2) s1 =
      (case (B(i \<mapsto> ?b1)) i of
         None \<Rightarrow> respond E j q False ''Whiteboard not found'' s1
       | Some b \<Rightarrow> (case b_active b of
           None \<Rightarrow> respond E j q False ''Whiteboard is not in shared status'' s1
         | Some xs \<Rightarrow> seq (send_packet E j (elements_packet E (tick s1) b)) (respond E j q True wid)
             (s1\<lparr>whiteboard_sessions := add_socket_to_whiteboard wid j (whiteboard_sessions s1),
                db := d2, tick := Suc (tick s1)\<rparr>)))"
    by (rule join_step_at [OF laws B1' i, of q "cl_user_id c2" j]) (simp_all add: fields)
  let ?answer = "new_action_response True wid (new_wb_packet server_version T_actionResponse (pk_id q))"
  have s2': "db s2 = d2" "whiteboard_sessions s2 = add_socket_to_whiteboard wid j (whiteboard_sessions s1)"
    "last (sent s2) = (j, ?answer)"
    using join live writes uid
    by (simp_all add: runs(2) fields join_session_eq seq_at send_packet_def respond_def s1')
  have "cl_whiteboard_id c3 = wid"
    using called(3) by (cases "ce_packet_mem C")
      (simp add: c3 s2' process_packet_def new_action_response_def pk_type_new_packet handle_action_response_def
        act_at Let_def queued_type_def fields new_wb_packet_def)
  moreover have "{k, j} \<subseteq> members (whiteboard_sessions s2) wid"
    by (simp add: s2' s1' members_add)
  ultimately show ?thesis using B2 by (simp add: s2' spec_join_def)
qed

text \<open>
  C6: an element drawn at one client arrives at every client of the session: after a client
  with rights has sent it and the server has served the request, there is one packet that was
  written to each socket of the session, and a client that reads it queues a packet whose last
  element is the drawn one, after the elements the whiteboard had; converting it gives its
  kind, geometry and text. (Hypotheses: the laws of the database and of the coded streams, the
  packets and the serialised element survive the wire, well-typed boards, an id that parses,
  the user may add, open sockets, writes that succeed.)
\<close>

theorem drawn_element_arrives:
  assumes laws: "mongo_laws (env_mongo E) V" and B: "holds V (db s) B"
    and i: "oid_of_string (env_mongo E) (cl_whiteboard_id c1) = Some i"
    and b: "B i = Some b" "may_add b (cl_user_id c1)"
    and S: "whiteboard_sessions s (cl_whiteboard_id c1) = Some S" "finite S"
    and rt: "ce_rt C = env_rt E" "framing_laws (env_rt E)" "\<And>n. ce_write_ok C n"
    and p: "transmits (env_rt E) (wp_packet (call_packet (cl_user_id c1) (cl_whiteboard_id c1)
      (cl_packet_counter c1 + 1) (Add_element e)))"
    and e: "parse_element (env_rt E) (ser_element (env_rt E) (pb_of_shape (shape_of e))) = pb_of_shape (shape_of e)"
    and w: "\<And>t. transmits (env_rt E) (wp_packet (new_broadcast
      (map (parse_element (env_rt E)) (b_elems b) @ [pb_of_shape (shape_of e)])
      (new_wb_packet server_version T_broadcast (env_rand E t))))"
    and live: "insert k S \<subseteq> live_sockets s" and writes: "\<And>t n. env_write_ok E t n"
    and s1: "s1 = snd (dispatch E (wire_packet E (snd (send_call C (Add_element e) c1))) k s)"
  shows "\<exists>w. {j. (j, w) \<in> set (sent s1)} \<supseteq> S \<and>
    (let (r, c') = handle_receive C (Read_ok (serialize_coded (env_rt E) w @ rest)) c2;
         eles = broadcast_elements (action_of (wp_packet (last (cl_received_queue c'))))
     in r = Inr True \<and> length (cl_received_queue c') = Suc (length (cl_received_queue c2)) \<and>
       eles = map (parse_element (env_rt E)) (b_elems b) @ [pb_of_shape (shape_of e)] \<and>
       shape_of (from_protobuf this mem (last eles)) = forget_filename (filename this) (shape_of e))"
proof -
  define p where "p = wp_packet (call_packet (cl_user_id c1) (cl_whiteboard_id c1) (cl_packet_counter c1 + 1) (Add_element e))"
  have called: "wire_packet E (snd (send_call C (Add_element e) c1)) = p"
    using called_packet(1) [of C c1 E "Add_element e"] rt assms(11) by (simp add: p_def)
  have fields: "addelement (action_of p) = \<lparr>add_user_id = cl_user_id c1, add_whiteboard_id = cl_whiteboard_id c1,
      add_element = Some (pb_of_shape (shape_of e))\<rparr>" "pk_type p = 5"
    by (simp_all add: p_def action_of_def)
  have s1': "s1 = snd (handle_add_element_request E p k s)"
    by (simp only: s1 called dispatch_accounts(6) [OF fields(2)])
  let ?eles = "map (parse_element (env_rt E)) (b_elems b) @ [pb_of_shape (shape_of e)]"
  let ?rid = "env_rand E (Suc (tick s))"
  have "sent (snd (handle_add_element_request E p k s)) = sent s @
    [(k, new_action_response True ''Element added successfully''
       (new_wb_packet server_version T_actionResponse (pk_id p)))] @
    map (\<lambda>j. (j, new_broadcast (map (parse_element (env_rt E)) (b_elems b @ [added_string E p]))
       (new_wb_packet server_version T_broadcast ?rid))) (sorted_list_of_set S)"
    by (rule added_element_sends [OF laws B _ b(1) _ _ S(2) live writes]) (simp_all add: fields i b S)
  then have "sent s1 = sent s @
    [(k, new_action_response True ''Element added successfully''
       (new_wb_packet server_version T_actionResponse (pk_id p)))] @
    map (\<lambda>j. (j, new_broadcast ?eles (new_wb_packet server_version T_broadcast ?rid))) (sorted_list_of_set S)"
    by (simp add: s1' fields added_string_def e)
  then have sent: "(j, new_broadcast ?eles (new_wb_packet server_version T_broadcast ?rid)) \<in> set (sent s1)" if "j \<in> S" for j
    using that S(2) by simp
  let ?w = "new_broadcast ?eles (new_wb_packet server_version T_broadcast ?rid)"
  have eles: "broadcast_elements (action_of (wp_packet ?w)) = ?eles" and t: "pk_type (wp_packet ?w) = type_code T_broadcast"
    by (simp_all add: new_broadcast_def new_packet_sealed sealed_def new_wb_packet_def action_of_def)
  obtain ver n where mem: "ce_packet_mem C = (ver, n)" by fastforce
  have "handle_receive C (Read_ok (serialize_coded (env_rt E) ?w @ rest)) c2 =
      (Inr True, c2\<lparr>cl_received_queue := cl_received_queue c2 @ [fst (packet_of_ref ver n (wp_packet ?w))]\<rparr>)"
    using parse_serialize [OF rt(2) w] rt(1)
    by (simp add: handle_receive_def act_at bytes_until_newline_def process_packet_def t mem client_handle_broadcast_def)
  moreover have "action_of (wp_packet (fst (packet_of_ref ver n (wp_packet ?w)))) = action_of (wp_packet ?w)"
    by (simp add: packet_of_ref_def Let_def action_of_def)
  ultimately show ?thesis
    using sent eles by (intro exI [of _ ?w]) (auto simp: from_protobuf_shape shape_of_pb_of_shape)
qed

section \<open>Instances\<close>

text \<open>A client and a server over one table of encodings, and an empty database.\<close>

definition demo_packets :: "(pb_packet \<times> u8 list) list" where
  "demo_packets =
     [(wp_packet (call_packet 0 [] 1 (Sign_up ''ann'' ''pw'')), [9]),
      (wp_packet (call_packet 0 [] 1 (Log_in ''ann'' ''pw'')), [10]),
      (wp_packet (call_packet 7 [] 1 Create_whiteboard), [1])]"

definition demo_rt :: pb_runtime where
  "demo_rt = table_rt demo_packets []"

definition demo_env :: "memdb env" where
  "demo_env = mem_env\<lparr>env_rt := demo_rt\<rparr>"

definition demo_client_env :: client_env where
  "demo_client_env = sample_client_env\<lparr>ce_rt := demo_rt\<rparr>"

lemma demo_simps [simp]:
  "env_mongo demo_env = mem_mongo" "env_rt demo_env = demo_rt" "env_write_ok demo_env t j"
  "ce_rt demo_client_env = demo_rt" "ce_write_ok demo_client_env n"
  by (simp_all add: demo_env_def demo_client_env_def sample_client_env_def)

lemma demo_framing: "framing_laws demo_rt"
  by (simp add: demo_rt_def table_rt_framing)

lemma demo_transmits:
  "transmits demo_rt (wp_packet (call_packet 0 [] 1 (Sign_up ''ann'' ''pw'')))"
  "transmits demo_rt (wp_packet (call_packet 0 [] 1 (Log_in ''ann'' ''pw'')))"
  "transmits demo_rt (wp_packet (call_packet 7 [] 1 Create_whiteboard))"
  by (simp_all add: transmits_def demo_rt_def table_rt_def demo_packets_def)

lemma demo_laws: "mongo_laws (env_mongo demo_env) mem_view"
  by (simp add: mem_mongo_laws)

definition demo_server :: "memdb server" where
  "demo_server = (server_init mem_empty)\<lparr>live_sockets := {3}\<rparr>"

lemma demo_server_simps [simp]: "db demo_server = mem_empty" "live_sockets demo_server = {3}"
  by (simp_all add: demo_server_def server_init_def)

lemma new_client_simps [simp]:
  "cl_user_id (new_client m) = m" "cl_whiteboard_id (new_client m) = []" "cl_packet_counter (new_client m) = 0"
  by (simp_all add: new_client_def)

theorem register_and_login_end_to_end_witness:
  "let s1 = snd (dispatch demo_env (wire_packet demo_env
        (snd (send_call demo_client_env (Sign_up ''ann'' ''pw'') (new_client 0)))) 3 demo_server);
      s2 = snd (server_run demo_env [Connect 4] s1);
      s3 = snd (dispatch demo_env (wire_packet demo_env
        (snd (send_call demo_client_env (Log_in ''ann'' ''pw'') (new_client 0)))) 4 s2)
    in sent s3 = sent s2 @ [(4, id_answer 0 1)]"
proof -
  have wf: "wf_users (v_users mem_view (db demo_server)) (v_seq mem_view (db demo_server))"
    and n: "next_uid mem_view mem_empty = 0"
    and free: "find (is_user ''ann'') (v_users mem_view (db demo_server)) = None"
    by (simp_all add: mem_view_def mem_empty_def wf_users_def next_uid_def seq_value_def)
  have live: "4 \<in> live_sockets (snd (server_run demo_env [Connect 4] s))" for s
    by (simp add: server_run_def act_at)
  show ?thesis
    using register_and_login_end_to_end [OF demo_laws wf _ free _ _ _ refl _ refl _ _ refl refl live refl,
        of demo_client_env "new_client 0" "''pw''" "new_client 0" "''pw''" 3] demo_framing demo_transmits
    by (simp add: n Let_def)
qed

theorem create_whiteboard_end_to_end_witness:
  "let c1 = snd (send_call demo_client_env Create_whiteboard (new_client 7));
      s1 = snd (dispatch demo_env (wire_packet demo_env c1) 3 demo_server);
      c2 = snd (process_packet demo_client_env (wp_packet (snd (last (sent s1)))) c1)
    in \<exists>i. holds mem_view (db s1) [i \<mapsto> new_board 7] \<and> mem_oid_of_string (cl_whiteboard_id c2) = Some i"
proof -
  have B: "holds mem_view (db demo_server) Map.empty" by (simp add: empty_holds)
  show ?thesis
    using create_whiteboard_end_to_end [OF demo_laws B _ _ _ _ _ _ _ refl refl refl,
        of demo_client_env "new_client 7" 3] demo_framing demo_transmits
    by (auto simp: Let_def mem_mongo_def)
qed

text \<open>Users 7 and 8 on the whiteboard of user 7, who draws a line; the server always draws the number 5.\<close>

definition drawing :: elements where
  "drawing = new_line \<lparr>pt_x = 0, pt_y = 0\<rparr> \<lparr>pt_x = 1, pt_y = 0\<rparr> (ce_mem sample_client_env)"

definition drawn :: pb_element where
  "drawn = pb_of_shape (shape_of drawing)"

definition painter :: client where
  "painter = (new_client 7)\<lparr>cl_whiteboard_id := sample_wid\<rparr>"

definition share_rt :: pb_runtime where
  "share_rt = table_rt
     [(wp_packet (call_packet 7 sample_wid 1 Create_session), [2]),
      (wp_packet (call_packet 8 [] 1 (Join_session sample_wid)), [3]),
      (wp_packet (call_packet 7 sample_wid 1 (Add_element drawing)), [4]),
      (wp_packet (new_broadcast [drawn] (new_wb_packet server_version T_broadcast 5)), [5])]
     [(drawn, ''line'')]"

definition share_env :: "memdb env" where
  "share_env = mem_env\<lparr>env_rt := share_rt, env_rand := (\<lambda>t. 5)\<rparr>"

definition share_client_env :: client_env where
  "share_client_env = sample_client_env\<lparr>ce_rt := share_rt\<rparr>"

lemma share_simps [simp]:
  "env_mongo share_env = mem_mongo" "env_rt share_env = share_rt" "env_rand share_env t = 5" "env_write_ok share_env t j"
  "ce_rt share_client_env = share_rt" "ce_write_ok share_client_env n"
  "cl_user_id painter = 7" "cl_whiteboard_id painter = sample_wid" "cl_packet_counter painter = 0"
  by (simp_all add: share_env_def share_client_env_def sample_client_env_def painter_def)

lemma sample_server_live [simp]: "live_sockets (sample_server live js) = live"
  by (simp add: sample_server_def)

lemma share_framing: "framing_laws share_rt"
  by (simp add: share_rt_def table_rt_framing)

lemma share_transmits:
  "transmits share_rt (wp_packet (call_packet 7 sample_wid 1 Create_session))"
  "transmits share_rt (wp_packet (call_packet 8 [] 1 (Join_session sample_wid)))"
  "transmits share_rt (wp_packet (call_packet 7 sample_wid 1 (Add_element drawing)))"
  "transmits share_rt (wp_packet (new_broadcast [drawn] (new_wb_packet server_version T_broadcast 5)))"
  by (simp_all add: transmits_def share_rt_def table_rt_def new_broadcast_def new_packet_sealed sealed_def new_wb_packet_def)

lemma share_laws: "mongo_laws (env_mongo share_env) mem_view"
  by (simp add: mem_mongo_laws)

theorem share_whiteboard_end_to_end_witness:
  "let s1 = snd (dispatch share_env (wire_packet share_env (snd (send_call share_client_env Create_session painter))) 3
        (sample_server {3, 4} {}));
      s2 = snd (dispatch share_env (wire_packet share_env
        (snd (send_call share_client_env (Join_session sample_wid) (new_client 8)))) 4 s1)
    in holds mem_view (db s2) [1 \<mapsto> sample_board\<lparr>b_active := Some [7, 8]\<rparr>] \<and>
       {3, 4} \<subseteq> members (whiteboard_sessions s2) sample_wid"
  using share_whiteboard_end_to_end [OF share_laws sample_holds [of "{3, 4}" "{}"], where wid = sample_wid and i = 1
      and b = sample_board and ?c1.0 = painter and ?c2.0 = "new_client 8" and C = share_client_env and k = 3 and j = 4,
      OF _ _ _ _ _ _ _ _ _ _ _ _ _ refl refl refl] share_framing share_transmits
  by (simp add: sample_oids sample_boards_def sample_board_def add_user_def Let_def)

theorem drawn_element_arrives_witness:
  "let s1 = snd (dispatch share_env (wire_packet share_env
        (snd (send_call share_client_env (Add_element drawing) painter))) 3 (sample_server {3, 4} {3, 4}))
    in \<exists>w. {j. (j, w) \<in> set (sent s1)} \<supseteq> {3, 4} \<and>
      broadcast_elements (action_of (wp_packet (last (cl_received_queue
        (snd (handle_receive share_client_env (Read_ok (serialize_coded share_rt w)) (new_client 8))))))) = [drawn]"
proof -
  have e: "parse_element share_rt (ser_element share_rt drawn) = drawn"
    by (simp add: share_rt_def table_rt_def)
  show ?thesis
    using drawn_element_arrives [OF share_laws sample_holds [of "{3, 4}" "{3, 4}"], where i = 1 and b = sample_board
        and S = "{3, 4}" and ?c1.0 = painter and ?c2.0 = "new_client 8" and C = share_client_env and k = 3
        and e = drawing and rest = "[]", OF _ _ _ _ _ _ _ _ _ _ _ _ _ refl] share_framing share_transmits e
    by (simp add: sample_oids sample_boards_def sample_board_def may_add_def sample_server_def Let_def drawn_def
        case_prod_beta) blast
qed

definition refusal :: wb_packet where
  "refusal = new_action_response False ''User not exist'' (new_wb_packet server_version T_actionResponse 1)"

definition refusal_client_env :: client_env where
  "refusal_client_env = sample_client_env\<lparr>ce_rt := table_rt [(wp_packet refusal, [11])] []\<rparr>"

lemma refusal_sent: "(3, refusal) \<in> set (sent (snd (server_run demo_env
    [Connect 3, Receive 3 (Read_ok [1, 10, 10])] (server_init mem_empty))))"
proof -
  have u: "unleb128 [1, 10, 10] = Some (1, [10, 10])" by simp
  have "parse_packet demo_rt (env_junk demo_env) [1, 10, 10] = wp_packet (call_packet 0 [] 1 (Log_in ''ann'' ''pw''))"
    by (simp add: parse_packet_def demo_rt_def table_rt_def u demo_packets_def Let_def)
  then show ?thesis
    by (simp add: server_run_def act_at server_init_def handle_connection_def dispatch_accounts(2)
        handle_login_request_def action_of_def Let_def db_call_def mem_mongo_def mem_empty_def respond_def
        send_packet_def refusal_def)
qed

theorem client_accepts_what_servers_send_witness:
  "fst (handle_receive refusal_client_env (Read_ok (serialize_coded (ce_rt refusal_client_env) refusal)) (new_client 0))
     \<noteq> Inl ClientReceivedWrongPacketType"
proof -
  have "framing_laws (ce_rt refusal_client_env)"
    by (simp add: refusal_client_env_def table_rt_framing)
  moreover have "transmits (ce_rt refusal_client_env) (wp_packet refusal)"
    by (simp add: refusal_client_env_def transmits_def table_rt_def)
  ultimately show ?thesis
    using client_accepts_what_servers_send [OF refusal_sent, of refusal_client_env "[]" "new_client 0"] by simp
qed

end
